theory Spec2Isabelle
  imports Complex_Main

begin

section \<open>JavaScript numbers\<close>

text \<open>
  The curve fitter computes on JavaScript numbers. Finite values are modelled as exact
  reals (no rounding error, no overflow, the two zeros identified); the two infinities and
  not-a-number are kept as values of their own, with the IEEE rules for them, because the
  program divides by magnitudes that can be zero.
\<close>

datatype jsnum = Num real | PInf | NInf | NaN

fun js_neg :: "jsnum \<Rightarrow> jsnum" where
  "js_neg (Num a) = Num (- a)"
| "js_neg PInf = NInf"
| "js_neg NInf = PInf"
| "js_neg NaN = NaN"

fun js_add :: "jsnum \<Rightarrow> jsnum \<Rightarrow> jsnum" where
  "js_add NaN b = NaN"
| "js_add a NaN = NaN"
| "js_add (Num a) (Num b) = Num (a + b)"
| "js_add PInf NInf = NaN"
| "js_add NInf PInf = NaN"
| "js_add PInf b = PInf"
| "js_add NInf b = NInf"
| "js_add (Num a) b = b"

definition js_sub :: "jsnum \<Rightarrow> jsnum \<Rightarrow> jsnum" where
  "js_sub a b = js_add a (js_neg b)"

text \<open>The sign of an infinity scaled by a finite factor; zero times infinity is NaN.\<close>

definition inf_times :: "bool \<Rightarrow> real \<Rightarrow> jsnum" where
  "inf_times pos a = (if a = 0 then NaN else if (0 < a) = pos then PInf else NInf)"

fun js_mul :: "jsnum \<Rightarrow> jsnum \<Rightarrow> jsnum" where
  "js_mul NaN b = NaN"
| "js_mul a NaN = NaN"
| "js_mul (Num a) (Num b) = Num (a * b)"
| "js_mul (Num a) PInf = inf_times True a"
| "js_mul (Num a) NInf = inf_times False a"
| "js_mul PInf (Num b) = inf_times True b"
| "js_mul NInf (Num b) = inf_times False b"
| "js_mul PInf PInf = PInf"
| "js_mul NInf NInf = PInf"
| "js_mul PInf NInf = NInf"
| "js_mul NInf PInf = NInf"

text \<open>
  Division. A finite non-zero value over zero is an infinity with the sign of the dividend
  (every zero divisor of the program is a \<open>Math.max\<close> of absolute values, a positive
  zero); zero over zero is NaN.
\<close>

fun js_div :: "jsnum \<Rightarrow> jsnum \<Rightarrow> jsnum" where
  "js_div NaN b = NaN"
| "js_div a NaN = NaN"
| "js_div (Num a) (Num b) =
     (if b \<noteq> 0 then Num (a / b)
      else if a = 0 then NaN else if 0 < a then PInf else NInf)"
| "js_div (Num a) b = Num 0"
| "js_div PInf (Num b) = (if 0 \<le> b then PInf else NInf)"
| "js_div NInf (Num b) = (if 0 \<le> b then NInf else PInf)"
| "js_div a b = NaN"

text \<open>\<open>a < b\<close>: false as soon as one side is NaN.\<close>

fun js_lt :: "jsnum \<Rightarrow> jsnum \<Rightarrow> bool" where
  "js_lt NaN b = False"
| "js_lt a NaN = False"
| "js_lt (Num a) (Num b) = (a < b)"
| "js_lt a PInf = (a \<noteq> PInf)"
| "js_lt NInf b = (b \<noteq> NInf)"
| "js_lt a b = False"

definition js_gt :: "jsnum \<Rightarrow> jsnum \<Rightarrow> bool" where
  "js_gt a b = js_lt b a"

text \<open>\<open>a == b\<close> on numbers: NaN equals nothing, itself included.\<close>

definition js_eq :: "jsnum \<Rightarrow> jsnum \<Rightarrow> bool" where
  "js_eq a b = (a \<noteq> NaN \<and> a = b)"

fun js_abs :: "jsnum \<Rightarrow> jsnum" where
  "js_abs (Num a) = Num \<bar>a\<bar>"
| "js_abs NaN = NaN"
| "js_abs a = PInf"

fun js_sqrt :: "jsnum \<Rightarrow> jsnum" where
  "js_sqrt (Num a) = (if a < 0 then NaN else Num (sqrt a))"
| "js_sqrt PInf = PInf"
| "js_sqrt a = NaN"

text \<open>\<open>Math.round\<close>: the nearest integer, a half rounding up.\<close>

fun js_round :: "jsnum \<Rightarrow> jsnum" where
  "js_round (Num a) = Num (of_int \<lfloor>a + 1 / 2\<rfloor>)"
| "js_round a = a"

fun js_max :: "jsnum \<Rightarrow> jsnum \<Rightarrow> jsnum" where
  "js_max NaN b = NaN"
| "js_max a NaN = NaN"
| "js_max a b = (if js_lt a b then b else a)"

fun js_acos :: "jsnum \<Rightarrow> jsnum" where
  "js_acos (Num a) = (if - 1 \<le> a \<and> a \<le> 1 then Num (arccos a) else NaN)"
| "js_acos a = NaN"

text \<open>\<open>Math.pow(a, n)\<close> for the exponents 2 and 3 the program uses.\<close>

primrec js_pow :: "jsnum \<Rightarrow> nat \<Rightarrow> jsnum" where
  "js_pow a 0 = Num 1"
| "js_pow a (Suc n) = js_mul a (js_pow a n)"

text \<open>Truthiness of a number (\<open>0\<close> and NaN are falsy).\<close>

definition js_truthy :: "jsnum \<Rightarrow> bool" where
  "js_truthy a = (a \<noteq> NaN \<and> a \<noteq> Num 0)"

section \<open>Constants\<close>

definition MAX_ERROR :: jsnum where "MAX_ERROR = Num 2"

definition FIELD_RADIUS :: jsnum where "FIELD_RADIUS = Num 9"

definition NUM_SAMPLE_POINTS :: nat where "NUM_SAMPLE_POINTS = 9"

definition MAX_ITERATIONS :: nat where "MAX_ITERATIONS = 50"

definition MAX_CORNER_ANGLE :: jsnum where "MAX_CORNER_ANGLE = Num 80"

definition RADIAL_SIMPLIFICATION :: jsnum where "RADIAL_SIMPLIFICATION = Num 1"

definition SHOULD_USE_NEW_CORNER_FINDER :: bool where "SHOULD_USE_NEW_CORNER_FINDER = True"

definition SHOULD_USE_MY_FORCE_VECTORS :: bool where "SHOULD_USE_MY_FORCE_VECTORS = True"

datatype UpdateStatus = SUCCESS | FAIL_CORNER | FAIL_MAXED

section \<open>Vector utilities\<close>

datatype vec = Vec (vx: jsnum) (vy: jsnum)

definition negateVec :: "vec \<Rightarrow> vec" where
  "negateVec v = Vec (js_neg (vx v)) (js_neg (vy v))"

definition roundVec :: "vec \<Rightarrow> vec" where
  "roundVec v = Vec (js_round (vx v)) (js_round (vy v))"

definition sumOfSquaresVec :: "vec \<Rightarrow> jsnum" where
  "sumOfSquaresVec v = js_add (js_pow (vx v) 2) (js_pow (vy v) 2)"

definition magnitudeVec :: "vec \<Rightarrow> jsnum" where
  "magnitudeVec v = js_sqrt (sumOfSquaresVec v)"

definition addVec :: "vec \<Rightarrow> vec \<Rightarrow> vec" where
  "addVec a b = Vec (js_add (vx a) (vx b)) (js_add (vy a) (vy b))"

definition subVec :: "vec \<Rightarrow> vec \<Rightarrow> vec" where
  "subVec a b = addVec a (negateVec b)"

definition multVec :: "vec \<Rightarrow> jsnum \<Rightarrow> vec" where
  "multVec a scalar_b = Vec (js_mul (vx a) scalar_b) (js_mul (vy a) scalar_b)"

definition divVec :: "vec \<Rightarrow> jsnum \<Rightarrow> vec" where
  "divVec a scalar_b = multVec a (js_div (Num 1) scalar_b)"

definition equalVec :: "vec \<Rightarrow> vec \<Rightarrow> bool" where
  "equalVec a b = (js_eq (vx a) (vx b) \<and> js_eq (vy a) (vy b))"

definition dotProduct :: "vec \<Rightarrow> vec \<Rightarrow> jsnum" where
  "dotProduct a b = js_add (js_mul (vx a) (vx b)) (js_mul (vy a) (vy b))"

definition getMagnitude :: "vec \<Rightarrow> vec \<Rightarrow> jsnum" where
  "getMagnitude p p2 =
     js_sqrt (js_add (js_pow (js_sub (vx p) (vx p2)) 2) (js_pow (js_sub (vy p) (vy p2)) 2))"

definition radiansToDegrees :: "jsnum \<Rightarrow> jsnum" where
  "radiansToDegrees rad = js_div (js_mul rad (Num 180)) (Num pi)"

definition getDDASteps :: "vec \<Rightarrow> jsnum" where
  "getDDASteps diff = js_max (js_abs (vx diff)) (js_abs (vy diff))"

definition getUnitVector :: "vec \<Rightarrow> vec" where
  "getUnitVector v =
     (let magnitude = getMagnitude v (Vec (Num 0) (Num 0))
      in Vec (js_div (vx v) magnitude) (js_div (vy v) magnitude))"

definition getPerpindicularUnitVector :: "vec \<Rightarrow> vec \<Rightarrow> vec" where
  "getPerpindicularUnitVector a b =
     (let delta_x = js_sub (vx b) (vx a);
          delta_y = js_sub (vy b) (vy a)
      in getUnitVector (Vec delta_y (js_neg delta_x)))"

definition getScaledVectorDifference :: "vec \<Rightarrow> vec" where
  "getScaledVectorDifference uvec =
     Vec (js_mul (vx uvec) FIELD_RADIUS) (js_mul (vy uvec) FIELD_RADIUS)"

section \<open>Data model\<close>

text \<open>
  A segment object. \<open>constrain_to\<close>, \<open>error\<close>, \<open>update_status\<close> and \<open>steps\<close> are
  absent (\<open>undefined\<close>) on a segment made by \<open>initCurveSegment\<close>.
\<close>

record segment =
  c0 :: vec
  c1 :: vec
  c2 :: vec
  c3 :: vec
  constrain_to :: "vec option"
  error :: "jsnum option"
  update_status :: "UpdateStatus option"
  steps :: "nat option"

text \<open>
  The vector distance map \<open>vdmap\<close>: an array of arrays indexed by rounded coordinates
  (a JavaScript array takes any number as a property key, negative ones included).
\<close>

type_synonym vdmap = "jsnum \<Rightarrow> (jsnum \<Rightarrow> vec option) option"

record curve =
  segments :: "segment list"
  vdmap :: vdmap

text \<open>What a call can do other than return.\<close>

datatype failure = TypeError | Diverges

definition initCurve :: curve where
  "initCurve = \<lparr>segments = [], vdmap = (\<lambda>_. None)\<rparr>"

definition initCurveSegment :: "jsnum \<Rightarrow> jsnum \<Rightarrow> segment" where
  "initCurveSegment x y =
     \<lparr>c0 = Vec x y, c1 = Vec x y, c2 = Vec x y, c3 = Vec x y,
      constrain_to = None, error = None, update_status = None, steps = None\<rparr>"

definition getLastSegment :: "curve \<Rightarrow> segment option" where
  "getLastSegment cv = (if segments cv = [] then None else Some (last (segments cv)))"

definition getLastPoint :: "segment \<Rightarrow> vec" where
  "getLastPoint sg = c3 sg"

text \<open>
  The last segment is mutated in place; in the model the updated segment is written
  back to the end of the list.
\<close>

definition putLastSegment :: "curve \<Rightarrow> segment \<Rightarrow> curve" where
  "putLastSegment cv sg = cv\<lparr>segments := butlast (segments cv) @ [sg]\<rparr>"

definition copySegment :: "segment \<Rightarrow> segment" where
  "copySegment sg =
     \<lparr>c0 = Vec (vx (c0 sg)) (vy (c0 sg)),
      c1 = Vec (vx (c1 sg)) (vy (c1 sg)),
      c2 = Vec (vx (c2 sg)) (vy (c2 sg)),
      c3 = Vec (vx (c3 sg)) (vy (c3 sg)),
      constrain_to =
        (case constrain_to sg of None \<Rightarrow> None | Some ct \<Rightarrow> Some (Vec (vx ct) (vy ct))),
      error =
        (case error sg of None \<Rightarrow> Some (Num 0)
         | Some e \<Rightarrow> if js_truthy e then Some e else Some (Num 0)),
      update_status = update_status sg,
      steps = None\<rparr>"

definition createCurve :: "vec \<Rightarrow> curve" where
  "createCurve p =
     (let cv = initCurve in cv\<lparr>segments := segments cv @ [initCurveSegment (vx p) (vy p)]\<rparr>)"

definition startCurve :: "vec \<Rightarrow> curve" where
  "startCurve coord = createCurve (roundVec coord)"

section \<open>Bezier evaluation\<close>

definition singleComponentBezier :: "jsnum \<Rightarrow> jsnum \<Rightarrow> jsnum \<Rightarrow> jsnum \<Rightarrow> jsnum \<Rightarrow> jsnum" where
  "singleComponentBezier t w0 w1 w2 w3 =
     js_add (js_add (js_add
       (js_mul w0 (js_pow (js_sub (Num 1) t) 3))
       (js_mul (js_mul (js_mul w1 (Num 3)) t) (js_pow (js_sub (Num 1) t) 2)))
       (js_mul (js_mul (js_mul w2 (Num 3)) (js_pow t 2)) (js_sub (Num 1) t)))
       (js_mul w3 (js_pow t 3))"

definition getPointAlongCurve :: "segment \<Rightarrow> jsnum \<Rightarrow> vec" where
  "getPointAlongCurve sg t =
     Vec (singleComponentBezier t (vx (c0 sg)) (vx (c1 sg)) (vx (c2 sg)) (vx (c3 sg)))
         (singleComponentBezier t (vy (c0 sg)) (vy (c1 sg)) (vy (c2 sg)) (vy (c3 sg)))"

definition getCurveEndTangent :: "segment \<Rightarrow> vec" where
  "getCurveEndTangent sg =
     (let endpoint = c3 sg; control_point = c2 sg
      in Vec (js_mul (Num 3) (js_sub (vx control_point) (vx endpoint)))
             (js_mul (Num 3) (js_sub (vy control_point) (vy endpoint))))"

definition getSegmentMidpoint :: "segment \<Rightarrow> vec" where
  "getSegmentMidpoint sg = addVec (divVec (subVec (c3 sg) (c0 sg)) (Num 2)) (c0 sg)"

section \<open>Corner detector\<close>

text \<open>
  The function returns \<open>true\<close> or falls off its end (\<open>undefined\<close>, falsy): a bool. In exact
  arithmetic the dot product of two unit vectors lies between \<open>- 1\<close> and \<open>1\<close>. In the
  program's doubles it can come out just above \<open>1\<close> when the two directions coincide or
  almost; \<open>Math.acos\<close> is then NaN and the answer false, where the model has an angle of 0, or
  almost, and answers true. Statements about the test are therefore made for directions that
  are apart, or at inputs along an axis, where the doubles are exact.
\<close>

definition checkCorner :: "segment \<Rightarrow> vec \<Rightarrow> bool" where
  "checkCorner curveSegment point =
     (if equalVec (c0 curveSegment) (c3 curveSegment) then False
      else
        let tan = (if SHOULD_USE_NEW_CORNER_FINDER
                   then getUnitVector
                          (subVec (getPointAlongCurve curveSegment (Num (95 / 100)))
                                  (c3 curveSegment))
                   else getUnitVector (getCurveEndTangent curveSegment));
            new_segment = getUnitVector
                            (Vec (js_sub (vx point) (vx (c3 curveSegment)))
                                 (js_sub (vy point) (vy (c3 curveSegment))));
            dot = dotProduct tan new_segment;
            angle = radiansToDegrees (js_acos dot)
        in js_lt angle MAX_CORNER_ANGLE)"

section \<open>Distance field\<close>

definition getDistanceFromPolyline :: "vdmap \<Rightarrow> vec \<Rightarrow> vec" where
  "getDistanceFromPolyline vd p =
     (case vd (vx p) of
        None \<Rightarrow> Vec FIELD_RADIUS FIELD_RADIUS
      | Some col \<Rightarrow>
          let first = col (vy p);
              second = col (js_add (vy p) (Num 1));
              val = (case first of Some f \<Rightarrow> Vec (vx f) (vy f)
                     | None \<Rightarrow> Vec FIELD_RADIUS FIELD_RADIUS);
              valx = (case second of
                        Some s \<Rightarrow> if js_gt (js_abs (vx val)) (js_abs (vx s)) then vx s else vx val
                      | None \<Rightarrow> vx val);
              valy = (case second of
                        Some s \<Rightarrow> if js_gt (js_abs (vy val)) (js_abs (vy s)) then vy s else vy val
                      | None \<Rightarrow> vy val)
          in Vec valx valy)"

text \<open>
  The update of one cell, written out twice in \<open>updateDistanceField\<close> (in the strip
  loop and in the end-cap loop): create the column if it is missing, store the candidate
  in an empty cell, otherwise keep the stored value only if its sum of squares is
  smaller than the candidate's.
\<close>

definition storeCell :: "vdmap \<Rightarrow> jsnum \<Rightarrow> jsnum \<Rightarrow> vec \<Rightarrow> vdmap" where
  "storeCell vd x y cand =
     (let col = (case vd x of None \<Rightarrow> (\<lambda>_. None) | Some c \<Rightarrow> c)
      in case col y of
           None \<Rightarrow> vd(x \<mapsto> col(y \<mapsto> cand))
         | Some old \<Rightarrow>
             vd(x \<mapsto> col(y \<mapsto>
               (if js_lt (sumOfSquaresVec old) (sumOfSquaresVec cand) then old else cand))))"

text \<open>
  The number of rounds of \<open>for (let v = a; v < b; v++)\<close>; \<open>None\<close> when the loop never
  ends (the bound is never reached). The count is taken over exact reals: where the program's
  doubles round a bound to just above an integer the program makes one round more, and a
  counter beyond \<open>2 ^ 53\<close> no longer advances. Only statements that a call returns depend on
  the count.
\<close>

definition range_count :: "jsnum \<Rightarrow> jsnum \<Rightarrow> nat option" where
  "range_count a b =
     (case (a, b) of
        (Num u, Num v) \<Rightarrow> Some (nat \<lceil>v - u\<rceil>)
      | (Num u, PInf) \<Rightarrow> None
      | (NInf, Num v) \<Rightarrow> None
      | (NInf, PInf) \<Rightarrow> None
      | _ \<Rightarrow> Some 0)"

definition loop_count :: "jsnum \<Rightarrow> nat option" where
  "loop_count s = range_count (Num 0) s"

text \<open>The inner strip loop (over \<open>j\<close>), \<open>n\<close> rounds left.\<close>

fun strip_column :: "vec \<Rightarrow> nat \<Rightarrow> vdmap \<Rightarrow> vec \<Rightarrow> vec \<Rightarrow> vdmap" where
  "strip_column vert_increment 0 vd current_val current_location = vd"
| "strip_column vert_increment (Suc n) vd current_val current_location =
     (let r = roundVec current_location;
          vd' = storeCell vd (vx r) (vy r) (roundVec current_val)
      in strip_column vert_increment n vd'
           (addVec current_val vert_increment) (addVec current_location vert_increment))"

text \<open>The outer strip loop (over \<open>i\<close>), \<open>n\<close> rounds left.\<close>

fun strip_rows :: "vec \<Rightarrow> vec \<Rightarrow> nat \<Rightarrow> vec \<Rightarrow> nat \<Rightarrow> vdmap \<Rightarrow> vec \<Rightarrow> vdmap" where
  "strip_rows vert_increment horiz_increment vert_n dist_vec 0 vd current_horiz_location = vd"
| "strip_rows vert_increment horiz_increment vert_n dist_vec (Suc n) vd current_horiz_location =
     strip_rows vert_increment horiz_increment vert_n dist_vec n
       (strip_column vert_increment vert_n vd dist_vec current_horiz_location)
       (addVec current_horiz_location horiz_increment)"

text \<open>A loop nest: nothing happens if the outer loop has no round; it never ends if the
  outer loop never ends, or has a round and the inner loop never ends.\<close>

definition loop_nest :: "nat option \<Rightarrow> nat option \<Rightarrow> (nat \<Rightarrow> nat \<Rightarrow> 'a) \<Rightarrow> 'a \<Rightarrow> failure + 'a" where
  "loop_nest outer inner run skip =
     (case outer of
        None \<Rightarrow> Inl Diverges
      | Some 0 \<Rightarrow> Inr skip
      | Some n \<Rightarrow> (case inner of None \<Rightarrow> Inl Diverges | Some m \<Rightarrow> Inr (run n m)))"

text \<open>Lines 122 to 167 of \<open>updateDistanceField\<close>: the strip around the new line.\<close>

definition paintStrip :: "vdmap \<Rightarrow> vec \<Rightarrow> vec \<Rightarrow> failure + vdmap" where
  "paintStrip vd last_point current_point =
     (let perp_vec = getPerpindicularUnitVector last_point current_point;
          dist = getScaledVectorDifference perp_vec;
          a1 = addVec last_point dist;
          b1 = addVec current_point dist;
          vert_diff = negateVec (multVec dist (Num 2));
          vert_steps = getDDASteps vert_diff;
          vert_increment = divVec vert_diff vert_steps;
          horiz_diff = subVec b1 a1;
          horiz_steps = getDDASteps horiz_diff;
          horiz_increment = divVec horiz_diff horiz_steps
      in loop_nest (loop_count horiz_steps) (loop_count vert_steps)
           (\<lambda>n m. strip_rows vert_increment horiz_increment m dist n vd a1) vd)"

text \<open>The inner end-cap loop (over \<open>y\<close>), \<open>n\<close> rounds left.\<close>

fun cap_column :: "vec \<Rightarrow> jsnum \<Rightarrow> nat \<Rightarrow> vdmap \<Rightarrow> jsnum \<Rightarrow> vdmap" where
  "cap_column current_point x 0 vd y = vd"
| "cap_column current_point x (Suc n) vd y =
     cap_column current_point x n
       (storeCell vd x y (subVec (Vec x y) current_point)) (js_add y (Num 1))"

text \<open>The outer end-cap loop (over \<open>x\<close>), \<open>n\<close> rounds left.\<close>

fun cap_rows :: "vec \<Rightarrow> jsnum \<Rightarrow> nat \<Rightarrow> nat \<Rightarrow> vdmap \<Rightarrow> jsnum \<Rightarrow> vdmap" where
  "cap_rows current_point y0 inner_n 0 vd x = vd"
| "cap_rows current_point y0 inner_n (Suc n) vd x =
     cap_rows current_point y0 inner_n n
       (cap_column current_point x inner_n vd y0) (js_add x (Num 1))"

text \<open>Lines 171 to 186 of \<open>updateDistanceField\<close>: the square cap at the end point.\<close>

definition paintEndCap :: "vdmap \<Rightarrow> vec \<Rightarrow> failure + vdmap" where
  "paintEndCap vd current_point =
     (let upperLeftPoint = subVec current_point (Vec FIELD_RADIUS FIELD_RADIUS);
          bottomRightPoint = addVec current_point (Vec FIELD_RADIUS FIELD_RADIUS)
      in loop_nest (range_count (vx upperLeftPoint) (vx bottomRightPoint))
           (range_count (vy upperLeftPoint) (vy bottomRightPoint))
           (\<lambda>n m. cap_rows current_point (vy upperLeftPoint) m n vd (vx upperLeftPoint)) vd)"

section \<open>Iterative refiner\<close>

text \<open>The sample parameter \<open>t = i / NUM_SAMPLE_POINTS\<close>.\<close>

definition sample_t :: "nat \<Rightarrow> jsnum" where
  "sample_t i = js_div (Num (real i)) (Num (real NUM_SAMPLE_POINTS))"

text \<open>One round of the force loop (lines 200 to 215): the forces after sample \<open>i\<close>.\<close>

definition force_sample :: "vdmap \<Rightarrow> segment \<Rightarrow> nat \<Rightarrow> vec \<times> vec \<Rightarrow> vec \<times> vec" where
  "force_sample vd sg i ff =
     (let f1 = fst ff; f2 = snd ff;
          t = sample_t i;
          point = roundVec (getPointAlongCurve sg t);
          dist = getDistanceFromPolyline vd point;
          d = magnitudeVec dist;
          dx = vx dist; dy = vy dist;
          modifier = (if SHOULD_USE_MY_FORCE_VECTORS \<and>
                         (js_lt t (Num (1 / 10)) \<or> js_gt t (Num (9 / 10)))
                      then Num 10 else Num 1);
          w1 = js_mul t (js_pow (js_sub (Num 1) t) 2);
          w2 = js_mul (js_pow t 2) (js_sub (Num 1) t)
      in (Vec (js_add (vx f1) (js_mul (js_mul (js_mul w1 d) dx) modifier))
              (js_add (vy f1) (js_mul (js_mul (js_mul w1 d) dy) modifier)),
          Vec (js_add (vx f2) (js_mul (js_mul (js_mul w2 d) dx) modifier))
              (js_add (vy f2) (js_mul (js_mul (js_mul w2 d) dy) modifier))))"

text \<open>One round of the error loop (lines 246 to 251).\<close>

definition error_sample :: "vdmap \<Rightarrow> segment \<Rightarrow> nat \<Rightarrow> jsnum \<Rightarrow> jsnum" where
  "error_sample vd sg i err =
     (let t = sample_t i;
          point = getPointAlongCurve sg t;
          dist = getDistanceFromPolyline vd (roundVec point)
      in js_add err (js_add (js_pow (vx dist) 2) (js_pow (vy dist) 2)))"

text \<open>
  The body of the \<open>while (true)\<close> loop (lines 192 to 256): the segment, the error
  and the step count after one more round.
\<close>

definition refine_step :: "vdmap \<Rightarrow> segment \<Rightarrow> nat \<Rightarrow> segment \<times> jsnum \<times> nat" where
  "refine_step vd sg n =
     (let ff = fold (force_sample vd sg) [0..<NUM_SAMPLE_POINTS]
                 (Vec (Num 0) (Num 0), Vec (Num 0) (Num 0));
          f1 = fst ff; f2 = snd ff;
          from_end = subVec (getSegmentMidpoint sg) (c2 sg);
          from_beginning = subVec (getSegmentMidpoint sg) (c1 sg);
          f1 = (if SHOULD_USE_MY_FORCE_VECTORS
                then subVec f1 (multVec from_beginning (Num (3 / 100))) else f1);
          f2 = (if SHOULD_USE_MY_FORCE_VECTORS
                then subVec f2 (multVec from_end (Num (3 / 100))) else f2);
          f1 = (case constrain_to sg of
                  None \<Rightarrow> f1
                | Some ct \<Rightarrow> multVec ct (dotProduct ct f1));
          alpha = Num 1;
          push = (\<lambda>c f. js_sub c
                    (js_div (js_mul (js_mul alpha f) (Num 6)) (Num (real NUM_SAMPLE_POINTS))));
          sg1 = sg\<lparr>c1 := Vec (push (vx (c1 sg)) (vx f1)) (push (vy (c1 sg)) (vy f1)),
                   c2 := Vec (push (vx (c2 sg)) (vx f2)) (push (vy (c2 sg)) (vy f2))\<rparr>;
          err = fold (error_sample vd sg1) [0..<NUM_SAMPLE_POINTS] (Num 0);
          err = js_div err (Num (real NUM_SAMPLE_POINTS));
          n1 = n + 1
      in (sg1\<lparr>error := Some err, steps := Some n1\<rparr>, err, n1))"

text \<open>
  The loop itself: after each round it stops if the error is below \<open>MAX_ERROR\<close> or the
  step count is above \<open>MAX_ITERATIONS\<close>. It returns the segment and the step count.
\<close>

function refine :: "vdmap \<Rightarrow> segment \<Rightarrow> nat \<Rightarrow> segment \<times> nat" where
  "refine vd sg n =
     (let r = refine_step vd sg n;
          sg' = fst r; err = fst (snd r); n' = snd (snd r)
      in if js_lt err MAX_ERROR \<or> n' > MAX_ITERATIONS then (sg', n')
         else refine vd sg' n')"
  by pat_completeness auto

termination
  by (relation "measure (\<lambda>(vd, sg, n). Suc MAX_ITERATIONS - n)")
     (auto simp: refine_step_def Let_def)

declare refine.simps [simp del]

section \<open>The refinement step\<close>

text \<open>Lines 113 to 117: the end anchor moves to the new point, and \<open>c2\<close> with it.\<close>

definition extendSegment :: "segment \<Rightarrow> vec \<Rightarrow> segment" where
  "extendSegment sg current_point =
     (let x = vx current_point; y = vy current_point;
          last_point = getLastPoint sg;
          sg1 = sg\<lparr>c3 := Vec x y\<rparr>
      in sg1\<lparr>c2 := Vec (js_sub (js_add (vx (c2 sg1)) x) (vx last_point))
                         (js_sub (js_add (vy (c2 sg1)) y) (vy last_point))\<rparr>)"

text \<open>Lines 119 to 186: the strip, then the end cap.\<close>

definition paintField :: "vdmap \<Rightarrow> vec \<Rightarrow> vec \<Rightarrow> failure + vdmap" where
  "paintField vd last_point current_point =
     (case paintStrip vd last_point current_point of
        Inl e \<Rightarrow> Inl e
      | Inr vd1 \<Rightarrow> paintEndCap vd1 current_point)"

definition updateDistanceField :: "curve \<Rightarrow> vec \<Rightarrow> failure + (curve \<times> segment)" where
  "updateDistanceField cv current_point =
     (case getLastSegment cv of
        None \<Rightarrow> Inl TypeError
      | Some sg \<Rightarrow>
          let last_point = getLastPoint sg;
              og_controls = copySegment sg
          in if checkCorner sg current_point
             then (let sg' = sg\<lparr>update_status := Some FAIL_CORNER\<rparr>
                   in Inr (putLastSegment cv sg', sg'))
             else
               case paintField (vdmap cv) last_point current_point of
                 Inl e \<Rightarrow> Inl e
               | Inr vd \<Rightarrow>
                   let r = refine vd (extendSegment sg current_point) 0;
                       sg3 = fst r; n = snd r;
                       sg4 = (if n > MAX_ITERATIONS
                              then sg3\<lparr>c0 := c0 og_controls,
                                       c1 := c1 og_controls,
                                       c2 := c2 og_controls,
                                       c3 := c3 og_controls,
                                       error := error og_controls,
                                       constrain_to := constrain_to og_controls,
                                       update_status := Some FAIL_MAXED\<rparr>
                              else sg3\<lparr>update_status := Some SUCCESS\<rparr>)
                   in Inr (putLastSegment (cv\<lparr>vdmap := vd\<rparr>) sg4, sg4))"

section \<open>Curve orchestrator\<close>

definition addToCurveImpl :: "curve \<Rightarrow> vec \<Rightarrow> failure + (curve \<times> segment)" where
  "addToCurveImpl cv new_point =
     (case getLastSegment cv of
        None \<Rightarrow> Inl TypeError
      | Some last_segment \<Rightarrow>
          let last_point = getLastPoint last_segment
          in if js_lt (getMagnitude new_point (getLastPoint last_segment)) RADIAL_SIMPLIFICATION
             then Inr (cv, last_segment)
             else
               (case update_status last_segment of
                  None \<Rightarrow> updateDistanceField cv new_point
                | Some SUCCESS \<Rightarrow> updateDistanceField cv new_point
                | Some FAIL_CORNER \<Rightarrow>
                    (let new_segment = initCurveSegment (vx last_point) (vy last_point)
                     in updateDistanceField
                          (cv\<lparr>vdmap := (\<lambda>_. None), segments := segments cv @ [new_segment]\<rparr>)
                          new_point)
                | Some FAIL_MAXED \<Rightarrow>
                    (let new_segment = initCurveSegment (vx last_point) (vy last_point);
                         new_segment = new_segment
                           \<lparr>constrain_to :=
                              Some (getUnitVector (getCurveEndTangent last_segment))\<rparr>
                     in updateDistanceField
                          (cv\<lparr>vdmap := (\<lambda>_. None), segments := segments cv @ [new_segment]\<rparr>)
                          new_point)))"

text \<open>
  The module keeps the curve in a variable of its own; here it is passed in and handed
  back. The segment returned is the curve's last segment object.
\<close>

definition addToCurve :: "curve \<Rightarrow> vec \<Rightarrow> failure + (curve \<times> segment)" where
  "addToCurve cv coord =
     (let rounded_coord = roundVec coord
      in case addToCurveImpl cv rounded_coord of
           Inl e \<Rightarrow> Inl e
         | Inr (cv1, sg) \<Rightarrow>
             if update_status sg = Some SUCCESS then Inr (cv1, sg)
             else addToCurveImpl cv1 rounded_coord)"

section \<open>Parts of the code named for the statements\<close>

text \<open>The segment pushed by lines 83 to 91 of \<open>addToCurveImpl\<close>.\<close>

definition newSegment :: "segment \<Rightarrow> segment" where
  "newSegment sg =
     (initCurveSegment (vx (c3 sg)) (vy (c3 sg)))
       \<lparr>constrain_to := (if update_status sg = Some FAIL_MAXED
                          then Some (getUnitVector (getCurveEndTangent sg)) else None)\<rparr>"

text \<open>
  Lines 79 to 96 of \<open>addToCurveImpl\<close>: the curve the refinement step runs on, given the
  last segment. After a failure a new segment is pushed and the distance map is reset.
\<close>

definition prepared :: "curve \<Rightarrow> segment \<Rightarrow> curve" where
  "prepared cv sg =
     (case update_status sg of
        Some FAIL_CORNER \<Rightarrow>
          cv\<lparr>vdmap := (\<lambda>_. None),
             segments := segments cv @ [initCurveSegment (vx (c3 sg)) (vy (c3 sg))]\<rparr>
      | Some FAIL_MAXED \<Rightarrow>
          cv\<lparr>vdmap := (\<lambda>_. None),
             segments := segments cv @
               [(initCurveSegment (vx (c3 sg)) (vy (c3 sg)))
                  \<lparr>constrain_to := Some (getUnitVector (getCurveEndTangent sg))\<rparr>]\<rparr>
      | _ \<Rightarrow> cv)"

text \<open>The segment after \<open>k\<close> rounds of the loop entered with step count \<open>n\<close>.\<close>

primrec rounds :: "vdmap \<Rightarrow> segment \<Rightarrow> nat \<Rightarrow> nat \<Rightarrow> segment" where
  "rounds vd sg n 0 = sg"
| "rounds vd sg n (Suc k) = rounds vd (fst (refine_step vd sg n)) (Suc n) k"

text \<open>
  A run: the points of a line fed to \<open>addToCurve\<close> one after the other, as the test does
  after \<open>startCurve\<close> (\<open>rest.reduce((memo, point) => addToCurve(point))\<close>).
\<close>

fun addAll :: "curve \<Rightarrow> vec list \<Rightarrow> failure + curve" where
  "addAll cv [] = Inr cv"
| "addAll cv (p # ps) =
     (case addToCurve cv p of Inl e \<Rightarrow> Inl e | Inr (cv', sg) \<Rightarrow> addAll cv' ps)"

text \<open>The read \<open>curve.vdmap[x][y]\<close> of one cell (\<open>undefined\<close> if the column is missing).\<close>

definition lookupCell :: "vdmap \<Rightarrow> jsnum \<Rightarrow> jsnum \<Rightarrow> vec option" where
  "lookupCell vd x y = (case vd x of None \<Rightarrow> None | Some col \<Rightarrow> col y)"


text \<open>
  The last segment after \<open>k\<close> rounds of the loop in \<open>addToCurveImpl cv new_point\<close>: the
  duplicate test, the segment pushed after a failure, the corner test, the painting, and then
  \<open>k\<close> rounds on the extended segment. \<open>None\<close> when the call does not get to the loop. (The
  loop itself stops at some \<open>k\<close>; up to there these are the segments it goes through.)
\<close>

definition fitRounds :: "curve \<Rightarrow> vec \<Rightarrow> nat \<Rightarrow> segment option" where
  "fitRounds cv new_point k =
     (case getLastSegment cv of
        None \<Rightarrow> None
      | Some last_segment \<Rightarrow>
          if js_lt (getMagnitude new_point (getLastPoint last_segment)) RADIAL_SIMPLIFICATION
          then None
          else
            (case getLastSegment (prepared cv last_segment) of
               None \<Rightarrow> None
             | Some sg \<Rightarrow>
                 if checkCorner sg new_point then None
                 else
                   (case paintField (vdmap (prepared cv last_segment)) (getLastPoint sg) new_point of
                      Inl e \<Rightarrow> None
                    | Inr vd \<Rightarrow> Some (rounds vd (extendSegment sg new_point) 0 k))))"

text \<open>
  The curves on which \<open>addToCurve cv coord\<close> calls \<open>addToCurveImpl\<close>: the curve itself and,
  when the first call does not return \<open>SUCCESS\<close>, the curve that call leaves.
\<close>

definition attempts :: "curve \<Rightarrow> vec \<Rightarrow> curve list" where
  "attempts cv coord =
     (case addToCurveImpl cv (roundVec coord) of
        Inl e \<Rightarrow> [cv]
      | Inr (cv1, sg) \<Rightarrow> if update_status sg = Some SUCCESS then [cv] else [cv, cv1])"

section \<open>The corner test in the words of the specification\<close>



section \<open>Predicates of the statements\<close>

text \<open>A point with two finite coordinates.\<close>

definition finVec :: "vec \<Rightarrow> bool" where
  "finVec v = (case v of Vec (Num a) (Num b) \<Rightarrow> True | _ \<Rightarrow> False)"

text \<open>A segment whose four control points are finite.\<close>

definition finSeg :: "segment \<Rightarrow> bool" where
  "finSeg sg = (finVec (c0 sg) \<and> finVec (c1 sg) \<and> finVec (c2 sg) \<and> finVec (c3 sg))"

text \<open>A distance map that holds finite offsets only and has no column for NaN.\<close>

definition finField :: "vdmap \<Rightarrow> bool" where
  "finField vd = (vd NaN = None \<and> (\<forall>x col y v. vd x = Some col \<longrightarrow> col y = Some v \<longrightarrow> finVec v))"

text \<open>The constraint of a segment: absent, finite, or the NaN vector.\<close>

definition constraintOk :: "segment \<Rightarrow> bool" where
  "constraintOk sg =
     (case constrain_to sg of None \<Rightarrow> True | Some ct \<Rightarrow> finVec ct \<or> ct = Vec NaN NaN)"

text \<open>A curve whose last segment and distance map hold no infinity and no stray NaN.\<close>

definition finState :: "curve \<Rightarrow> bool" where
  "finState cv =
     (case getLastSegment cv of
        None \<Rightarrow> False
      | Some sg \<Rightarrow> finSeg sg \<and> constraintOk sg \<and> finField (vdmap cv))"

text \<open>A number that is not below \<open>c\<close>: at least \<open>c\<close>, positive infinity, or NaN.\<close>

definition atleast :: "real \<Rightarrow> jsnum \<Rightarrow> bool" where
  "atleast c a = (case a of Num r \<Rightarrow> c \<le> r | NInf \<Rightarrow> False | _ \<Rightarrow> True)"

text \<open>The last segment, if its status is \<open>SUCCESS\<close>, has an error below \<open>MAX_ERROR\<close>.\<close>

definition error_in_bound :: "curve \<Rightarrow> bool" where
  "error_in_bound cv =
     (case getLastSegment cv of
        None \<Rightarrow> False
      | Some sg \<Rightarrow>
          update_status sg = Some SUCCESS \<longrightarrow>
            (case error sg of None \<Rightarrow> False | Some e \<Rightarrow> js_lt e MAX_ERROR))"

text \<open>
  \<open>c1 - c0\<close> is a scalar multiple of a finite \<open>constrain_to\<close> (nothing is asked of a
  segment without constraint).
\<close>

definition colinear :: "segment \<Rightarrow> bool" where
  "colinear sg =
     (case constrain_to sg of
        None \<Rightarrow> True
      | Some ct \<Rightarrow> finVec ct \<and> (\<exists>k. subVec (c1 sg) (c0 sg) = multVec ct (Num k)))"

text \<open>
  Each segment that follows a \<open>FAIL_MAXED\<close> segment in the list carries, as \<open>constrain_to\<close>,
  \<open>getUnitVector\<close> of that segment's end tangent.
\<close>

definition linked :: "segment list \<Rightarrow> bool" where
  "linked sgs =
     (\<forall>i. Suc i < length sgs \<longrightarrow> update_status (sgs ! i) = Some FAIL_MAXED \<longrightarrow>
          constrain_to (sgs ! Suc i) = Some (getUnitVector (getCurveEndTangent (sgs ! i))))"

text \<open>No segment that gave up has a zero end tangent (\<open>c2 = c3\<close>).\<close>

definition tangents_nonzero :: "curve \<Rightarrow> bool" where
  "tangents_nonzero cv =
     (\<forall>s\<in>set (segments cv). update_status s = Some FAIL_MAXED \<longrightarrow> c2 s \<noteq> c3 s)"

text \<open>
  A curve as a run on finite points leaves it: finite last segment and distance map, constraints
  linked to the end tangents, and every segment with \<open>c1 - c0\<close> on its constraint.
\<close>

definition settled :: "curve \<Rightarrow> bool" where
  "settled cv =
     (finState cv \<and> linked (segments cv) \<and> (\<forall>s\<in>set (segments cv). colinear s))"

section \<open>Concrete curves and points\<close>

text \<open>
  A curve for concrete runs: one fitted segment from \<open>(0, 0)\<close> to \<open>(100, 0)\<close>, an
  empty distance map, and the next point \<open>(101, 0)\<close>.
\<close>

definition long_segment :: segment where
  "long_segment = \<lparr>c0 = Vec (Num 0) (Num 0), c1 = Vec (Num 0) (Num 0),
          c2 = Vec (Num 100) (Num 0), c3 = Vec (Num 100) (Num 0),
          constrain_to = None, error = Some (Num 0),
          update_status = Some SUCCESS, steps = Some 1\<rparr>"

definition long_curve :: curve where
  "long_curve = \<lparr>segments = [long_segment], vdmap = (\<lambda>_. None)\<rparr>"

definition next_point :: vec where
  "next_point = Vec (Num 101) (Num 0)"

text \<open>The same curve after its segment has reported a corner.\<close>

definition turned_segment :: segment where
  "turned_segment = long_segment\<lparr>update_status := Some FAIL_CORNER\<rparr>"

definition turned_curve :: curve where
  "turned_curve = \<lparr>segments = [turned_segment], vdmap = (\<lambda>_. None)\<rparr>"

text \<open>A point back along the segment of \<open>long_curve\<close>: a corner.\<close>

definition back_point :: vec where
  "back_point = Vec (Num 50) (Num 0)"

text \<open>A distance map with one cell: \<open>(3, 4)\<close> holds the offset \<open>(5, 0)\<close>.\<close>

definition tie_map :: vdmap where
  "tie_map = (\<lambda>_. None)(Num 3 \<mapsto> (\<lambda>_. None)(Num 4 \<mapsto> Vec (Num 5) (Num 0)))"

text \<open>
  A first run: the curve started at \<open>(0, 0)\<close>, the point \<open>(1, 0)\<close>, the strip and the
  distance map painted for it, the segment extended to it, and the segment after one round
  of the loop.
\<close>

definition unit_point :: vec where
  "unit_point = Vec (Num 1) (Num 0)"

definition unit_strip :: vdmap where
  "unit_strip = strip_column (Vec (Num 0) (Num 1)) 18 (\<lambda>_. None) (Vec (Num 0) (Num (- 9)))
                  (Vec (Num 0) (Num (- 9)))"

definition unit_field :: vdmap where
  "unit_field = cap_rows unit_point (Num (- 9)) 18 18 unit_strip (Num (- 8))"

definition unit_segment :: segment where
  "unit_segment = \<lparr>c0 = Vec (Num 0) (Num 0), c1 = Vec (Num 0) (Num 0),
                   c2 = Vec (Num 1) (Num 0), c3 = Vec (Num 1) (Num 0),
                   constrain_to = None, error = None, update_status = None, steps = None\<rparr>"

definition fitted_segment :: segment where
  "fitted_segment = \<lparr>c0 = Vec (Num 0) (Num 0), c1 = Vec (Num (1 / 100)) (Num 0),
                     c2 = Vec (Num (99 / 100)) (Num 0), c3 = Vec (Num 1) (Num 0),
                     constrain_to = None, error = Some (Num 0), update_status = None,
                     steps = Some 1\<rparr>"

definition first_curve :: curve where
  "first_curve = startCurve (Vec (Num 0) (Num 0))"

text \<open>The curve after the first run.\<close>

definition fitted_curve :: curve where
  "fitted_curve =
     \<lparr>segments = [fitted_segment\<lparr>update_status := Some SUCCESS\<rparr>], vdmap = unit_field\<rparr>"

text \<open>
  A curve whose only segment is still the point \<open>(0, 0)\<close> and carries \<open>FAIL_MAXED\<close>: its
  end tangent \<open>3 (c2 - c3)\<close> is the zero vector.
\<close>

definition stalled_segment :: segment where
  "stalled_segment = (initCurveSegment (Num 0) (Num 0))\<lparr>update_status := Some FAIL_MAXED\<rparr>"

definition stalled_curve :: curve where
  "stalled_curve = \<lparr>segments = [stalled_segment], vdmap = (\<lambda>_. None)\<rparr>"

text \<open>
  A curve whose one segment gave up with a non-zero end tangent and ends at \<open>(0, 0)\<close>, and the
  curve after the call for the point \<open>(1, 0)\<close>: the segment pushed is constrained to
  \<open>(- 1, 0)\<close> and fitted in one round.
\<close>

definition spent_segment :: segment where
  "spent_segment = \<lparr>c0 = Vec (Num (- 100)) (Num 0), c1 = Vec (Num (- 100)) (Num 0),
                    c2 = Vec (Num (- 10)) (Num 0), c3 = Vec (Num 0) (Num 0),
                    constrain_to = None, error = Some (Num 0),
                    update_status = Some FAIL_MAXED, steps = Some 51\<rparr>"

definition spent_curve :: curve where
  "spent_curve = \<lparr>segments = [spent_segment], vdmap = (\<lambda>_. None)\<rparr>"

definition pulled_segment :: segment where
  "pulled_segment = fitted_segment\<lparr>constrain_to := Some (Vec (Num (- 1)) (Num 0)),
                                   update_status := Some SUCCESS\<rparr>"

definition pulled_curve :: curve where
  "pulled_curve = \<lparr>segments = [spent_segment, pulled_segment], vdmap = unit_field\<rparr>"



section \<open>Facts about the refinement loop and the refinement step\<close>

lemma refine_step_snd: "snd (snd (refine_step vd sg n)) = Suc n"
  by (simp add: refine_step_def Let_def)

lemma refine_step_error: "error (fst (refine_step vd sg n)) = Some (fst (snd (refine_step vd sg n)))"
  by (simp add: refine_step_def Let_def)

lemma refine_step_frame:
  "c0 (fst (refine_step vd sg n)) = c0 sg"
  "c3 (fst (refine_step vd sg n)) = c3 sg"
  "constrain_to (fst (refine_step vd sg n)) = constrain_to sg"
  "update_status (fst (refine_step vd sg n)) = update_status sg"
  by (simp_all add: refine_step_def Let_def)

lemma refine_count_le: "n \<le> MAX_ITERATIONS \<Longrightarrow> snd (refine vd sg n) \<le> Suc MAX_ITERATIONS"
proof (induction vd sg n rule: refine.induct)
  case (1 vd sg n)
  show ?case
  proof (cases "js_lt (fst (snd (refine_step vd sg n))) MAX_ERROR \<or> snd (snd (refine_step vd sg n)) > MAX_ITERATIONS")
    case True
    then show ?thesis using "1.prems"
      by (subst refine.simps) (auto simp: Let_def refine_step_snd)
  next
    case False
    then have "snd (refine vd (fst (refine_step vd sg n)) (snd (snd (refine_step vd sg n)))) \<le> Suc MAX_ITERATIONS"
      using "1.IH"[OF refl refl refl refl] by (auto simp: refine_step_snd)
    then show ?thesis using False
      by (subst refine.simps) (auto simp: Let_def)
  qed
qed

lemma refine_count_gt: "n < snd (refine vd sg n)"
proof (induction vd sg n rule: refine.induct)
  case (1 vd sg n)
  show ?case
  proof (cases "js_lt (fst (snd (refine_step vd sg n))) MAX_ERROR \<or> snd (snd (refine_step vd sg n)) > MAX_ITERATIONS")
    case True
    then show ?thesis
      by (subst refine.simps) (auto simp: Let_def refine_step_snd)
  next
    case False
    then have "snd (snd (refine_step vd sg n)) < snd (refine vd (fst (refine_step vd sg n)) (snd (snd (refine_step vd sg n))))"
      using "1.IH"[OF refl refl refl refl] by (auto simp: refine_step_snd)
    then show ?thesis using False
      by (subst refine.simps) (auto simp: Let_def refine_step_snd)
  qed
qed

lemma refine_converged:
  "snd (refine vd sg n) \<le> MAX_ITERATIONS \<Longrightarrow>
   \<exists>e. error (fst (refine vd sg n)) = Some e \<and> js_lt e MAX_ERROR"
proof (induction vd sg n rule: refine.induct)
  case (1 vd sg n)
  show ?case
  proof (cases "js_lt (fst (snd (refine_step vd sg n))) MAX_ERROR \<or> snd (snd (refine_step vd sg n)) > MAX_ITERATIONS")
    case True
    then show ?thesis using "1.prems"
      by (subst refine.simps, subst (asm) refine.simps) (auto simp: Let_def refine_step_error)
  next
    case False
    then show ?thesis using "1.IH"[OF refl refl refl refl] "1.prems"
      by (subst refine.simps, subst (asm) refine.simps) (auto simp: Let_def)
  qed
qed

lemma refine_frame:
  "c0 (fst (refine vd sg n)) = c0 sg \<and> c3 (fst (refine vd sg n)) = c3 sg \<and>
   constrain_to (fst (refine vd sg n)) = constrain_to sg \<and>
   update_status (fst (refine vd sg n)) = update_status sg"
proof (induction vd sg n rule: refine.induct)
  case (1 vd sg n)
  show ?case
  proof (cases "js_lt (fst (snd (refine_step vd sg n))) MAX_ERROR \<or> snd (snd (refine_step vd sg n)) > MAX_ITERATIONS")
    case True
    then show ?thesis
      by (subst (1 2 3 4) refine.simps) (auto simp: Let_def refine_step_frame)
  next
    case False
    then show ?thesis using "1.IH"[OF refl refl refl refl]
      by (subst (1 2 3 4) refine.simps) (auto simp: Let_def refine_step_frame)
  qed
qed

lemma copySegment_fields [simp]:
  "c0 (copySegment sg) = c0 sg" "c1 (copySegment sg) = c1 sg"
  "c2 (copySegment sg) = c2 sg" "c3 (copySegment sg) = c3 sg"
  "constrain_to (copySegment sg) = constrain_to sg"
  "update_status (copySegment sg) = update_status sg"
  by (simp_all add: copySegment_def split: option.splits)

lemma getLastSegment_putLastSegment [simp]:
  "getLastSegment (putLastSegment cv sg) = Some sg"
  by (simp add: getLastSegment_def putLastSegment_def)

lemma getLastSegment_push [simp]:
  "getLastSegment (cv\<lparr>vdmap := vd, segments := segments cv @ [sg]\<rparr>) = Some sg"
  by (simp add: getLastSegment_def)

lemma getLastSegment_vdmap [simp]:
  "getLastSegment (cv\<lparr>vdmap := vd\<rparr>) = getLastSegment cv"
  by (simp add: getLastSegment_def)

lemma putLastSegment_fields [simp]:
  "segments (putLastSegment cv sg) = butlast (segments cv) @ [sg]"
  "vdmap (putLastSegment cv sg) = vdmap cv"
  by (simp_all add: putLastSegment_def)

lemma extendSegment_fields [simp]:
  "c0 (extendSegment sg p) = c0 sg" "c1 (extendSegment sg p) = c1 sg"
  "c3 (extendSegment sg p) = p"
  "constrain_to (extendSegment sg p) = constrain_to sg"
  "update_status (extendSegment sg p) = update_status sg"
  by (simp_all add: extendSegment_def Let_def)

text \<open>What a returning refinement step leaves behind.\<close>

lemma updateDistanceField_result:
  assumes "getLastSegment cv = Some sg" and "updateDistanceField cv p = Inr (cv', sg')"
  shows "getLastSegment cv' = Some sg'"
    and "segments cv' = butlast (segments cv) @ [sg']"
    and "c0 sg' = c0 sg"
    and "update_status sg' \<noteq> None"
    and "update_status sg' \<noteq> Some SUCCESS \<Longrightarrow>
           c1 sg' = c1 sg \<and> c2 sg' = c2 sg \<and> c3 sg' = c3 sg \<and> constrain_to sg' = constrain_to sg"
    and "update_status sg' = Some FAIL_CORNER \<longleftrightarrow> checkCorner sg p"
    and "update_status sg' = Some FAIL_CORNER \<Longrightarrow> sg' = sg\<lparr>update_status := Some FAIL_CORNER\<rparr> \<and> vdmap cv' = vdmap cv"
  using assms
  by (auto simp: updateDistanceField_def Let_def refine_frame
           split: if_splits sum.splits)

section \<open>Facts about the orchestrator\<close>

text \<open>The first lines of addToCurveImpl: the duplicate test.\<close>

lemma addToCurveImpl_duplicate:
  assumes "getLastSegment cv = Some sg"
    and "js_lt (getMagnitude q (c3 sg)) RADIAL_SIMPLIFICATION"
  shows "addToCurveImpl cv q = Inr (cv, sg)"
  using assms by (simp add: addToCurveImpl_def getLastPoint_def)

lemma addToCurveImpl_fit:
  assumes "getLastSegment cv = Some sg"
    and "\<not> js_lt (getMagnitude q (c3 sg)) RADIAL_SIMPLIFICATION"
  shows "addToCurveImpl cv q = updateDistanceField (prepared cv sg) q"
  using assms
  by (simp add: addToCurveImpl_def getLastPoint_def prepared_def Let_def
           split: option.splits UpdateStatus.splits)

lemma prepared_last:
  assumes "getLastSegment cv = Some sg"
  shows "\<exists>sg'. getLastSegment (prepared cv sg) = Some sg' \<and> c3 sg' = c3 sg"
  using assms
  by (auto simp: prepared_def initCurveSegment_def split: option.splits UpdateStatus.splits)

lemma js_NaN_right [simp]:
  "js_add a NaN = NaN" "js_mul a NaN = NaN" "js_div a NaN = NaN" "js_lt a NaN = False"
  "js_max a NaN = NaN"
  by (cases a; simp)+

lemma js_sub_NaN [simp]: "js_sub NaN b = NaN" "js_sub a NaN = NaN"
  by (simp_all add: js_sub_def)

lemma getMagnitude_NaN:
  "vx v = NaN \<or> vy v = NaN \<Longrightarrow> getMagnitude v w = NaN"
  by (auto simp: getMagnitude_def numeral_2_eq_2)

lemma getUnitVector_NaN:
  "vx v = NaN \<or> vy v = NaN \<Longrightarrow> getUnitVector v = Vec NaN NaN"
  by (simp add: getUnitVector_def getMagnitude_NaN Let_def)

lemma dotProduct_NaN [simp]: "dotProduct a (Vec NaN NaN) = NaN" "dotProduct (Vec NaN NaN) a = NaN"
  by (simp_all add: dotProduct_def)

lemma checkCorner_fresh:
  assumes "c0 sg = c3 sg"
  shows "\<not> checkCorner sg p"
proof (cases "equalVec (c0 sg) (c3 sg)")
  case True
  then show ?thesis by (simp add: checkCorner_def)
next
  case False
  with assms have "vx (c3 sg) = NaN \<or> vy (c3 sg) = NaN"
    by (auto simp: equalVec_def js_eq_def)
  then have "getUnitVector (Vec (js_sub (vx p) (vx (c3 sg))) (js_sub (vy p) (vy (c3 sg)))) = Vec NaN NaN"
    by (intro getUnitVector_NaN) auto
  then show ?thesis
    by (simp add: checkCorner_def Let_def radiansToDegrees_def)
qed

lemma prepared_failed:
  "update_status sg = Some FAIL_CORNER \<or> update_status sg = Some FAIL_MAXED \<Longrightarrow>
   prepared cv sg = cv\<lparr>vdmap := (\<lambda>_. None), segments := segments cv @ [newSegment sg]\<rparr>"
  by (auto simp: prepared_def newSegment_def initCurveSegment_def)

lemma prepared_kept:
  "update_status sg = None \<or> update_status sg = Some SUCCESS \<Longrightarrow> prepared cv sg = cv"
  by (auto simp: prepared_def)

lemma newSegment_fields [simp]:
  "c0 (newSegment sg) = c3 sg" "c1 (newSegment sg) = c3 sg"
  "c2 (newSegment sg) = c3 sg" "c3 (newSegment sg) = c3 sg"
  "update_status (newSegment sg) = None" "error (newSegment sg) = None"
  by (simp_all add: newSegment_def initCurveSegment_def)

lemma status_cases:
  "update_status sg = None \<or> update_status sg = Some SUCCESS \<or>
   update_status sg = Some FAIL_CORNER \<or> update_status sg = Some FAIL_MAXED"
  by (cases "update_status sg"; simp) (metis UpdateStatus.exhaust)

section \<open>The paint loops return on finite points\<close>

lemma finVec_iff: "finVec v \<longleftrightarrow> (\<exists>a b. v = Vec (Num a) (Num b))"
  by (auto simp: finVec_def split: vec.splits jsnum.splits)

lemma getUnitVector_Num:
  "getUnitVector (Vec (Num a) (Num b)) =
     (if a = 0 \<and> b = 0 then Vec NaN NaN
      else Vec (Num (a / sqrt (a * a + b * b))) (Num (b / sqrt (a * a + b * b))))"
proof -
  have "\<not> a * a + b * b < 0" by (simp add: not_less)
  moreover have "a * a + b * b = 0 \<longleftrightarrow> a = 0 \<and> b = 0"
    by (simp add: add_nonneg_eq_0_iff)
  ultimately show ?thesis
    by (simp add: getUnitVector_def getMagnitude_def js_sub_def numeral_2_eq_2 Let_def)
qed

lemma loop_count_None: "loop_count s = None \<longleftrightarrow> s = PInf"
  by (cases s; simp add: loop_count_def range_count_def)

lemma loop_nest_Inr:
  "outer \<noteq> None \<Longrightarrow> inner \<noteq> None \<Longrightarrow> \<exists>r. loop_nest outer inner run skip = Inr r"
  by (auto simp: loop_nest_def split: option.splits nat.splits)

lemma paintStrip_returns:
  assumes "finVec l" "finVec p"
  shows "\<exists>vd'. paintStrip vd l p = Inr vd'"
proof -
  obtain a b c d where l: "l = Vec (Num a) (Num b)" and p: "p = Vec (Num c) (Num d)"
    using assms by (auto simp: finVec_iff)
  show ?thesis
    unfolding paintStrip_def Let_def
    apply (rule loop_nest_Inr)
    apply (simp_all add: loop_count_None l p getPerpindicularUnitVector_def js_sub_def
        getUnitVector_Num getScaledVectorDifference_def FIELD_RADIUS_def addVec_def
        negateVec_def multVec_def subVec_def getDDASteps_def Let_def)
    done
qed

lemma paintEndCap_returns:
  assumes "finVec p"
  shows "\<exists>vd'. paintEndCap vd p = Inr vd'"
proof -
  obtain c d where p: "p = Vec (Num c) (Num d)"
    using assms by (auto simp: finVec_iff)
  show ?thesis
    unfolding paintEndCap_def Let_def
    apply (rule loop_nest_Inr)
    apply (simp_all add: p range_count_def FIELD_RADIUS_def addVec_def negateVec_def subVec_def)
    done
qed

lemma paintField_returns:
  assumes "finVec l" "finVec p"
  shows "\<exists>vd'. paintField vd l p = Inr vd'"
  using paintStrip_returns[OF assms, of vd] paintEndCap_returns[OF assms(2)]
  by (auto simp: paintField_def)

section \<open>The loop on a curve whose start is not in the distance map\<close>

lemma atleast_add: "atleast c a \<Longrightarrow> atleast 0 b \<Longrightarrow> atleast c (js_add a b)"
  by (cases a; cases b; simp add: atleast_def)

lemma atleast_square: "atleast 0 (js_pow a 2)"
  by (cases a; simp add: atleast_def numeral_2_eq_2 inf_times_def)

lemma atleast_not_lt: "atleast c a \<Longrightarrow> d \<le> c \<Longrightarrow> \<not> js_lt a (Num d)"
  by (cases a; simp add: atleast_def)

lemma atleast_div: "atleast c a \<Longrightarrow> 0 < d \<Longrightarrow> atleast (c / d) (js_div a (Num d))"
  by (cases a; simp add: atleast_def divide_right_mono)

lemma error_sample_atleast: "atleast c a \<Longrightarrow> atleast c (error_sample vd sg i a)"
  by (simp add: error_sample_def Let_def atleast_add atleast_square)

lemma fold_error_sample_atleast:
  "atleast c a \<Longrightarrow> atleast c (fold (error_sample vd sg) xs a)"
  by (induction xs arbitrary: a) (simp_all add: error_sample_atleast)

lemma bezier_at_0:
  "singleComponentBezier (Num 0) (Num a) w1 w2 w3 = Num a \<or>
   singleComponentBezier (Num 0) (Num a) w1 w2 w3 = NaN"
  by (cases w1; cases w2; cases w3;
      simp add: singleComponentBezier_def js_sub_def numeral_3_eq_3 numeral_2_eq_2 inf_times_def)

lemma getDistanceFromPolyline_no_column:
  "vd (vx q) = None \<Longrightarrow> getDistanceFromPolyline vd q = Vec FIELD_RADIUS FIELD_RADIUS"
  by (simp add: getDistanceFromPolyline_def)

lemma error_sample_0_no_data:
  assumes "vx (c0 sg) = Num a" and "vd (js_round (Num a)) = None" and "vd NaN = None"
  shows "atleast 162 (error_sample vd sg 0 (Num 0))"
proof -
  have "sample_t 0 = Num 0" by (simp add: sample_t_def NUM_SAMPLE_POINTS_def)
  moreover have "vx (getPointAlongCurve sg (Num 0)) = Num a \<or> vx (getPointAlongCurve sg (Num 0)) = NaN"
    using bezier_at_0[of a] assms(1) by (simp add: getPointAlongCurve_def)
  then have "vd (vx (roundVec (getPointAlongCurve sg (Num 0)))) = None"
    using assms(2,3) by (auto simp: roundVec_def)
  then have "getDistanceFromPolyline vd (roundVec (getPointAlongCurve sg (Num 0))) = Vec FIELD_RADIUS FIELD_RADIUS"
    by (rule getDistanceFromPolyline_no_column)
  ultimately show ?thesis
    by (simp add: error_sample_def Let_def FIELD_RADIUS_def numeral_2_eq_2 atleast_def)
qed

lemma refine_step_no_data:
  assumes "vx (c0 sg) = Num a" and "vd (js_round (Num a)) = None" and "vd NaN = None"
  shows "\<not> js_lt (fst (snd (refine_step vd sg n))) MAX_ERROR"
proof -
  define sg1 where "sg1 = fst (refine_step vd sg n)\<lparr>error := error sg, steps := steps sg\<rparr>"
  have c0: "vx (c0 sg1) = Num a" using assms(1) by (simp add: sg1_def refine_step_frame)
  have upt: "[0..<NUM_SAMPLE_POINTS] = 0 # [Suc 0..<NUM_SAMPLE_POINTS]"
    by (simp add: NUM_SAMPLE_POINTS_def upt_conv_Cons)
  have err: "fst (snd (refine_step vd sg n)) =
      js_div (fold (error_sample vd sg1) [0..<NUM_SAMPLE_POINTS] (Num 0)) (Num (real NUM_SAMPLE_POINTS))"
    by (simp add: refine_step_def Let_def sg1_def)
  have "atleast 162 (fold (error_sample vd sg1) [Suc 0..<NUM_SAMPLE_POINTS] (error_sample vd sg1 0 (Num 0)))"
    by (intro fold_error_sample_atleast error_sample_0_no_data[OF c0 assms(2,3)])
  then have "atleast 162 (fold (error_sample vd sg1) [0..<NUM_SAMPLE_POINTS] (Num 0))"
    unfolding upt by simp
  then have "atleast (162 / 9) (fst (snd (refine_step vd sg n)))"
    unfolding err NUM_SAMPLE_POINTS_def using atleast_div[of 162 _ 9] by simp
  then show ?thesis
    by (simp add: MAX_ERROR_def atleast_not_lt)
qed

lemma refine_no_data:
  assumes "vx (c0 sg) = Num a" and "vd (js_round (Num a)) = None" and "vd NaN = None"
    and "n \<le> MAX_ITERATIONS"
  shows "snd (refine vd sg n) = Suc MAX_ITERATIONS"
  using assms
proof (induction vd sg n rule: refine.induct)
  case (1 vd sg n)
  have no: "\<not> js_lt (fst (snd (refine_step vd sg n))) MAX_ERROR"
    using "1.prems" by (intro refine_step_no_data) auto
  show ?case
  proof (cases "snd (snd (refine_step vd sg n)) > MAX_ITERATIONS")
    case True
    then show ?thesis using "1.prems"(4) no
      by (subst refine.simps) (auto simp: Let_def refine_step_snd)
  next
    case False
    then have "snd (refine vd (fst (refine_step vd sg n)) (snd (snd (refine_step vd sg n)))) = Suc MAX_ITERATIONS"
      using "1.IH"[OF refl refl refl refl] no "1.prems" by (auto simp: refine_step_frame refine_step_snd)
    then show ?thesis using False no
      by (subst refine.simps) (auto simp: Let_def)
  qed
qed

section \<open>Columns the paint loops leave alone\<close>

lemma storeCell_other_column: "k \<noteq> x \<Longrightarrow> storeCell vd x y c k = vd k"
  by (simp add: storeCell_def Let_def split: option.splits)

lemma cap_column_other: "k \<noteq> x \<Longrightarrow> cap_column p x n vd y k = vd k"
  by (induction n arbitrary: vd y) (simp_all add: storeCell_other_column)

lemma cap_rows_other:
  "(\<forall>i<n. k \<noteq> Num (r + real i)) \<Longrightarrow> cap_rows p y0 m n vd (Num r) k = vd k"
proof (induction n arbitrary: vd r)
  case 0
  then show ?case by simp
next
  case (Suc n)
  have "\<forall>i<n. k \<noteq> Num (r + 1 + real i)"
  proof (intro allI impI)
    fix i assume "i < n"
    then have "k \<noteq> Num (r + real (Suc i))" using Suc.prems by blast
    then show "k \<noteq> Num (r + 1 + real i)" by (simp add: add.commute add.left_commute)
  qed
  moreover have "k \<noteq> Num r" using Suc.prems[rule_format, of 0] by simp
  ultimately show ?case using Suc.IH[of "r + 1"]
    by (simp add: cap_column_other)
qed

lemma strip_column_other:
  assumes "\<And>l. P l \<Longrightarrow> P (addVec l vi)" and "\<And>l. P l \<Longrightarrow> k \<noteq> vx (roundVec l)" and "P cl"
  shows "strip_column vi n vd cv cl k = vd k"
  using assms(3)
  by (induction n arbitrary: vd cv cl) (simp_all add: Let_def storeCell_other_column assms(1,2))

lemma getUnitVector_axis:
  "getUnitVector (Vec (Num a) (Num 0)) =
     (if a = 0 then Vec NaN NaN else Vec (Num (if a < 0 then - 1 else 1)) (Num 0))"
  "getUnitVector (Vec (Num 0) (Num a)) =
     (if a = 0 then Vec NaN NaN else Vec (Num 0) (Num (if a < 0 then - 1 else 1)))"
  by (simp_all add: getUnitVector_Num)

lemma loop_nest_Some:
  "0 < n \<Longrightarrow> loop_nest (Some n) (Some m) run skip = Inr (run n m)"
  by (cases n) (simp_all add: loop_nest_def)

lemma paintStrip_next_point:
  "paintStrip (\<lambda>_. None) (Vec (Num 100) (Num 0)) next_point =
     Inr (strip_column (Vec (Num 0) (Num 1)) 18 (\<lambda>_. None) (Vec (Num 0) (Num (- 9)))
            (Vec (Num 100) (Num (- 9))))"
  by (simp add: paintStrip_def next_point_def getPerpindicularUnitVector_def js_sub_def
      getUnitVector_axis getScaledVectorDifference_def FIELD_RADIUS_def addVec_def
      negateVec_def multVec_def subVec_def divVec_def getDDASteps_def Let_def
      loop_count_def range_count_def loop_nest_Some
      del: strip_column.simps)

lemma paintEndCap_next_point:
  "paintEndCap vd next_point = Inr (cap_rows next_point (Num (- 9)) 18 18 vd (Num 92))"
  by (simp add: paintEndCap_def next_point_def FIELD_RADIUS_def addVec_def negateVec_def subVec_def
      Let_def range_count_def loop_nest_Some del: cap_rows.simps)

lemma paintField_long_curve:
  "\<exists>vd. paintField (vdmap long_curve) (c3 long_segment) next_point = Inr vd \<and> vd (Num 0) = None \<and> vd NaN = None"
proof -
  let ?vd1 = "strip_column (Vec (Num 0) (Num 1)) 18 (\<lambda>_. None) (Vec (Num 0) (Num (- 9)))
            (Vec (Num 100) (Num (- 9)))"
  let ?vd2 = "cap_rows next_point (Num (- 9)) 18 18 ?vd1 (Num 92)"
  have col: "?vd1 k = None" if "k \<noteq> Num 100" for k
  proof -
    have "?vd1 k = (\<lambda>_. None) k"
      by (rule strip_column_other[where P = "\<lambda>l. vx l = Num 100"])
         (use that in \<open>auto simp: addVec_def roundVec_def\<close>)
    then show ?thesis by simp
  qed
  have "?vd2 (Num 0) = ?vd1 (Num 0)" by (rule cap_rows_other) simp
  moreover have "?vd2 NaN = ?vd1 NaN" by (rule cap_rows_other) simp
  moreover have "paintField (vdmap long_curve) (c3 long_segment) next_point = Inr ?vd2"
    by (simp add: paintField_def long_curve_def long_segment_def paintStrip_next_point paintEndCap_next_point)
  ultimately show ?thesis using col by simp
qed

lemma checkCorner_long_segment: "\<not> checkCorner long_segment next_point"
  by (simp add: checkCorner_def long_segment_def next_point_def equalVec_def js_eq_def
      SHOULD_USE_NEW_CORNER_FINDER_def getPointAlongCurve_def singleComponentBezier_def
      js_sub_def numeral_3_eq_3 numeral_2_eq_2 subVec_def addVec_def negateVec_def
      getUnitVector_axis dotProduct_def radiansToDegrees_def MAX_CORNER_ANGLE_def Let_def)

section \<open>The refinement step when the loop runs out\<close>

lemma updateDistanceField_maxed:
  assumes "getLastSegment cv = Some sg" and "\<not> checkCorner sg p"
    and "paintField (vdmap cv) (c3 sg) p = Inr vd"
    and "MAX_ITERATIONS < snd (refine vd (extendSegment sg p) 0)"
  shows "updateDistanceField cv p =
     (let sg' = (fst (refine vd (extendSegment sg p) 0))
                  \<lparr>c0 := c0 sg, c1 := c1 sg, c2 := c2 sg, c3 := c3 sg,
                   error := error (copySegment sg), constrain_to := constrain_to sg,
                   update_status := Some FAIL_MAXED\<rparr>
      in Inr (putLastSegment (cv\<lparr>vdmap := vd\<rparr>) sg', sg'))"
  using assms by (simp add: updateDistanceField_def Let_def getLastPoint_def)

lemma refine_steps_field:
  "steps (fst (refine vd sg n)) = Some (snd (refine vd sg n))"
proof (induction vd sg n rule: refine.induct)
  case (1 vd sg n)
  have st: "steps (fst (refine_step vd sg n)) = Some (snd (snd (refine_step vd sg n)))"
    by (simp add: refine_step_def Let_def)
  show ?case
  proof (cases "js_lt (fst (snd (refine_step vd sg n))) MAX_ERROR \<or> snd (snd (refine_step vd sg n)) > MAX_ITERATIONS")
    case True
    then show ?thesis
      by (subst (1 2) refine.simps) (auto simp: Let_def st)
  next
    case False
    then show ?thesis using "1.IH"[OF refl refl refl refl]
      by (subst (1 2) refine.simps) (auto simp: Let_def)
  qed
qed

lemma long_curve_last: "getLastSegment long_curve = Some long_segment"
  by (simp add: getLastSegment_def long_curve_def)

lemma long_curve_far:
  "\<not> js_lt (getMagnitude (roundVec next_point) (c3 long_segment)) RADIAL_SIMPLIFICATION"
  by (simp add: getMagnitude_def roundVec_def next_point_def long_segment_def js_sub_def
      numeral_2_eq_2 RADIAL_SIMPLIFICATION_def)

lemma round_next_point: "roundVec next_point = next_point"
  by (simp add: roundVec_def next_point_def)

section \<open>Calls return\<close>

lemma updateDistanceField_corner:
  assumes "getLastSegment cv = Some sg" and "checkCorner sg p"
  shows "updateDistanceField cv p =
           Inr (putLastSegment cv (sg\<lparr>update_status := Some FAIL_CORNER\<rparr>),
                sg\<lparr>update_status := Some FAIL_CORNER\<rparr>)"
  using assms by (simp add: updateDistanceField_def Let_def)

lemma updateDistanceField_returns:
  assumes "getLastSegment cv = Some sg" and "finVec (c3 sg)" and "finVec p"
  shows "\<exists>cv' sg'. updateDistanceField cv p = Inr (cv', sg')"
proof -
  obtain vd where "paintField (vdmap cv) (c3 sg) p = Inr vd"
    using paintField_returns[OF assms(2,3)] by blast
  then show ?thesis using assms(1)
    by (simp add: updateDistanceField_def Let_def getLastPoint_def)
qed

lemma finVec_roundVec: "finVec p \<Longrightarrow> finVec (roundVec p)"
  by (auto simp: finVec_iff roundVec_def)

lemma prepared_last_fields:
  assumes "getLastSegment cv = Some sg"
  shows "\<exists>sgA. getLastSegment (prepared cv sg) = Some sgA \<and> c3 sgA = c3 sg \<and>
           (prepared cv sg = cv \<and> sgA = sg \<or> c0 sgA = c3 sgA)"
proof -
  consider "update_status sg = None \<or> update_status sg = Some SUCCESS"
    | "update_status sg = Some FAIL_CORNER \<or> update_status sg = Some FAIL_MAXED"
    using status_cases by blast
  then show ?thesis
  proof cases
    case 1
    then show ?thesis using assms by (simp add: prepared_kept)
  next
    case 2
    then show ?thesis by (simp add: prepared_failed)
  qed
qed

text \<open>Every call on a curve with a finite end point and a finite new point returns.\<close>

lemma addToCurve_returns:
  assumes last: "getLastSegment cv = Some sg" and "finVec (c3 sg)" and "finVec p"
  shows "\<exists>cv' sg'. addToCurve cv p = Inr (cv', sg')"
proof (cases "js_lt (getMagnitude (roundVec p) (c3 sg)) RADIAL_SIMPLIFICATION")
  case True
  then show ?thesis
    using addToCurveImpl_duplicate[OF last True] by (simp add: addToCurve_def Let_def)
next
  case far: False
  have fp: "finVec (roundVec p)" using assms(3) by (rule finVec_roundVec)
  obtain sgA where sgA: "getLastSegment (prepared cv sg) = Some sgA" "c3 sgA = c3 sg"
    using prepared_last[OF last] by blast
  obtain cv1 sg1 where first: "updateDistanceField (prepared cv sg) (roundVec p) = Inr (cv1, sg1)"
    using updateDistanceField_returns[OF sgA(1) _ fp] assms(2) sgA(2) by auto
  note res = updateDistanceField_result[OF sgA(1) first]
  have impl: "addToCurveImpl cv (roundVec p) = Inr (cv1, sg1)"
    using addToCurveImpl_fit[OF last far] first by simp
  show ?thesis
  proof (cases "update_status sg1 = Some SUCCESS")
    case True
    then show ?thesis by (simp add: addToCurve_def impl)
  next
    case False
    then have c3: "c3 sg1 = c3 sg" using res(5) sgA(2) by simp
    obtain sgB where sgB: "getLastSegment (prepared cv1 sg1) = Some sgB" "c3 sgB = c3 sg1"
      using prepared_last[OF res(1)] by blast
    have "addToCurveImpl cv1 (roundVec p) = updateDistanceField (prepared cv1 sg1) (roundVec p)"
      using addToCurveImpl_fit[OF res(1)] far c3 by simp
    moreover have "\<exists>cv' sg'. updateDistanceField (prepared cv1 sg1) (roundVec p) = Inr (cv', sg')"
      using updateDistanceField_returns[OF sgB(1) _ fp] assms(2) sgB(2) c3 by auto
    ultimately show ?thesis using False by (auto simp: addToCurve_def impl)
  qed
qed

lemma addToCurve_second_attempt:
  assumes last: "getLastSegment cv = Some sg"
    and far: "\<not> js_lt (getMagnitude (roundVec p) (c3 sg)) RADIAL_SIMPLIFICATION"
    and first: "updateDistanceField (prepared cv sg) (roundVec p) = Inr (cv1, sg1)"
  shows "addToCurve cv p =
           (if update_status sg1 = Some SUCCESS then Inr (cv1, sg1)
            else updateDistanceField
                   (cv1\<lparr>vdmap := (\<lambda>_. None), segments := segments cv1 @ [newSegment sg1]\<rparr>)
                   (roundVec p))"
proof -
  obtain sgA where sgA: "getLastSegment (prepared cv sg) = Some sgA" "c3 sgA = c3 sg"
    using prepared_last[OF last] by blast
  note res = updateDistanceField_result[OF sgA(1) first]
  have impl: "addToCurveImpl cv (roundVec p) = Inr (cv1, sg1)"
    using addToCurveImpl_fit[OF last far] first by simp
  show ?thesis
  proof (cases "update_status sg1 = Some SUCCESS")
    case True
    then show ?thesis by (simp add: addToCurve_def impl)
  next
    case False
    then have "c3 sg1 = c3 sg" using res(5) sgA(2) by simp
    then have "addToCurveImpl cv1 (roundVec p) = updateDistanceField (prepared cv1 sg1) (roundVec p)"
      using addToCurveImpl_fit[OF res(1)] far by simp
    moreover have "prepared cv1 sg1 =
          cv1\<lparr>vdmap := (\<lambda>_. None), segments := segments cv1 @ [newSegment sg1]\<rparr>"
      using False res(4) status_cases[of sg1] by (intro prepared_failed) auto
    ultimately show ?thesis using False by (simp add: addToCurve_def impl)
  qed
qed

section \<open>A corner on the concrete curve\<close>

lemma checkCorner_back_point: "checkCorner long_segment back_point"
  by (simp add: checkCorner_def long_segment_def back_point_def equalVec_def js_eq_def
      SHOULD_USE_NEW_CORNER_FINDER_def getPointAlongCurve_def singleComponentBezier_def
      js_sub_def numeral_3_eq_3 numeral_2_eq_2 subVec_def addVec_def negateVec_def
      getUnitVector_axis dotProduct_def radiansToDegrees_def MAX_CORNER_ANGLE_def Let_def)

lemma back_point_far:
  "\<not> js_lt (getMagnitude (roundVec back_point) (c3 long_segment)) RADIAL_SIMPLIFICATION"
  by (simp add: getMagnitude_def roundVec_def back_point_def long_segment_def js_sub_def
      numeral_2_eq_2 RADIAL_SIMPLIFICATION_def)

lemma round_back_point: "roundVec back_point = back_point"
  by (simp add: roundVec_def back_point_def)

lemma first_attempt_back_point:
  "updateDistanceField (prepared long_curve long_segment) (roundVec back_point) =
     Inr (putLastSegment long_curve turned_segment, turned_segment)"
proof -
  have "prepared long_curve long_segment = long_curve"
    by (rule prepared_kept) (simp add: long_segment_def)
  then show ?thesis
    using updateDistanceField_corner[OF long_curve_last checkCorner_back_point]
    by (simp add: round_back_point turned_segment_def)
qed

section \<open>One column of the end cap\<close>

lemma storeCell_cong: "vd x = vd' x \<Longrightarrow> storeCell vd x y c x = storeCell vd' x y c x"
  by (simp add: storeCell_def Let_def split: option.splits)

lemma cap_column_cong:
  "vd x = vd' x \<Longrightarrow> cap_column p x n vd y x = cap_column p x n vd' y x"
proof (induction n arbitrary: vd vd' y)
  case 0
  then show ?case by simp
next
  case (Suc n)
  have "storeCell vd x y (subVec (Vec x y) p) x = storeCell vd' x y (subVec (Vec x y) p) x"
    using Suc.prems by (rule storeCell_cong)
  then have "cap_column p x n (storeCell vd x y (subVec (Vec x y) p)) (js_add y (Num 1)) x =
             cap_column p x n (storeCell vd' x y (subVec (Vec x y) p)) (js_add y (Num 1)) x"
    by (rule Suc.IH)
  then show ?case by simp
qed

lemma cap_rows_hit:
  "i < n \<Longrightarrow> cap_rows p y0 m n vd (Num r) (Num (r + real i)) =
     cap_column p (Num (r + real i)) m vd y0 (Num (r + real i))"
proof (induction n arbitrary: vd r i)
  case 0
  then show ?case by simp
next
  case (Suc n)
  show ?case
  proof (cases i)
    case 0
    have "cap_rows p y0 m n (cap_column p (Num r) m vd y0) (Num (r + 1)) (Num r) =
          cap_column p (Num r) m vd y0 (Num r)"
      by (rule cap_rows_other) simp
    then show ?thesis using 0 by simp
  next
    case (Suc j)
    then have j: "j < n" using Suc.prems by simp
    have eq: "r + real i = (r + 1) + real j" using Suc by simp
    have "cap_rows p y0 m n (cap_column p (Num r) m vd y0) (Num (r + 1)) (Num (r + 1 + real j)) =
          cap_column p (Num (r + 1 + real j)) m (cap_column p (Num r) m vd y0) y0 (Num (r + 1 + real j))"
      by (rule Suc.IH[OF j])
    also have "\<dots> = cap_column p (Num (r + 1 + real j)) m vd y0 (Num (r + 1 + real j))"
      by (rule cap_column_cong) (simp add: cap_column_other)
    finally show ?thesis unfolding eq by simp
  qed
qed

lemma getDistanceFromPolyline_cong:
  "vd x = vd' x \<Longrightarrow> getDistanceFromPolyline vd (Vec x y) = getDistanceFromPolyline vd' (Vec x y)"
  by (simp add: getDistanceFromPolyline_def)

lemma strip_column_Suc:
  "strip_column vi (Suc n) vd cv cl =
     strip_column vi n (storeCell vd (vx (roundVec cl)) (vy (roundVec cl)) (roundVec cv))
       (addVec cv vi) (addVec cl vi)"
  by (simp add: Let_def)

section \<open>Cell writes\<close>

lemma lookupCell_storeCell_same:
  "lookupCell (storeCell vd x y cand) x y =
     (case lookupCell vd x y of
        None \<Rightarrow> Some cand
      | Some old \<Rightarrow> if js_lt (sumOfSquaresVec old) (sumOfSquaresVec cand)
                   then Some old else Some cand)"
  by (simp add: lookupCell_def storeCell_def Let_def split: option.splits)

lemma lookupCell_storeCell_other:
  "x' \<noteq> x \<or> y' \<noteq> y \<Longrightarrow> lookupCell (storeCell vd x y cand) x' y' = lookupCell vd x' y'"
  by (auto simp: lookupCell_def storeCell_def Let_def split: option.splits)

section \<open>The first call of a run, evaluated\<close>

lemma paintField_unit:
  "paintField (\<lambda>_. None) (Vec (Num 0) (Num 0)) unit_point = Inr unit_field"
proof -
  have "paintStrip (\<lambda>_. None) (Vec (Num 0) (Num 0)) unit_point = Inr unit_strip"
    by (simp add: paintStrip_def unit_point_def unit_strip_def getPerpindicularUnitVector_def
      js_sub_def getUnitVector_axis getScaledVectorDifference_def FIELD_RADIUS_def addVec_def
      negateVec_def multVec_def subVec_def divVec_def getDDASteps_def Let_def
      loop_count_def range_count_def loop_nest_Some del: strip_column.simps)
  moreover have "paintEndCap unit_strip unit_point = Inr unit_field"
    by (simp add: paintEndCap_def unit_point_def unit_field_def FIELD_RADIUS_def addVec_def
      negateVec_def subVec_def Let_def range_count_def loop_nest_Some del: cap_rows.simps)
  ultimately show ?thesis by (simp add: paintField_def)
qed

lemma unit_field_col0:
  "unit_field (Num 0) = cap_column unit_point (Num 0) 18 unit_strip (Num (- 9)) (Num 0)"
  using cap_rows_hit[of 8 18 unit_point "Num (- 9)" 18 unit_strip "- 8"]
  by (simp add: unit_field_def del: cap_rows.simps cap_column.simps)

lemma unit_field_col1:
  "unit_field (Num 1) = cap_column unit_point (Num 1) 18 unit_strip (Num (- 9)) (Num 1)"
  using cap_rows_hit[of 9 18 unit_point "Num (- 9)" 18 unit_strip "- 8"]
  by (simp add: unit_field_def del: cap_rows.simps cap_column.simps)

lemma unit_strip_col1: "unit_strip (Num 1) = None"
proof -
  have "unit_strip (Num 1) = (\<lambda>_. None) (Num 1)"
    unfolding unit_strip_def
    by (rule strip_column_other[where P = "\<lambda>l. vx l = Num 0"])
       (auto simp: addVec_def roundVec_def)
  then show ?thesis by simp
qed

lemma unit_field_0: "getDistanceFromPolyline unit_field (Vec (Num 0) (Num 0)) = Vec (Num 0) (Num 0)"
proof -
  have "getDistanceFromPolyline unit_field (Vec (Num 0) (Num 0)) =
        getDistanceFromPolyline (cap_column unit_point (Num 0) 18 unit_strip (Num (- 9)))
          (Vec (Num 0) (Num 0))"
    by (rule getDistanceFromPolyline_cong) (simp add: unit_field_col0)
  also have "\<dots> = Vec (Num 0) (Num 0)"
    unfolding unit_strip_def unit_point_def
    by (simp add: eval_nat_numeral strip_column_Suc storeCell_def roundVec_def subVec_def
        addVec_def negateVec_def Let_def sumOfSquaresVec_def getDistanceFromPolyline_def
        js_gt_def del: strip_column.simps(2))
  finally show ?thesis .
qed

lemma unit_field_1: "getDistanceFromPolyline unit_field (Vec (Num 1) (Num 0)) = Vec (Num 0) (Num 0)"
proof -
  have "cap_column unit_point (Num 1) 18 unit_strip (Num (- 9)) (Num 1) =
        cap_column unit_point (Num 1) 18 (\<lambda>_. None) (Num (- 9)) (Num 1)"
    by (rule cap_column_cong) (simp add: unit_strip_col1)
  then have "getDistanceFromPolyline unit_field (Vec (Num 1) (Num 0)) =
        getDistanceFromPolyline (cap_column unit_point (Num 1) 18 (\<lambda>_. None) (Num (- 9)))
          (Vec (Num 1) (Num 0))"
    by (intro getDistanceFromPolyline_cong) (simp add: unit_field_col1)
  also have "\<dots> = Vec (Num 0) (Num 0)"
    unfolding unit_point_def
    by (simp add: eval_nat_numeral storeCell_def roundVec_def subVec_def addVec_def
        negateVec_def Let_def sumOfSquaresVec_def getDistanceFromPolyline_def js_gt_def)
  finally show ?thesis .
qed

text \<open>A sample that lies on the painted path adds nothing to the forces or to the error.\<close>

lemma force_sample_on_path:
  assumes "getDistanceFromPolyline vd (roundVec (getPointAlongCurve sg (sample_t i))) =
             Vec (Num 0) (Num 0)"
  shows "force_sample vd sg i (Vec (Num a) (Num b), Vec (Num c) (Num d)) =
           (Vec (Num a) (Num b), Vec (Num c) (Num d))"
  using assms
  by (simp add: force_sample_def Let_def magnitudeVec_def sumOfSquaresVec_def sample_t_def
      NUM_SAMPLE_POINTS_def js_sub_def numeral_2_eq_2)

lemma error_sample_on_path:
  assumes "getDistanceFromPolyline vd (roundVec (getPointAlongCurve sg (sample_t i))) =
             Vec (Num 0) (Num 0)"
  shows "error_sample vd sg i (Num a) = Num a"
  using assms by (simp add: error_sample_def Let_def numeral_2_eq_2)

lemma fold_force_on_path:
  assumes "\<forall>i\<in>set xs. getDistanceFromPolyline vd (roundVec (getPointAlongCurve sg (sample_t i))) =
             Vec (Num 0) (Num 0)"
  shows "fold (force_sample vd sg) xs (Vec (Num a) (Num b), Vec (Num c) (Num d)) =
           (Vec (Num a) (Num b), Vec (Num c) (Num d))"
  using assms by (induction xs) (simp_all add: force_sample_on_path)

lemma fold_error_on_path:
  assumes "\<forall>i\<in>set xs. getDistanceFromPolyline vd (roundVec (getPointAlongCurve sg (sample_t i))) =
             Vec (Num 0) (Num 0)"
  shows "fold (error_sample vd sg) xs (Num a) = Num a"
  using assms by (induction xs) (simp_all add: error_sample_on_path)

lemma samples_list: "[0..<NUM_SAMPLE_POINTS] = [0, 1, 2, 3, 4, 5, 6, 7, 8]"
  by (simp add: NUM_SAMPLE_POINTS_def upt_rec)

lemma unit_segment_on_path:
  "\<forall>i\<in>set [0..<NUM_SAMPLE_POINTS].
     getDistanceFromPolyline unit_field (roundVec (getPointAlongCurve unit_segment (sample_t i))) =
       Vec (Num 0) (Num 0)"
  unfolding samples_list
  by (simp add: sample_t_def NUM_SAMPLE_POINTS_def getPointAlongCurve_def
      singleComponentBezier_def unit_segment_def js_sub_def numeral_3_eq_3 numeral_2_eq_2
      roundVec_def unit_field_0 unit_field_1)

lemma fitted_segment_on_path:
  "\<forall>i\<in>set [0..<NUM_SAMPLE_POINTS].
     getDistanceFromPolyline unit_field
       (roundVec (getPointAlongCurve (fitted_segment\<lparr>error := None, steps := None\<rparr>) (sample_t i))) =
       Vec (Num 0) (Num 0)"
  unfolding samples_list
  by (simp add: sample_t_def NUM_SAMPLE_POINTS_def getPointAlongCurve_def
      singleComponentBezier_def fitted_segment_def js_sub_def numeral_3_eq_3 numeral_2_eq_2
      roundVec_def unit_field_0 unit_field_1)

lemma refine_step_unit:
  "refine_step unit_field unit_segment 0 = (fitted_segment, Num 0, 1)"
proof -
  have f: "fold (force_sample unit_field unit_segment) [0..<NUM_SAMPLE_POINTS]
             (Vec (Num 0) (Num 0), Vec (Num 0) (Num 0)) =
           (Vec (Num 0) (Num 0), Vec (Num 0) (Num 0))"
    using unit_segment_on_path by (rule fold_force_on_path)
  have e: "fold (error_sample unit_field (fitted_segment\<lparr>error := None, steps := None\<rparr>))
             [0..<NUM_SAMPLE_POINTS] (Num 0) = Num 0"
    using fitted_segment_on_path by (rule fold_error_on_path)
  have sg1: "unit_segment\<lparr>c1 := Vec (Num (1 / 100)) (Num 0), c2 := Vec (Num (99 / 100)) (Num 0)\<rparr> =
             fitted_segment\<lparr>error := None, steps := None\<rparr>"
    by (simp add: unit_segment_def fitted_segment_def)
  have mid: "getSegmentMidpoint unit_segment = Vec (Num (1 / 2)) (Num 0)"
    by (simp add: getSegmentMidpoint_def unit_segment_def subVec_def addVec_def negateVec_def
        divVec_def multVec_def)
  show ?thesis
    using e
    unfolding refine_step_def Let_def f fst_conv snd_conv mid
    by (simp add: SHOULD_USE_MY_FORCE_VECTORS_def subVec_def addVec_def negateVec_def multVec_def
        js_sub_def NUM_SAMPLE_POINTS_def unit_segment_def fitted_segment_def)
qed

lemma refine_unit: "refine unit_field unit_segment 0 = (fitted_segment, 1)"
  by (subst refine.simps) (simp add: refine_step_unit MAX_ERROR_def)

lemma updateDistanceField_success:
  assumes "getLastSegment cv = Some sg" and "\<not> checkCorner sg p"
    and "paintField (vdmap cv) (c3 sg) p = Inr vd"
    and "snd (refine vd (extendSegment sg p) 0) \<le> MAX_ITERATIONS"
  shows "updateDistanceField cv p =
     (let sg' = (fst (refine vd (extendSegment sg p) 0))\<lparr>update_status := Some SUCCESS\<rparr>
      in Inr (putLastSegment (cv\<lparr>vdmap := vd\<rparr>) sg', sg'))"
  using assms by (simp add: updateDistanceField_def Let_def getLastPoint_def)

lemma first_curve_last:
  "getLastSegment first_curve = Some (initCurveSegment (Num 0) (Num 0))"
  by (simp add: first_curve_def startCurve_def createCurve_def initCurve_def roundVec_def
      getLastSegment_def)

lemma addToCurve_first_curve:
  "addToCurve first_curve unit_point =
     Inr (\<lparr>segments = [fitted_segment\<lparr>update_status := Some SUCCESS\<rparr>], vdmap = unit_field\<rparr>,
          fitted_segment\<lparr>update_status := Some SUCCESS\<rparr>)"
proof -
  let ?sg = "initCurveSegment (Num 0) (Num 0)"
  have far: "\<not> js_lt (getMagnitude (roundVec unit_point) (c3 ?sg)) RADIAL_SIMPLIFICATION"
    by (simp add: getMagnitude_def roundVec_def unit_point_def initCurveSegment_def js_sub_def
        numeral_2_eq_2 RADIAL_SIMPLIFICATION_def)
  have rp: "roundVec unit_point = unit_point" by (simp add: roundVec_def unit_point_def)
  have prep: "prepared first_curve ?sg = first_curve"
    by (rule prepared_kept) (simp add: initCurveSegment_def)
  have nc: "\<not> checkCorner ?sg unit_point"
    by (rule checkCorner_fresh) (simp add: initCurveSegment_def)
  have ext: "extendSegment ?sg unit_point = unit_segment"
    by (simp add: extendSegment_def initCurveSegment_def unit_point_def unit_segment_def
        getLastPoint_def js_sub_def Let_def)
  have vd: "vdmap first_curve = (\<lambda>_. None)"
    by (simp add: first_curve_def startCurve_def createCurve_def initCurve_def)
  have udf: "updateDistanceField first_curve unit_point =
     Inr (putLastSegment (first_curve\<lparr>vdmap := unit_field\<rparr>)
            (fitted_segment\<lparr>update_status := Some SUCCESS\<rparr>),
          fitted_segment\<lparr>update_status := Some SUCCESS\<rparr>)"
  proof -
    have pf: "paintField (vdmap first_curve) (c3 ?sg) unit_point = Inr unit_field"
      using paintField_unit by (simp add: vd initCurveSegment_def)
    have le: "snd (refine unit_field (extendSegment ?sg unit_point) 0) \<le> MAX_ITERATIONS"
      by (simp add: ext refine_unit MAX_ITERATIONS_def)
    show ?thesis
      using updateDistanceField_success[OF first_curve_last nc pf le]
      by (simp add: ext refine_unit Let_def)
  qed
  have "addToCurveImpl first_curve (roundVec unit_point) = updateDistanceField first_curve unit_point"
    using addToCurveImpl_fit[OF first_curve_last far] prep rp by simp
  then show ?thesis
    using udf
    by (simp add: addToCurve_def putLastSegment_def first_curve_def startCurve_def
        createCurve_def initCurve_def)
qed

section \<open>The error of a fitted segment\<close>

lemma updateDistanceField_success_error:
  assumes "getLastSegment cv = Some sg" and "updateDistanceField cv p = Inr (cv', sg')"
    and "update_status sg' = Some SUCCESS"
  shows "\<exists>e. error sg' = Some e \<and> js_lt e MAX_ERROR"
  using assms refine_converged[of _ "extendSegment sg p" 0]
  by (auto simp: updateDistanceField_def Let_def not_less split: if_splits sum.splits)

lemma addToCurve_result:
  assumes last: "getLastSegment cv = Some sg"
    and inv: "update_status sg = Some SUCCESS \<longrightarrow> (\<exists>e. error sg = Some e \<and> js_lt e MAX_ERROR)"
    and res: "addToCurve cv p = Inr (cv', sg')"
  shows "getLastSegment cv' = Some sg' \<and>
         (update_status sg' = Some SUCCESS \<longrightarrow> (\<exists>e. error sg' = Some e \<and> js_lt e MAX_ERROR))"
proof (cases "js_lt (getMagnitude (roundVec p) (c3 sg)) RADIAL_SIMPLIFICATION")
  case True
  have "addToCurve cv p = Inr (cv, sg)"
    using addToCurveImpl_duplicate[OF last True] by (auto simp: addToCurve_def Let_def)
  then show ?thesis using res last inv by simp
next
  case far: False
  obtain sgA where sgA: "getLastSegment (prepared cv sg) = Some sgA" "c3 sgA = c3 sg"
    using prepared_last[OF last] by blast
  have impl: "addToCurveImpl cv (roundVec p) = updateDistanceField (prepared cv sg) (roundVec p)"
    by (rule addToCurveImpl_fit[OF last far])
  obtain cv1 sg1 where first: "updateDistanceField (prepared cv sg) (roundVec p) = Inr (cv1, sg1)"
    using res impl by (cases "updateDistanceField (prepared cv sg) (roundVec p)")
      (auto simp: addToCurve_def Let_def)
  note r1 = updateDistanceField_result[OF sgA(1) first]
  show ?thesis
  proof (cases "update_status sg1 = Some SUCCESS")
    case True
    then have "cv' = cv1" "sg' = sg1"
      using addToCurve_second_attempt[OF last far first] res by simp_all
    then show ?thesis
      using r1(1) updateDistanceField_success_error[OF sgA(1) first] by simp
  next
    case False
    let ?cvB = "cv1\<lparr>vdmap := (\<lambda>_. None), segments := segments cv1 @ [newSegment sg1]\<rparr>"
    have second: "updateDistanceField ?cvB (roundVec p) = Inr (cv', sg')"
      using addToCurve_second_attempt[OF last far first] res False by simp
    have lastB: "getLastSegment ?cvB = Some (newSegment sg1)" by simp
    show ?thesis
      using updateDistanceField_result(1)[OF lastB second]
        updateDistanceField_success_error[OF lastB second] by simp
  qed
qed

lemma error_in_bound_iff:
  "error_in_bound cv \<longleftrightarrow>
     (\<exists>sg. getLastSegment cv = Some sg \<and>
        (update_status sg = Some SUCCESS \<longrightarrow> (\<exists>e. error sg = Some e \<and> js_lt e MAX_ERROR)))"
  by (auto simp: error_in_bound_def split: option.splits)

lemma error_in_bound_startCurve: "error_in_bound (startCurve p)"
  by (simp add: error_in_bound_def startCurve_def createCurve_def initCurve_def
      getLastSegment_def initCurveSegment_def)

lemma error_in_bound_addAll:
  "error_in_bound cv \<Longrightarrow> addAll cv ps = Inr cv' \<Longrightarrow> error_in_bound cv'"
proof (induction ps arbitrary: cv)
  case Nil
  then show ?case by simp
next
  case (Cons p ps)
  obtain cv1 sg1 where step: "addToCurve cv p = Inr (cv1, sg1)" and rest: "addAll cv1 ps = Inr cv'"
    using Cons.prems(2) by (auto split: sum.splits)
  obtain sg where sg: "getLastSegment cv = Some sg"
      "update_status sg = Some SUCCESS \<longrightarrow> (\<exists>e. error sg = Some e \<and> js_lt e MAX_ERROR)"
    using Cons.prems(1) error_in_bound_iff by blast
  have "error_in_bound cv1"
    using addToCurve_result[OF sg step] error_in_bound_iff by blast
  then show ?case using rest by (rule Cons.IH)
qed

section \<open>Finite values stay finite\<close>

lemma finVec_Vec [simp]: "finVec (Vec (Num a) (Num b))"
  by (simp add: finVec_def)

lemma not_finVec_NaN [simp]: "\<not> finVec (Vec NaN b)" "\<not> finVec (Vec a NaN)"
  by (simp_all add: finVec_def split: jsnum.splits)

lemma getDistanceFromPolyline_finite:
  assumes "finField vd"
  shows "finVec (getDistanceFromPolyline vd q)"
proof (cases "vd (vx q)")
  case None
  then show ?thesis by (simp add: getDistanceFromPolyline_def FIELD_RADIUS_def)
next
  case (Some col)
  have fin: "\<And>y v. col y = Some v \<Longrightarrow> finVec v"
    using assms Some by (auto simp: finField_def)
  show ?thesis
    using Some
    by (auto simp: getDistanceFromPolyline_def FIELD_RADIUS_def Let_def finVec_iff
        split: option.splits dest!: fin)
qed

lemma magnitudeVec_Num: "magnitudeVec (Vec (Num a) (Num b)) = Num (sqrt (a * a + b * b))"
proof -
  have "\<not> a * a + b * b < 0" by (simp add: not_less)
  then show ?thesis by (simp add: magnitudeVec_def sumOfSquaresVec_def numeral_2_eq_2)
qed

lemma sample_t_Num: "sample_t i = Num (real i / 9)"
  by (simp add: sample_t_def NUM_SAMPLE_POINTS_def)

lemma force_sample_finite:
  assumes "finField vd" and "finVec (fst ff)" and "finVec (snd ff)"
  shows "finVec (fst (force_sample vd sg i ff)) \<and> finVec (snd (force_sample vd sg i ff))"
proof -
  obtain dx dy where d: "getDistanceFromPolyline vd (roundVec (getPointAlongCurve sg (sample_t i))) =
      Vec (Num dx) (Num dy)"
    using getDistanceFromPolyline_finite[OF assms(1)] finVec_iff by blast
  obtain a b c e where ff: "ff = (Vec (Num a) (Num b), Vec (Num c) (Num e))"
    using assms(2,3) by (cases ff) (auto simp: finVec_iff)
  show ?thesis
    by (simp add: force_sample_def Let_def d[unfolded sample_t_Num] ff magnitudeVec_Num
        sample_t_Num js_sub_def numeral_2_eq_2)
qed

lemma fold_force_sample_finite:
  assumes "finField vd" and "finVec (fst ff)" and "finVec (snd ff)"
  shows "finVec (fst (fold (force_sample vd sg) xs ff)) \<and>
         finVec (snd (fold (force_sample vd sg) xs ff))"
  using assms(2,3)
proof (induction xs arbitrary: ff)
  case Nil
  then show ?case by simp
next
  case (Cons i xs)
  show ?case
    using Cons.IH[of "force_sample vd sg i ff"] force_sample_finite[OF assms(1) Cons.prems]
    by simp
qed

lemma getSegmentMidpoint_Num:
  assumes "c0 sg = Vec (Num a) (Num b)" and "c3 sg = Vec (Num c) (Num d)"
  shows "getSegmentMidpoint sg = Vec (Num ((c - a) * (1 / 2) + a)) (Num ((d - b) * (1 / 2) + b))"
  using assms
  by (simp add: getSegmentMidpoint_def subVec_def addVec_def negateVec_def divVec_def multVec_def)

text \<open>One round keeps \<open>c2\<close> finite, whatever \<open>c1\<close> and the constraint are.\<close>

lemma refine_step_c2_finite:
  assumes "finField vd" and "finVec (c0 sg)" and "finVec (c2 sg)" and "finVec (c3 sg)"
  shows "finVec (c2 (fst (refine_step vd sg n)))"
proof -
  obtain a b where c0: "c0 sg = Vec (Num a) (Num b)" using assms(2) finVec_iff by blast
  obtain c d where c3: "c3 sg = Vec (Num c) (Num d)" using assms(4) finVec_iff by blast
  obtain e f where c2: "c2 sg = Vec (Num e) (Num f)" using assms(3) finVec_iff by blast
  let ?ff = "fold (force_sample vd sg) [0..<NUM_SAMPLE_POINTS]
               (Vec (Num 0) (Num 0), Vec (Num 0) (Num 0))"
  have "finVec (snd ?ff)"
    using fold_force_sample_finite[OF assms(1), of "(Vec (Num 0) (Num 0), Vec (Num 0) (Num 0))"]
    by simp
  then obtain g h where f2: "snd ?ff = Vec (Num g) (Num h)" using finVec_iff by blast
  show ?thesis
    by (simp add: refine_step_def Let_def f2[unfolded NUM_SAMPLE_POINTS_def] c2 getSegmentMidpoint_Num[OF c0 c3]
        SHOULD_USE_MY_FORCE_VECTORS_def subVec_def addVec_def negateVec_def multVec_def
        js_sub_def NUM_SAMPLE_POINTS_def)
qed

text \<open>With a finite constraint, or none, one round keeps \<open>c1\<close> finite.\<close>

lemma refine_step_c1_finite:
  assumes "finField vd" and "finSeg sg"
    and "case constrain_to sg of None \<Rightarrow> True | Some ct \<Rightarrow> finVec ct"
  shows "finVec (c1 (fst (refine_step vd sg n)))"
proof -
  obtain a b where c0: "c0 sg = Vec (Num a) (Num b)" using assms(2) finVec_iff finSeg_def by blast
  obtain c d where c3: "c3 sg = Vec (Num c) (Num d)" using assms(2) finVec_iff finSeg_def by blast
  obtain e f where c1: "c1 sg = Vec (Num e) (Num f)" using assms(2) finVec_iff finSeg_def by blast
  let ?ff = "fold (force_sample vd sg) [0..<NUM_SAMPLE_POINTS]
               (Vec (Num 0) (Num 0), Vec (Num 0) (Num 0))"
  have "finVec (fst ?ff)"
    using fold_force_sample_finite[OF assms(1), of "(Vec (Num 0) (Num 0), Vec (Num 0) (Num 0))"]
    by simp
  then obtain g h where f1: "fst ?ff = Vec (Num g) (Num h)" using finVec_iff by blast
  show ?thesis
  proof (cases "constrain_to sg")
    case None
    then show ?thesis
      by (simp add: refine_step_def Let_def f1[unfolded NUM_SAMPLE_POINTS_def] c1 getSegmentMidpoint_Num[OF c0 c3]
          SHOULD_USE_MY_FORCE_VECTORS_def subVec_def addVec_def negateVec_def multVec_def
          js_sub_def NUM_SAMPLE_POINTS_def)
  next
    case (Some ct)
    then obtain p q where ct: "ct = Vec (Num p) (Num q)" using assms(3) finVec_iff by auto
    show ?thesis
      by (simp add: refine_step_def Let_def f1[unfolded NUM_SAMPLE_POINTS_def] c1 Some ct getSegmentMidpoint_Num[OF c0 c3]
          SHOULD_USE_MY_FORCE_VECTORS_def subVec_def addVec_def negateVec_def multVec_def
          dotProduct_def js_sub_def NUM_SAMPLE_POINTS_def)
  qed
qed

section \<open>Painting keeps the distance map finite\<close>

lemma storeCell_finField:
  assumes "finField vd" and "finVec cand"
  shows "finField (storeCell vd (Num a) y cand)"
proof -
  have old: "\<And>col y v. vd (Num a) = Some col \<Longrightarrow> col y = Some v \<Longrightarrow> finVec v"
    using assms(1) by (auto simp: finField_def)
  show ?thesis
    unfolding finField_def
  proof (intro conjI allI impI)
    show "storeCell vd (Num a) y cand NaN = None"
      using assms(1) by (simp add: storeCell_other_column finField_def)
  next
    fix x col y' v
    assume col: "storeCell vd (Num a) y cand x = Some col" and v: "col y' = Some v"
    show "finVec v"
    proof (cases "x = Num a")
      case False
      then have "vd x = Some col" using col by (simp add: storeCell_other_column)
      then show ?thesis using assms(1) v by (auto simp: finField_def)
    next
      case True
      then show ?thesis
        using col v assms(2) old
        by (auto simp: storeCell_def Let_def split: option.splits if_splits)
    qed
  qed
qed

lemma cap_column_finField:
  assumes "finField vd" and "finVec p"
  shows "finField (cap_column p (Num a) n vd (Num b))"
  using assms(1)
proof (induction n arbitrary: vd b)
  case 0
  then show ?case by simp
next
  case (Suc n)
  obtain c d where p: "p = Vec (Num c) (Num d)" using assms(2) finVec_iff by blast
  have "finVec (subVec (Vec (Num a) (Num b)) p)"
    by (simp add: p subVec_def addVec_def negateVec_def)
  then have "finField (storeCell vd (Num a) (Num b) (subVec (Vec (Num a) (Num b)) p))"
    using Suc.prems by (intro storeCell_finField)
  then show ?case using Suc.IH by simp
qed

lemma cap_rows_finField:
  assumes "finField vd" and "finVec p"
  shows "finField (cap_rows p (Num b) m n vd (Num a))"
  using assms(1)
proof (induction n arbitrary: vd a)
  case 0
  then show ?case by simp
next
  case (Suc n)
  then show ?case using cap_column_finField[OF _ assms(2)] by simp
qed

lemma strip_column_finField:
  assumes "finField vd" and "finVec vi" and "finVec cv" and "finVec cl"
  shows "finField (strip_column vi n vd cv cl)"
  using assms(1,3,4)
proof (induction n arbitrary: vd cv cl)
  case 0
  then show ?case by simp
next
  case (Suc n)
  obtain a b where vi: "vi = Vec (Num a) (Num b)" using assms(2) finVec_iff by blast
  obtain c d where cv: "cv = Vec (Num c) (Num d)" using Suc.prems(2) finVec_iff by blast
  obtain e f where cl: "cl = Vec (Num e) (Num f)" using Suc.prems(3) finVec_iff by blast
  have "finField (storeCell vd (vx (roundVec cl)) (vy (roundVec cl)) (roundVec cv))"
    using Suc.prems(1) by (simp add: cl cv roundVec_def storeCell_finField)
  moreover have "finVec (addVec cv vi)" "finVec (addVec cl vi)"
    by (simp_all add: vi cv cl addVec_def)
  ultimately show ?case using Suc.IH by (simp add: strip_column_Suc del: strip_column.simps(2))
qed

lemma strip_rows_finField:
  assumes "finField vd" and "finVec vi" and "finVec hi" and "finVec dv" and "finVec chl"
  shows "finField (strip_rows vi hi m dv n vd chl)"
  using assms(1,5)
proof (induction n arbitrary: vd chl)
  case 0
  then show ?case by simp
next
  case (Suc n)
  obtain a b where hi: "hi = Vec (Num a) (Num b)" using assms(3) finVec_iff by blast
  obtain e f where chl: "chl = Vec (Num e) (Num f)" using Suc.prems(2) finVec_iff by blast
  have "finField (strip_column vi m vd dv chl)"
    using Suc.prems assms(2,4) by (intro strip_column_finField)
  moreover have "finVec (addVec chl hi)" by (simp add: hi chl addVec_def)
  ultimately show ?case using Suc.IH by simp
qed

lemma strip_rows_no_column: "strip_rows vi hi 0 dv n vd chl = vd"
  by (induction n arbitrary: vd chl) simp_all

lemma loop_nest_cases:
  assumes "loop_nest outer inner run skip = Inr r"
  obtains "r = skip" | n m where "outer = Some (Suc n)" "inner = Some m" "r = run (Suc n) m"
  using assms by (auto simp: loop_nest_def split: option.splits nat.splits)

lemma loop_count_Num: "loop_count (Num r) = Some (nat \<lceil>r\<rceil>)"
  by (simp add: loop_count_def range_count_def)

lemma divVec_Num:
  "r \<noteq> 0 \<Longrightarrow> divVec (Vec (Num a) (Num b)) (Num r) = Vec (Num (a * (1 / r))) (Num (b * (1 / r)))"
  by (simp add: divVec_def multVec_def)

lemma getDDASteps_Num: "getDDASteps (Vec (Num a) (Num b)) = Num (max \<bar>a\<bar> \<bar>b\<bar>)"
  by (simp add: getDDASteps_def max_def)

lemma nat_ceiling_nonzero: "nat \<lceil>r :: real\<rceil> \<noteq> 0 \<Longrightarrow> r \<noteq> 0"
  by auto

lemma strip_run_finField:
  assumes "finField vd" and "finVec vdiff" and "finVec hdiff" and "finVec dv" and "finVec a1"
    and "m \<noteq> 0 \<Longrightarrow> vs \<noteq> 0" and "hs \<noteq> 0"
  shows "finField (strip_rows (divVec vdiff (Num vs)) (divVec hdiff (Num hs)) m dv n vd a1)"
proof (cases "m = 0")
  case True
  then show ?thesis using assms(1) by (simp add: strip_rows_no_column)
next
  case False
  obtain a b where v: "vdiff = Vec (Num a) (Num b)" using assms(2) finVec_iff by blast
  obtain c d where h: "hdiff = Vec (Num c) (Num d)" using assms(3) finVec_iff by blast
  have "finVec (divVec vdiff (Num vs))" using assms(6)[OF False] by (simp add: v divVec_Num)
  moreover have "finVec (divVec hdiff (Num hs))" using assms(7) by (simp add: h divVec_Num)
  ultimately show ?thesis using assms(1,4,5) by (intro strip_rows_finField)
qed

lemma getUnitVector_finite_or_NaN:
  "getUnitVector (Vec (Num a) (Num b)) = Vec NaN NaN \<or>
   (\<exists>x y. getUnitVector (Vec (Num a) (Num b)) = Vec (Num x) (Num y))"
  by (simp add: getUnitVector_Num)

lemma paintStrip_finField:
  assumes "finField vd" and "finVec l" and "finVec p" and "paintStrip vd l p = Inr vd'"
  shows "finField vd'"
proof -
  obtain a b where l: "l = Vec (Num a) (Num b)" using assms(2) finVec_iff by blast
  obtain c d where p: "p = Vec (Num c) (Num d)" using assms(3) finVec_iff by blast
  have perp: "getPerpindicularUnitVector l p = getUnitVector (Vec (Num (d - b)) (Num (- (c - a))))"
    by (simp add: l p getPerpindicularUnitVector_def js_sub_def)
  consider "getPerpindicularUnitVector l p = Vec NaN NaN"
    | px py where "getPerpindicularUnitVector l p = Vec (Num px) (Num py)"
    using getUnitVector_finite_or_NaN[of "d - b" "- (c - a)"] perp by auto
  then show ?thesis
  proof cases
    case 1
    have "paintStrip vd l p = Inr vd"
      unfolding paintStrip_def Let_def 1
      by (simp add: l p getScaledVectorDifference_def addVec_def negateVec_def multVec_def
          subVec_def getDDASteps_def loop_count_def range_count_def loop_nest_def)
    then show ?thesis using assms(1,4) by simp
  next
    case 2
    define dv where "dv = Vec (Num (px * 9)) (Num (py * 9))"
    define a1 where "a1 = addVec l dv"
    define vdiff where "vdiff = negateVec (multVec dv (Num 2))"
    define hdiff where "hdiff = subVec (addVec p dv) a1"
    have fin: "finVec dv" "finVec a1" "finVec vdiff" "finVec hdiff"
      by (simp_all add: dv_def a1_def vdiff_def hdiff_def l p addVec_def negateVec_def
          multVec_def subVec_def)
    obtain vs where vs: "getDDASteps vdiff = Num vs"
      using fin(3) by (auto simp: finVec_iff getDDASteps_Num)
    obtain hs where hs: "getDDASteps hdiff = Num hs"
      using fin(4) by (auto simp: finVec_iff getDDASteps_Num)
    have dist: "getScaledVectorDifference (Vec (Num px) (Num py)) = dv"
      by (simp add: getScaledVectorDifference_def FIELD_RADIUS_def dv_def)
    have eq: "paintStrip vd l p =
        loop_nest (Some (nat \<lceil>hs\<rceil>)) (Some (nat \<lceil>vs\<rceil>))
          (\<lambda>n m. strip_rows (divVec vdiff (Num vs)) (divVec hdiff (Num hs)) m dv n vd a1) vd"
      unfolding paintStrip_def Let_def 2 dist
      unfolding a1_def[symmetric] vdiff_def[symmetric] hdiff_def[symmetric] vs hs loop_count_Num
      by (rule refl)
    from assms(4)[unfolded eq] show ?thesis
    proof (cases rule: loop_nest_cases)
      case 1
      then show ?thesis using assms(1) by simp
    next
      case (2 n m)
      have "nat \<lceil>hs\<rceil> \<noteq> 0" using 2(1) by simp
      then have h0: "hs \<noteq> 0" by (rule nat_ceiling_nonzero)
      have v0: "vs \<noteq> 0" if "m \<noteq> 0"
      proof -
        have "nat \<lceil>vs\<rceil> \<noteq> 0" using 2(2) that by simp
        then show ?thesis by (rule nat_ceiling_nonzero)
      qed
      show ?thesis
        unfolding 2(3) using assms(1) fin(3,4,1,2) v0 h0 by (rule strip_run_finField)
    qed
  qed
qed

lemma paintEndCap_finField:
  assumes "finField vd" and "finVec p" and "paintEndCap vd p = Inr vd'"
  shows "finField vd'"
proof -
  obtain c d where p: "p = Vec (Num c) (Num d)" using assms(2) finVec_iff by blast
  have "paintEndCap vd p =
      loop_nest (Some (nat \<lceil>c + 9 - (c - 9)\<rceil>)) (Some (nat \<lceil>d + 9 - (d - 9)\<rceil>))
        (\<lambda>n m. cap_rows p (Num (d - 9)) m n vd (Num (c - 9))) vd"
    by (simp add: paintEndCap_def p FIELD_RADIUS_def addVec_def negateVec_def subVec_def
        Let_def range_count_def)
  from assms(3)[unfolded this] show ?thesis
    by (cases rule: loop_nest_cases) (simp_all add: assms(1,2) cap_rows_finField)
qed

lemma paintField_finField:
  assumes "finField vd" and "finVec l" and "finVec p" and "paintField vd l p = Inr vd'"
  shows "finField vd'"
proof -
  obtain vd1 where 1: "paintStrip vd l p = Inr vd1" and 2: "paintEndCap vd1 p = Inr vd'"
    using assms(4) by (auto simp: paintField_def split: sum.splits)
  have "finField vd1" using assms(1,2,3) 1 by (rule paintStrip_finField)
  then show ?thesis using assms(3) 2 by (rule paintEndCap_finField)
qed

section \<open>The loop on finite data, and under a NaN constraint\<close>

lemma js_NaN_left [simp]: "js_sub NaN b = NaN"
  by (simp add: js_sub_def)

lemma finSeg_refine_step:
  assumes "finField vd" and "finSeg sg"
    and "case constrain_to sg of None \<Rightarrow> True | Some ct \<Rightarrow> finVec ct"
  shows "finSeg (fst (refine_step vd sg n))"
  using assms refine_step_c1_finite[OF assms] refine_step_c2_finite[OF assms(1), of sg n]
  by (simp add: finSeg_def refine_step_frame)

lemma finSeg_refine:
  assumes "finField vd" and "finSeg sg"
    and "case constrain_to sg of None \<Rightarrow> True | Some ct \<Rightarrow> finVec ct"
  shows "finSeg (fst (refine vd sg n))"
  using assms
proof (induction vd sg n rule: refine.induct)
  case (1 vd sg n)
  have step: "finSeg (fst (refine_step vd sg n))"
    using "1.prems" by (rule finSeg_refine_step)
  show ?case
  proof (cases "js_lt (fst (snd (refine_step vd sg n))) MAX_ERROR \<or> snd (snd (refine_step vd sg n)) > MAX_ITERATIONS")
    case True
    then show ?thesis using step
      by (subst refine.simps) (auto simp: Let_def)
  next
    case False
    have "finSeg (fst (refine vd (fst (refine_step vd sg n)) (snd (snd (refine_step vd sg n)))))"
      using "1.IH"[OF refl refl refl refl] False "1.prems"(1,3) step
      by (auto simp: refine_step_frame)
    then show ?thesis using False
      by (subst refine.simps) (auto simp: Let_def)
  qed
qed

text \<open>A NaN constraint: \<open>c1\<close> is NaN after one round, and the error is never below the bound.\<close>

lemma refine_step_c1_NaN:
  assumes "constrain_to sg = Some (Vec NaN NaN)"
  shows "c1 (fst (refine_step vd sg n)) = Vec NaN NaN"
  using assms by (simp add: refine_step_def Let_def multVec_def)

lemma bezier_NaN_control: "singleComponentBezier t w0 NaN w2 w3 = NaN"
  by (simp add: singleComponentBezier_def)

lemma error_sample_0_no_column:
  assumes "vd (vx (roundVec (getPointAlongCurve sg (sample_t 0)))) = None"
  shows "atleast 162 (error_sample vd sg 0 (Num 0))"
  using getDistanceFromPolyline_no_column[of vd "roundVec (getPointAlongCurve sg (sample_t 0))"] assms
  by (simp add: error_sample_def Let_def FIELD_RADIUS_def numeral_2_eq_2 atleast_def)

lemma error_fold_no_column:
  assumes "vd (vx (roundVec (getPointAlongCurve sg (sample_t 0)))) = None"
  shows "\<not> js_lt (js_div (fold (error_sample vd sg) [0..<NUM_SAMPLE_POINTS] (Num 0))
                    (Num (real NUM_SAMPLE_POINTS))) MAX_ERROR"
proof -
  have upt: "[0..<NUM_SAMPLE_POINTS] = 0 # [Suc 0..<NUM_SAMPLE_POINTS]"
    by (simp add: NUM_SAMPLE_POINTS_def upt_conv_Cons)
  have "atleast 162 (fold (error_sample vd sg) [Suc 0..<NUM_SAMPLE_POINTS] (error_sample vd sg 0 (Num 0)))"
    by (intro fold_error_sample_atleast error_sample_0_no_column assms)
  then have "atleast 162 (fold (error_sample vd sg) [0..<NUM_SAMPLE_POINTS] (Num 0))"
    unfolding upt by simp
  then have "atleast (162 / 9) (js_div (fold (error_sample vd sg) [0..<NUM_SAMPLE_POINTS] (Num 0))
                    (Num (real NUM_SAMPLE_POINTS)))"
    unfolding NUM_SAMPLE_POINTS_def using atleast_div[of 162 _ 9] by simp
  then show ?thesis by (simp add: MAX_ERROR_def atleast_not_lt)
qed

lemma refine_step_NaN_constraint:
  assumes "constrain_to sg = Some (Vec NaN NaN)" and "vd NaN = None"
  shows "\<not> js_lt (fst (snd (refine_step vd sg n))) MAX_ERROR"
proof -
  define sg1 where "sg1 = fst (refine_step vd sg n)\<lparr>error := error sg, steps := steps sg\<rparr>"
  have "c1 sg1 = Vec NaN NaN" using refine_step_c1_NaN[OF assms(1)] by (simp add: sg1_def)
  then have "vx (roundVec (getPointAlongCurve sg1 (sample_t 0))) = NaN"
    by (simp add: getPointAlongCurve_def roundVec_def bezier_NaN_control)
  then have "vd (vx (roundVec (getPointAlongCurve sg1 (sample_t 0)))) = None"
    using assms(2) by simp
  then have "\<not> js_lt (js_div (fold (error_sample vd sg1) [0..<NUM_SAMPLE_POINTS] (Num 0))
                    (Num (real NUM_SAMPLE_POINTS))) MAX_ERROR"
    by (rule error_fold_no_column)
  moreover have "fst (snd (refine_step vd sg n)) =
      js_div (fold (error_sample vd sg1) [0..<NUM_SAMPLE_POINTS] (Num 0)) (Num (real NUM_SAMPLE_POINTS))"
    by (simp add: refine_step_def Let_def sg1_def)
  ultimately show ?thesis by simp
qed

lemma refine_NaN_constraint:
  assumes "constrain_to sg = Some (Vec NaN NaN)" and "vd NaN = None" and "n \<le> MAX_ITERATIONS"
  shows "snd (refine vd sg n) = Suc MAX_ITERATIONS"
  using assms
proof (induction vd sg n rule: refine.induct)
  case (1 vd sg n)
  have no: "\<not> js_lt (fst (snd (refine_step vd sg n))) MAX_ERROR"
    using "1.prems"(1,2) by (rule refine_step_NaN_constraint)
  show ?case
  proof (cases "snd (snd (refine_step vd sg n)) > MAX_ITERATIONS")
    case True
    then show ?thesis using "1.prems"(3) no
      by (subst refine.simps) (auto simp: Let_def refine_step_snd)
  next
    case False
    then have "snd (refine vd (fst (refine_step vd sg n)) (snd (snd (refine_step vd sg n)))) = Suc MAX_ITERATIONS"
      using "1.IH"[OF refl refl refl refl] no "1.prems" by (auto simp: refine_step_frame refine_step_snd)
    then show ?thesis using False no
      by (subst refine.simps) (auto simp: Let_def)
  qed
qed

section \<open>The refinement step on a finite curve\<close>

lemma updateDistanceField_cases:
  assumes "getLastSegment cv = Some sg" and "updateDistanceField cv p = Inr (cv', sg')"
  obtains (corner) "checkCorner sg p" "sg' = sg\<lparr>update_status := Some FAIL_CORNER\<rparr>"
      "cv' = putLastSegment cv sg'"
  | (maxed) vd where "\<not> checkCorner sg p" "paintField (vdmap cv) (c3 sg) p = Inr vd"
      "MAX_ITERATIONS < snd (refine vd (extendSegment sg p) 0)"
      "sg' = (fst (refine vd (extendSegment sg p) 0))
                  \<lparr>c0 := c0 sg, c1 := c1 sg, c2 := c2 sg, c3 := c3 sg,
                   error := error (copySegment sg), constrain_to := constrain_to sg,
                   update_status := Some FAIL_MAXED\<rparr>"
      "cv' = putLastSegment (cv\<lparr>vdmap := vd\<rparr>) sg'"
  | (success) vd where "\<not> checkCorner sg p" "paintField (vdmap cv) (c3 sg) p = Inr vd"
      "snd (refine vd (extendSegment sg p) 0) \<le> MAX_ITERATIONS"
      "sg' = (fst (refine vd (extendSegment sg p) 0))\<lparr>update_status := Some SUCCESS\<rparr>"
      "cv' = putLastSegment (cv\<lparr>vdmap := vd\<rparr>) sg'"
proof (cases "checkCorner sg p")
  case True
  then show ?thesis
    using updateDistanceField_corner[OF assms(1) True] assms(2) corner by simp
next
  case False
  obtain vd where vd: "paintField (vdmap cv) (c3 sg) p = Inr vd"
    using assms False
    by (cases "paintField (vdmap cv) (c3 sg) p")
       (auto simp: updateDistanceField_def Let_def getLastPoint_def)
  show ?thesis
  proof (cases "MAX_ITERATIONS < snd (refine vd (extendSegment sg p) 0)")
    case True
    show ?thesis
      using updateDistanceField_maxed[OF assms(1) False vd True] assms(2) maxed[OF False vd True]
      by (simp add: Let_def)
  next
    case le: False
    then have "snd (refine vd (extendSegment sg p) 0) \<le> MAX_ITERATIONS" by simp
    then show ?thesis
      using updateDistanceField_success[OF assms(1) False vd] assms(2) success[OF False vd]
      by (simp add: Let_def)
  qed
qed

lemma finSeg_update [simp]:
  "finSeg (sg\<lparr>update_status := s\<rparr>) = finSeg sg"
  "finSeg (sg\<lparr>error := e\<rparr>) = finSeg sg"
  "finSeg (sg\<lparr>constrain_to := ct\<rparr>) = finSeg sg"
  by (simp_all add: finSeg_def)

lemma constraintOk_update [simp]:
  "constraintOk (sg\<lparr>update_status := s\<rparr>) = constraintOk sg"
  by (simp add: constraintOk_def)

lemma finSeg_extendSegment:
  assumes "finSeg sg" and "finVec p"
  shows "finSeg (extendSegment sg p)"
proof -
  obtain a b where c2: "c2 sg = Vec (Num a) (Num b)" using assms(1) finVec_iff finSeg_def by blast
  obtain c d where c3: "c3 sg = Vec (Num c) (Num d)" using assms(1) finVec_iff finSeg_def by blast
  obtain e f where p: "p = Vec (Num e) (Num f)" using assms(2) finVec_iff by blast
  show ?thesis
    using assms(1)
    by (simp add: finSeg_def extendSegment_def Let_def getLastPoint_def c2 c3 p js_sub_def)
qed

lemma updateDistanceField_finState:
  assumes "finState cv" and "finVec p" and "updateDistanceField cv p = Inr (cv', sg')"
  shows "finState cv' \<and> finSeg sg' \<and> getLastSegment cv' = Some sg'"
proof -
  obtain sg where last: "getLastSegment cv = Some sg" and sg: "finSeg sg" "constraintOk sg"
    and vd0: "finField (vdmap cv)"
    using assms(1) by (auto simp: finState_def split: option.splits)
  from last assms(3) show ?thesis
  proof (cases rule: updateDistanceField_cases)
    case corner
    then show ?thesis using sg vd0 by (simp add: finState_def)
  next
    case (maxed vd)
    have "finField vd" using vd0 _ assms(2) maxed(2)
      by (rule paintField_finField) (use sg(1) in \<open>simp add: finSeg_def\<close>)
    moreover have "finSeg sg'" using sg(1) by (simp add: maxed(4) finSeg_def)
    moreover have "constraintOk sg'" using sg(2) by (simp add: maxed(4) constraintOk_def)
    ultimately show ?thesis by (simp add: finState_def maxed(5))
  next
    case (success vd)
    have fvd: "finField vd" using vd0 _ assms(2) success(2)
      by (rule paintField_finField) (use sg(1) in \<open>simp add: finSeg_def\<close>)
    have ext: "finSeg (extendSegment sg p)" using sg(1) assms(2) by (rule finSeg_extendSegment)
    have ct: "case constrain_to (extendSegment sg p) of None \<Rightarrow> True | Some ct \<Rightarrow> finVec ct"
    proof (cases "constrain_to sg")
      case None
      then show ?thesis by simp
    next
      case (Some ct)
      have "ct \<noteq> Vec NaN NaN"
      proof
        assume "ct = Vec NaN NaN"
        then have "snd (refine vd (extendSegment sg p) 0) = Suc MAX_ITERATIONS"
          using Some fvd by (intro refine_NaN_constraint) (simp_all add: finField_def)
        then show False using success(3) by simp
      qed
      then show ?thesis using sg(2) Some by (simp add: constraintOk_def)
    qed
    have "finSeg (fst (refine vd (extendSegment sg p) 0))" using fvd ext ct by (rule finSeg_refine)
    moreover have "constraintOk sg'"
      using sg(2) by (simp add: success(4) constraintOk_def refine_frame)
    ultimately show ?thesis using fvd by (simp add: finState_def success(4,5))
  qed
qed

section \<open>Runs on finite points\<close>

lemma getCurveEndTangent_finite:
  assumes "finSeg sg"
  shows "finVec (getCurveEndTangent sg)"
proof -
  obtain a b where c2: "c2 sg = Vec (Num a) (Num b)" using assms finVec_iff finSeg_def by blast
  obtain c d where c3: "c3 sg = Vec (Num c) (Num d)" using assms finVec_iff finSeg_def by blast
  show ?thesis by (simp add: getCurveEndTangent_def Let_def c2 c3 js_sub_def)
qed

lemma finState_prepared:
  assumes "getLastSegment cv = Some sg" and "finState cv"
  shows "finState (prepared cv sg)"
proof -
  have sg: "finSeg sg" using assms by (simp add: finState_def)
  consider "update_status sg = None \<or> update_status sg = Some SUCCESS"
    | "update_status sg = Some FAIL_CORNER \<or> update_status sg = Some FAIL_MAXED"
    using status_cases by blast
  then show ?thesis
  proof cases
    case 1
    then show ?thesis using assms(2) by (simp add: prepared_kept)
  next
    case 2
    obtain a b where t: "getCurveEndTangent sg = Vec (Num a) (Num b)"
      using getCurveEndTangent_finite[OF sg] finVec_iff by blast
    have "constraintOk (newSegment sg)"
      using getUnitVector_finite_or_NaN[of a b]
      by (auto simp: constraintOk_def newSegment_def t)
    moreover have "finSeg (newSegment sg)" using sg by (simp add: finSeg_def)
    ultimately show ?thesis
      by (simp add: prepared_failed[OF 2] finState_def finField_def)
  qed
qed

lemma addToCurve_finState:
  assumes "finState cv" and "finVec p" and "addToCurve cv p = Inr (cv', sg')"
  shows "finState cv' \<and> finSeg sg' \<and> getLastSegment cv' = Some sg'"
proof -
  obtain sg where last: "getLastSegment cv = Some sg" and sg: "finSeg sg"
    using assms(1) by (auto simp: finState_def split: option.splits)
  have fp: "finVec (roundVec p)" using assms(2) by (rule finVec_roundVec)
  show ?thesis
  proof (cases "js_lt (getMagnitude (roundVec p) (c3 sg)) RADIAL_SIMPLIFICATION")
    case True
    have "addToCurve cv p = Inr (cv, sg)"
      using addToCurveImpl_duplicate[OF last True] by (auto simp: addToCurve_def Let_def)
    then show ?thesis using assms(1,3) last sg by simp
  next
    case far: False
    obtain sgA where sgA: "getLastSegment (prepared cv sg) = Some sgA"
      using prepared_last[OF last] by blast
    have impl: "addToCurveImpl cv (roundVec p) = updateDistanceField (prepared cv sg) (roundVec p)"
      by (rule addToCurveImpl_fit[OF last far])
    obtain cv1 sg1 where first: "updateDistanceField (prepared cv sg) (roundVec p) = Inr (cv1, sg1)"
      using assms(3) impl by (cases "updateDistanceField (prepared cv sg) (roundVec p)")
        (auto simp: addToCurve_def Let_def)
    have f1: "finState cv1 \<and> finSeg sg1 \<and> getLastSegment cv1 = Some sg1"
      using finState_prepared[OF last assms(1)] fp first by (rule updateDistanceField_finState)
    show ?thesis
    proof (cases "update_status sg1 = Some SUCCESS")
      case True
      then have "cv' = cv1" "sg' = sg1"
        using addToCurve_second_attempt[OF last far first] assms(3) by simp_all
      then show ?thesis using f1 by simp
    next
      case False
      have st: "update_status sg1 = Some FAIL_CORNER \<or> update_status sg1 = Some FAIL_MAXED"
        using False updateDistanceField_result(4)[OF sgA first] status_cases[of sg1] by auto
      have second: "updateDistanceField (prepared cv1 sg1) (roundVec p) = Inr (cv', sg')"
        using addToCurve_second_attempt[OF last far first] assms(3) False
        by (simp add: prepared_failed[OF st])
      have "finState (prepared cv1 sg1)" using f1 by (intro finState_prepared) simp_all
      then show ?thesis using fp second by (rule updateDistanceField_finState)
    qed
  qed
qed

lemma finState_startCurve: "finVec p \<Longrightarrow> finState (startCurve p)"
  by (auto simp: finVec_iff finState_def startCurve_def createCurve_def initCurve_def
      getLastSegment_def initCurveSegment_def roundVec_def finSeg_def constraintOk_def
      finField_def)

lemma finState_addAll:
  "finState cv \<Longrightarrow> \<forall>q\<in>set ps. finVec q \<Longrightarrow> addAll cv ps = Inr cv' \<Longrightarrow> finState cv'"
proof (induction ps arbitrary: cv)
  case Nil
  then show ?case by simp
next
  case (Cons p ps)
  obtain cv1 sg1 where step: "addToCurve cv p = Inr (cv1, sg1)" and rest: "addAll cv1 ps = Inr cv'"
    using Cons.prems(3) by (auto split: sum.splits)
  have "finState cv1" using addToCurve_finState[OF Cons.prems(1) _ step] Cons.prems(2) by simp
  then show ?case using Cons.prems(2) rest by (intro Cons.IH) simp_all
qed

lemma updateDistanceField_constrain_to:
  assumes "getLastSegment cv = Some sg" and "updateDistanceField cv p = Inr (cv', sg')"
  shows "constrain_to sg' = constrain_to sg"
  using assms(1,2)
  by (cases rule: updateDistanceField_cases) (simp_all add: refine_frame)

section \<open>The constrained control point\<close>

lemma refine_is_rounds: "\<exists>k. fst (refine vd sg n) = rounds vd sg n (Suc k)"
proof (induction vd sg n rule: refine.induct)
  case (1 vd sg n)
  show ?case
  proof (cases "js_lt (fst (snd (refine_step vd sg n))) MAX_ERROR \<or> snd (snd (refine_step vd sg n)) > MAX_ITERATIONS")
    case True
    then have "fst (refine vd sg n) = rounds vd sg n (Suc 0)"
      by (subst refine.simps) (auto simp: Let_def)
    then show ?thesis by blast
  next
    case False
    then obtain k where "fst (refine vd (fst (refine_step vd sg n)) (snd (snd (refine_step vd sg n)))) =
        rounds vd (fst (refine_step vd sg n)) (snd (snd (refine_step vd sg n))) (Suc k)"
      using "1.IH"[OF refl refl refl refl] by blast
    then have "fst (refine vd sg n) = rounds vd sg n (Suc (Suc k))"
      using False by (subst refine.simps) (auto simp: Let_def refine_step_snd)
    then show ?thesis by blast
  qed
qed

lemma colinear_refine_step:
  assumes "finField vd" and "finSeg sg" and "colinear sg"
  shows "colinear (fst (refine_step vd sg n))"
proof (cases "constrain_to sg")
  case None
  then show ?thesis by (simp add: colinear_def refine_step_frame)
next
  case (Some ct)
  then obtain k where fct: "finVec ct" and k: "subVec (c1 sg) (c0 sg) = multVec ct (Num k)"
    using assms(3) by (auto simp: colinear_def)
  obtain p q where ct: "ct = Vec (Num p) (Num q)" using fct finVec_iff by blast
  obtain a b where c0: "c0 sg = Vec (Num a) (Num b)" using assms(2) finVec_iff finSeg_def by blast
  obtain c d where c3: "c3 sg = Vec (Num c) (Num d)" using assms(2) finVec_iff finSeg_def by blast
  obtain e f where c1: "c1 sg = Vec (Num e) (Num f)" using assms(2) finVec_iff finSeg_def by blast
  let ?ff = "fold (force_sample vd sg) [0..<NUM_SAMPLE_POINTS]
               (Vec (Num 0) (Num 0), Vec (Num 0) (Num 0))"
  have "finVec (fst ?ff)"
    using fold_force_sample_finite[OF assms(1), of "(Vec (Num 0) (Num 0), Vec (Num 0) (Num 0))"]
    by simp
  then obtain g h where f1: "fst ?ff = Vec (Num g) (Num h)" using finVec_iff by blast
  from k have ke: "e - a = p * k" "f - b = q * k"
    by (simp_all add: c0 c1 ct subVec_def addVec_def negateVec_def multVec_def)
  define r where "r = p * (g - ((c - a) * (1 / 2) + a - e) * (3 / 100)) +
                      q * (h - ((d - b) * (1 / 2) + b - f) * (3 / 100))"
  have c1': "c1 (fst (refine_step vd sg n)) =
        Vec (Num (e - 1 * (p * r) * 6 / 9)) (Num (f - 1 * (q * r) * 6 / 9))"
    by (simp add: refine_step_def Let_def f1[unfolded NUM_SAMPLE_POINTS_def] c1 Some ct
        getSegmentMidpoint_Num[OF c0 c3] SHOULD_USE_MY_FORCE_VECTORS_def subVec_def addVec_def
        negateVec_def multVec_def dotProduct_def js_sub_def NUM_SAMPLE_POINTS_def r_def)
  have "subVec (c1 (fst (refine_step vd sg n))) (c0 (fst (refine_step vd sg n))) =
        multVec ct (Num (k - r * 6 / 9))"
    using ke
    by (simp add: c1' refine_step_frame c0 ct subVec_def addVec_def negateVec_def multVec_def
        algebra_simps)
  then show ?thesis using fct Some by (auto simp: colinear_def refine_step_frame)
qed

lemma colinear_rounds:
  assumes "finField vd" and "finSeg sg" and "colinear sg"
  shows "colinear (rounds vd sg n k) \<and> finSeg (rounds vd sg n k)"
  using assms(2,3)
proof (induction k arbitrary: sg n)
  case 0
  then show ?case by simp
next
  case (Suc k)
  have ct: "case constrain_to sg of None \<Rightarrow> True | Some ct \<Rightarrow> finVec ct"
    using Suc.prems(2) by (auto simp: colinear_def split: option.splits)
  have "finSeg (fst (refine_step vd sg n))"
    using assms(1) Suc.prems(1) ct by (rule finSeg_refine_step)
  moreover have "colinear (fst (refine_step vd sg n))"
    using assms(1) Suc.prems by (rule colinear_refine_step)
  ultimately show ?case using Suc.IH by simp
qed

lemma colinear_update [simp]:
  "colinear (sg\<lparr>update_status := s\<rparr>) = colinear sg"
  "colinear (sg\<lparr>error := e\<rparr>) = colinear sg"
  by (simp_all add: colinear_def split: option.splits)

lemma colinear_extendSegment: "colinear (extendSegment sg p) = colinear sg"
  by (simp add: colinear_def split: option.splits)

lemma updateDistanceField_colinear:
  assumes "getLastSegment cv = Some sg" and "finSeg sg" and "colinear sg"
    and "finField (vdmap cv)" and "finVec p"
    and "updateDistanceField cv p = Inr (cv', sg')"
  shows "colinear sg'"
  using assms(1,6)
proof (cases rule: updateDistanceField_cases)
  case corner
  then show ?thesis using assms(3) by simp
next
  case (maxed vd)
  then show ?thesis using assms(3) by (simp add: colinear_def split: option.splits)
next
  case (success vd)
  have fvd: "finField vd" using assms(4) _ assms(5) success(2)
    by (rule paintField_finField) (use assms(2) in \<open>simp add: finSeg_def\<close>)
  have ext: "finSeg (extendSegment sg p)" using assms(2,5) by (rule finSeg_extendSegment)
  obtain k where "fst (refine vd (extendSegment sg p) 0) = rounds vd (extendSegment sg p) 0 (Suc k)"
    using refine_is_rounds by blast
  then show ?thesis
    using colinear_rounds[OF fvd ext, of 0 "Suc k"] assms(3)
    by (simp add: success(4) colinear_extendSegment del: rounds.simps)
qed

section \<open>The round count of a failed fit, and whole runs\<close>

lemma updateDistanceField_failmaxed_steps:
  assumes "getLastSegment cv = Some sg" and "updateDistanceField cv p = Inr (cv', sg')"
    and "update_status sg' = Some FAIL_MAXED"
  shows "steps sg' = Some (Suc MAX_ITERATIONS)"
  using assms(1,2)
proof (cases rule: updateDistanceField_cases)
  case corner
  then show ?thesis using assms(3) by simp
next
  case (maxed vd)
  have "snd (refine vd (extendSegment sg p) 0) \<le> Suc MAX_ITERATIONS"
    by (rule refine_count_le) simp
  then have "snd (refine vd (extendSegment sg p) 0) = Suc MAX_ITERATIONS"
    using maxed(3) by simp
  then show ?thesis by (simp add: maxed(4) refine_steps_field)
next
  case (success vd)
  then show ?thesis using assms(3) by simp
qed

lemma addAll_returns:
  "finState cv \<Longrightarrow> \<forall>q\<in>set ps. finVec q \<Longrightarrow> \<exists>cv'. addAll cv ps = Inr cv'"
proof (induction ps arbitrary: cv)
  case Nil
  then show ?case by simp
next
  case (Cons p ps)
  obtain sg where last: "getLastSegment cv = Some sg" and sg: "finSeg sg"
    using Cons.prems(1) by (auto simp: finState_def split: option.splits)
  have fp: "finVec p" using Cons.prems(2) by simp
  obtain cv1 sg1 where step: "addToCurve cv p = Inr (cv1, sg1)"
    using addToCurve_returns[OF last _ fp] sg by (auto simp: finSeg_def)
  have "finState cv1" using addToCurve_finState[OF Cons.prems(1) fp step] by simp
  then have "\<exists>cv'. addAll cv1 ps = Inr cv'" using Cons.prems(2) by (intro Cons.IH) simp_all
  then show ?case using step by simp
qed

section \<open>The corner test as an angle\<close>











section \<open>Constraints along a run\<close>

lemma linked_replace_last:
  assumes "linked (xs @ [a])" and "constrain_to b = constrain_to a"
  shows "linked (xs @ [b])"
  unfolding linked_def
proof (intro allI impI)
  fix i
  assume i: "Suc i < length (xs @ [b])" and st: "update_status ((xs @ [b]) ! i) = Some FAIL_MAXED"
  from i have lt: "i < length xs" by simp
  have "Suc i < length (xs @ [a])" using i by simp
  moreover have "update_status ((xs @ [a]) ! i) = Some FAIL_MAXED"
    using st lt by (simp add: nth_append)
  ultimately have "constrain_to ((xs @ [a]) ! Suc i) =
      Some (getUnitVector (getCurveEndTangent ((xs @ [a]) ! i)))"
    using assms(1) by (simp add: linked_def)
  then show "constrain_to ((xs @ [b]) ! Suc i) =
      Some (getUnitVector (getCurveEndTangent ((xs @ [b]) ! i)))"
    using lt assms(2) by (auto simp: nth_append)
qed

lemma linked_push:
  assumes "linked (xs @ [a])"
    and "update_status a = Some FAIL_MAXED \<longrightarrow>
           constrain_to b = Some (getUnitVector (getCurveEndTangent a))"
  shows "linked (xs @ [a, b])"
  unfolding linked_def
proof (intro allI impI)
  fix i
  assume i: "Suc i < length (xs @ [a, b])"
    and st: "update_status ((xs @ [a, b]) ! i) = Some FAIL_MAXED"
  show "constrain_to ((xs @ [a, b]) ! Suc i) =
      Some (getUnitVector (getCurveEndTangent ((xs @ [a, b]) ! i)))"
  proof (cases "i = length xs")
    case True
    then show ?thesis using st assms(2) by (simp add: nth_append)
  next
    case False
    then have lt: "i < length xs" using i by simp
    have eq: "(xs @ [a, b]) ! i = (xs @ [a]) ! i" "(xs @ [a, b]) ! Suc i = (xs @ [a]) ! Suc i"
      using lt by (auto simp: nth_append)
    have "Suc i < length (xs @ [a])" using lt by simp
    then show ?thesis using assms(1) st unfolding eq by (simp add: linked_def)
  qed
qed

lemma segments_last:
  assumes "getLastSegment cv = Some sg"
  obtains xs where "segments cv = xs @ [sg]" "butlast (segments cv) = xs"
proof -
  have "segments cv = butlast (segments cv) @ [sg]"
    using assms by (auto simp: getLastSegment_def split: if_splits)
  then show ?thesis using that by simp
qed

lemma linked_prepared:
  assumes "getLastSegment cv = Some sg" and "linked (segments cv)"
  shows "linked (segments (prepared cv sg))"
proof -
  obtain xs where xs: "segments cv = xs @ [sg]" "butlast (segments cv) = xs"
    using assms(1) by (rule segments_last)
  consider "update_status sg = None \<or> update_status sg = Some SUCCESS"
    | "update_status sg = Some FAIL_CORNER \<or> update_status sg = Some FAIL_MAXED"
    using status_cases by blast
  then show ?thesis
  proof cases
    case 1
    then show ?thesis using assms(2) by (simp add: prepared_kept)
  next
    case 2
    have "linked (xs @ [sg, newSegment sg])"
    proof (rule linked_push)
      show "linked (xs @ [sg])" using assms(2) by (simp add: xs(1))
      show "update_status sg = Some FAIL_MAXED \<longrightarrow>
          constrain_to (newSegment sg) = Some (getUnitVector (getCurveEndTangent sg))"
        by (simp add: newSegment_def)
    qed
    then show ?thesis by (simp add: prepared_failed[OF 2] xs(1))
  qed
qed

lemma linked_updateDistanceField:
  assumes "getLastSegment cv = Some sg" and "updateDistanceField cv p = Inr (cv', sg')"
    and "linked (segments cv)"
  shows "linked (segments cv')"
proof -
  obtain xs where xs: "segments cv = xs @ [sg]" "butlast (segments cv) = xs"
    using assms(1) by (rule segments_last)
  have "linked (xs @ [sg'])"
  proof (rule linked_replace_last)
    show "linked (xs @ [sg])" using assms(3) by (simp add: xs(1))
    show "constrain_to sg' = constrain_to sg"
      by (rule updateDistanceField_constrain_to[OF assms(1,2)])
  qed
  then show ?thesis using updateDistanceField_result(2)[OF assms(1,2)] by (simp add: xs(2))
qed

lemma addToCurveImpl_cases:
  assumes "addToCurveImpl cv q = Inr (cv', sg')"
  obtains (duplicate) sg where "getLastSegment cv = Some sg"
      "js_lt (getMagnitude q (c3 sg)) RADIAL_SIMPLIFICATION" "cv' = cv" "sg' = sg"
  | (fit) sg sgA where "getLastSegment cv = Some sg"
      "\<not> js_lt (getMagnitude q (c3 sg)) RADIAL_SIMPLIFICATION"
      "getLastSegment (prepared cv sg) = Some sgA"
      "updateDistanceField (prepared cv sg) q = Inr (cv', sg')"
proof -
  obtain sg where last: "getLastSegment cv = Some sg"
    using assms by (cases "getLastSegment cv") (simp_all add: addToCurveImpl_def)
  show ?thesis
  proof (cases "js_lt (getMagnitude q (c3 sg)) RADIAL_SIMPLIFICATION")
    case True
    then show ?thesis using addToCurveImpl_duplicate[OF last True] assms duplicate[OF last True] by simp
  next
    case False
    obtain sgA where "getLastSegment (prepared cv sg) = Some sgA"
      using prepared_last[OF last] by blast
    then show ?thesis using addToCurveImpl_fit[OF last False] assms fit[OF last False] by simp
  qed
qed

lemma linked_addToCurveImpl:
  assumes "addToCurveImpl cv q = Inr (cv', sg')" and "linked (segments cv)"
  shows "linked (segments cv')"
  using assms(1)
proof (cases rule: addToCurveImpl_cases)
  case (duplicate sg)
  then show ?thesis using assms(2) by simp
next
  case (fit sg sgA)
  show ?thesis
    using fit(3,4) linked_prepared[OF fit(1) assms(2)] by (rule linked_updateDistanceField)
qed

lemma addToCurve_cases:
  assumes "addToCurve cv p = Inr (cv', sg')"
  obtains (once) "addToCurveImpl cv (roundVec p) = Inr (cv', sg')"
      "update_status sg' = Some SUCCESS" "attempts cv p = [cv]"
  | (twice) cv1 sg1 where "addToCurveImpl cv (roundVec p) = Inr (cv1, sg1)"
      "update_status sg1 \<noteq> Some SUCCESS" "addToCurveImpl cv1 (roundVec p) = Inr (cv', sg')"
      "attempts cv p = [cv, cv1]"
  using assms
  by (auto simp: addToCurve_def attempts_def Let_def split: sum.splits if_splits)

lemma linked_addToCurve:
  assumes "addToCurve cv p = Inr (cv', sg')" and "linked (segments cv)"
  shows "linked (segments cv')"
  using assms(1)
proof (cases rule: addToCurve_cases)
  case once
  then show ?thesis using assms(2) linked_addToCurveImpl by blast
next
  case (twice cv1 sg1)
  then show ?thesis using assms(2) linked_addToCurveImpl by blast
qed

lemma linked_addAll:
  "addAll cv ps = Inr cv' \<Longrightarrow> linked (segments cv) \<Longrightarrow> linked (segments cv')"
proof (induction ps arbitrary: cv)
  case Nil
  then show ?case by simp
next
  case (Cons p ps)
  obtain cv1 sg1 where step: "addToCurve cv p = Inr (cv1, sg1)" and rest: "addAll cv1 ps = Inr cv'"
    using Cons.prems(1) by (auto split: sum.splits)
  have "linked (segments cv1)" using step Cons.prems(2) by (rule linked_addToCurve)
  with rest show ?case by (rule Cons.IH)
qed

lemma tangents_back_prepared:
  "tangents_nonzero (prepared cv sg) \<Longrightarrow> tangents_nonzero cv"
  by (auto simp: tangents_nonzero_def prepared_def split: option.splits UpdateStatus.splits)

lemma prepared_last_status:
  assumes "getLastSegment cv = Some sg" and "getLastSegment (prepared cv sg) = Some sgA"
  shows "update_status sgA \<noteq> Some FAIL_MAXED"
proof -
  consider "update_status sg = None \<or> update_status sg = Some SUCCESS"
    | "update_status sg = Some FAIL_CORNER \<or> update_status sg = Some FAIL_MAXED"
    using status_cases by blast
  then show ?thesis
  proof cases
    case 1
    then show ?thesis using assms by (auto simp: prepared_kept)
  next
    case 2
    then show ?thesis using assms(2) by (auto simp: prepared_failed)
  qed
qed

lemma tangents_back_updateDistanceField:
  assumes "getLastSegment cv = Some sg" and "updateDistanceField cv p = Inr (cv', sg')"
    and "update_status sg \<noteq> Some FAIL_MAXED" and "tangents_nonzero cv'"
  shows "tangents_nonzero cv"
proof -
  obtain xs where xs: "segments cv = xs @ [sg]" "butlast (segments cv) = xs"
    using assms(1) by (rule segments_last)
  have "segments cv' = xs @ [sg']"
    using updateDistanceField_result(2)[OF assms(1,2)] by (simp add: xs(2))
  then show ?thesis using assms(3,4) by (auto simp: tangents_nonzero_def xs(1))
qed

lemma tangents_back_addToCurveImpl:
  assumes "addToCurveImpl cv q = Inr (cv', sg')" and "tangents_nonzero cv'"
  shows "tangents_nonzero cv"
  using assms(1)
proof (cases rule: addToCurveImpl_cases)
  case (duplicate sg)
  then show ?thesis using assms(2) by simp
next
  case (fit sg sgA)
  have "tangents_nonzero (prepared cv sg)"
    using fit(3,4) prepared_last_status[OF fit(1,3)] assms(2)
    by (rule tangents_back_updateDistanceField)
  then show ?thesis by (rule tangents_back_prepared)
qed

lemma tangents_back_addToCurve:
  assumes "addToCurve cv p = Inr (cv', sg')" and "tangents_nonzero cv'"
  shows "tangents_nonzero cv"
  using assms(1)
proof (cases rule: addToCurve_cases)
  case once
  then show ?thesis using assms(2) tangents_back_addToCurveImpl by blast
next
  case (twice cv1 sg1)
  then show ?thesis using assms(2) tangents_back_addToCurveImpl by blast
qed

lemma tangents_back_addAll:
  "addAll cv ps = Inr cv' \<Longrightarrow> tangents_nonzero cv' \<Longrightarrow> tangents_nonzero cv"
proof (induction ps arbitrary: cv)
  case Nil
  then show ?case by simp
next
  case (Cons p ps)
  obtain cv1 sg1 where step: "addToCurve cv p = Inr (cv1, sg1)" and rest: "addAll cv1 ps = Inr cv'"
    using Cons.prems(1) by (auto split: sum.splits)
  have "tangents_nonzero cv1" using rest Cons.prems(2) by (rule Cons.IH)
  with step show ?case by (rule tangents_back_addToCurve)
qed

text \<open>The prepared curve of a settled curve is settled.\<close>

lemma colinear_newSegment:
  assumes "finSeg sg" and "update_status sg = Some FAIL_MAXED \<longrightarrow> c2 sg \<noteq> c3 sg"
  shows "colinear (newSegment sg)"
proof (cases "update_status sg = Some FAIL_MAXED")
  case False
  then show ?thesis by (simp add: colinear_def newSegment_def initCurveSegment_def)
next
  case True
  obtain a b where c2: "c2 sg = Vec (Num a) (Num b)" using assms(1) finVec_iff finSeg_def by blast
  obtain c d where c3: "c3 sg = Vec (Num c) (Num d)" using assms(1) finVec_iff finSeg_def by blast
  have ne: "\<not> (3 * (a - c) = 0 \<and> 3 * (b - d) = 0)" using assms(2) True c2 c3 by auto
  have ct: "finVec (getUnitVector (getCurveEndTangent sg))"
    using ne by (simp add: getCurveEndTangent_def Let_def c2 c3 js_sub_def getUnitVector_Num)
  have "subVec (c1 (newSegment sg)) (c0 (newSegment sg)) =
        multVec (getUnitVector (getCurveEndTangent sg)) (Num 0)"
    using ct by (auto simp: finVec_iff c3 subVec_def addVec_def negateVec_def multVec_def)
  then show ?thesis using ct True by (auto simp: colinear_def newSegment_def)
qed

lemma settled_prepared:
  assumes "settled cv" and "tangents_nonzero cv" and "getLastSegment cv = Some sg"
  shows "settled (prepared cv sg)"
proof -
  have fs: "finState cv" and ln: "linked (segments cv)" and co: "\<forall>s\<in>set (segments cv). colinear s"
    using assms(1) by (simp_all add: settled_def)
  obtain xs where xs: "segments cv = xs @ [sg]" "butlast (segments cv) = xs"
    using assms(3) by (rule segments_last)
  have sg: "finSeg sg" using fs assms(3) by (simp add: finState_def)
  have t: "update_status sg = Some FAIL_MAXED \<longrightarrow> c2 sg \<noteq> c3 sg"
    using assms(2) by (simp add: tangents_nonzero_def xs(1))
  have "\<forall>s\<in>set (segments (prepared cv sg)). colinear s"
  proof (cases "update_status sg = Some FAIL_CORNER \<or> update_status sg = Some FAIL_MAXED")
    case True
    then show ?thesis using co colinear_newSegment[OF sg t] by (simp add: prepared_failed)
  next
    case False
    then have "prepared cv sg = cv" using status_cases[of sg] by (intro prepared_kept) auto
    then show ?thesis using co by simp
  qed
  then show ?thesis
    using finState_prepared[OF assms(3) fs] linked_prepared[OF assms(3) ln]
    by (simp add: settled_def)
qed

lemma settled_updateDistanceField:
  assumes "settled cv" and "finVec p" and "updateDistanceField cv p = Inr (cv', sg')"
  shows "settled cv'"
proof -
  have fs: "finState cv" and ln: "linked (segments cv)" and co: "\<forall>s\<in>set (segments cv). colinear s"
    using assms(1) by (simp_all add: settled_def)
  obtain sg where last: "getLastSegment cv = Some sg" and sg: "finSeg sg"
    and vd0: "finField (vdmap cv)"
    using fs by (auto simp: finState_def split: option.splits)
  obtain xs where xs: "segments cv = xs @ [sg]" "butlast (segments cv) = xs"
    using last by (rule segments_last)
  have "colinear sg" using co by (simp add: xs(1))
  then have "colinear sg'"
    by (rule updateDistanceField_colinear[OF last sg _ vd0 assms(2,3)])
  moreover have "segments cv' = xs @ [sg']"
    using updateDistanceField_result(2)[OF last assms(3)] by (simp add: xs(2))
  ultimately have "\<forall>s\<in>set (segments cv'). colinear s" using co by (auto simp: xs(1))
  then show ?thesis
    using updateDistanceField_finState[OF fs assms(2,3)]
      linked_updateDistanceField[OF last assms(3) ln]
    by (simp add: settled_def)
qed

lemma settled_addToCurveImpl:
  assumes "settled cv" and "finVec q" and "addToCurveImpl cv q = Inr (cv', sg')"
    and "tangents_nonzero cv"
  shows "settled cv'"
  using assms(3)
proof (cases rule: addToCurveImpl_cases)
  case (duplicate sg)
  then show ?thesis using assms(1) by simp
next
  case (fit sg sgA)
  have "settled (prepared cv sg)" using assms(1,4) fit(1) by (rule settled_prepared)
  then show ?thesis using assms(2) fit(4) by (rule settled_updateDistanceField)
qed

lemma settled_addToCurve:
  assumes "settled cv" and "finVec p" and "addToCurve cv p = Inr (cv', sg')"
    and "tangents_nonzero cv'"
  shows "settled cv'"
proof -
  have fp: "finVec (roundVec p)" using assms(2) by (rule finVec_roundVec)
  from assms(3) show ?thesis
  proof (cases rule: addToCurve_cases)
    case once
    have "tangents_nonzero cv" using once(1) assms(4) by (rule tangents_back_addToCurveImpl)
    with assms(1) fp once(1) show ?thesis by (rule settled_addToCurveImpl)
  next
    case (twice cv1 sg1)
    have t1: "tangents_nonzero cv1" using twice(3) assms(4) by (rule tangents_back_addToCurveImpl)
    have t0: "tangents_nonzero cv" using twice(1) t1 by (rule tangents_back_addToCurveImpl)
    have "settled cv1" using assms(1) fp twice(1) t0 by (rule settled_addToCurveImpl)
    then show ?thesis using fp twice(3) t1 by (rule settled_addToCurveImpl)
  qed
qed

lemma settled_addAll:
  "settled cv \<Longrightarrow> \<forall>q\<in>set ps. finVec q \<Longrightarrow> addAll cv ps = Inr cv' \<Longrightarrow>
   tangents_nonzero cv' \<Longrightarrow> settled cv'"
proof (induction ps arbitrary: cv)
  case Nil
  then show ?case by simp
next
  case (Cons p ps)
  obtain cv1 sg1 where step: "addToCurve cv p = Inr (cv1, sg1)" and rest: "addAll cv1 ps = Inr cv'"
    using Cons.prems(3) by (auto split: sum.splits)
  have "tangents_nonzero cv1" using rest Cons.prems(4) by (rule tangents_back_addAll)
  then have "settled cv1" using settled_addToCurve[OF Cons.prems(1) _ step] Cons.prems(2) by simp
  then show ?case using Cons.prems(2,4) rest by (intro Cons.IH) simp_all
qed

lemma settled_startCurve: "finVec p \<Longrightarrow> settled (startCurve p)"
  using finState_startCurve[of p]
  by (simp add: settled_def linked_def colinear_def startCurve_def createCurve_def initCurve_def
      initCurveSegment_def)

text \<open>Every round of the loop of a call on a settled curve.\<close>

lemma fitRounds_colinear:
  assumes "settled cv" and "tangents_nonzero cv" and "finVec q"
    and "fitRounds cv q k = Some s"
  shows "colinear s"
proof -
  obtain sg where last: "getLastSegment cv = Some sg"
    using assms(4) by (cases "getLastSegment cv") (simp_all add: fitRounds_def)
  have st: "settled (prepared cv sg)" using assms(1,2) last by (rule settled_prepared)
  obtain sgA where lastA: "getLastSegment (prepared cv sg) = Some sgA"
    using prepared_last[OF last] by blast
  obtain vd where vd: "paintField (vdmap (prepared cv sg)) (c3 sgA) q = Inr vd"
    and s: "s = rounds vd (extendSegment sgA q) 0 k"
    using assms(4) last lastA
    by (auto simp: fitRounds_def getLastPoint_def split: if_splits sum.splits)
  have fs: "finState (prepared cv sg)" using st by (simp add: settled_def)
  have sgA: "finSeg sgA" and vd0: "finField (vdmap (prepared cv sg))"
    using fs lastA by (simp_all add: finState_def)
  obtain xs where xs: "segments (prepared cv sg) = xs @ [sgA]"
    using lastA by (rule segments_last)
  have co: "colinear sgA" using st by (simp add: settled_def xs)
  have fvd: "finField vd" using vd0 _ assms(3) vd
    by (rule paintField_finField) (use sgA in \<open>simp add: finSeg_def\<close>)
  show ?thesis
    unfolding s
    using colinear_rounds[OF fvd finSeg_extendSegment[OF sgA assms(3)]] co
    by (simp add: colinear_extendSegment)
qed

section \<open>A constrained fit, evaluated\<close>

lemma getPointAlongCurve_cong:
  assumes "c0 sg' = c0 sg" and "c1 sg' = c1 sg" and "c2 sg' = c2 sg" and "c3 sg' = c3 sg"
  shows "getPointAlongCurve sg' t = getPointAlongCurve sg t"
  using assms by (simp add: getPointAlongCurve_def)

lemma pulled_on_path:
  assumes "c0 sg = c0 unit_segment" and "c1 sg = c1 unit_segment"
    and "c2 sg = c2 unit_segment" and "c3 sg = c3 unit_segment"
  shows "\<forall>i\<in>set [0..<NUM_SAMPLE_POINTS].
     getDistanceFromPolyline unit_field (roundVec (getPointAlongCurve sg (sample_t i))) =
       Vec (Num 0) (Num 0)"
  using unit_segment_on_path by (simp add: getPointAlongCurve_cong[OF assms])

lemma pulled_fitted_on_path:
  assumes "c0 sg = c0 fitted_segment" and "c1 sg = c1 fitted_segment"
    and "c2 sg = c2 fitted_segment" and "c3 sg = c3 fitted_segment"
  shows "\<forall>i\<in>set [0..<NUM_SAMPLE_POINTS].
     getDistanceFromPolyline unit_field (roundVec (getPointAlongCurve sg (sample_t i))) =
       Vec (Num 0) (Num 0)"
proof -
  have "getPointAlongCurve sg t = getPointAlongCurve (fitted_segment\<lparr>error := None, steps := None\<rparr>) t"
    for t by (rule getPointAlongCurve_cong) (simp_all add: assms)
  then show ?thesis using fitted_segment_on_path by simp
qed

lemma refine_step_pulled:
  "refine_step unit_field (unit_segment\<lparr>constrain_to := Some (Vec (Num (- 1)) (Num 0))\<rparr>) 0 =
     (fitted_segment\<lparr>constrain_to := Some (Vec (Num (- 1)) (Num 0))\<rparr>, Num 0, 1)"
proof -
  let ?sg = "unit_segment\<lparr>constrain_to := Some (Vec (Num (- 1)) (Num 0))\<rparr>"
  have f: "fold (force_sample unit_field ?sg) [0..<NUM_SAMPLE_POINTS]
             (Vec (Num 0) (Num 0), Vec (Num 0) (Num 0)) =
           (Vec (Num 0) (Num 0), Vec (Num 0) (Num 0))"
    by (rule fold_force_on_path, rule pulled_on_path) simp_all
  have e: "fold (error_sample unit_field
                   (fitted_segment\<lparr>error := None, steps := None,
                                    constrain_to := Some (Vec (Num (- 1)) (Num 0))\<rparr>))
             [0..<NUM_SAMPLE_POINTS] (Num 0) = Num 0"
    by (rule fold_error_on_path, rule pulled_fitted_on_path) simp_all
  have mid: "getSegmentMidpoint ?sg = Vec (Num (1 / 2)) (Num 0)"
    by (simp add: getSegmentMidpoint_def unit_segment_def subVec_def addVec_def negateVec_def
        divVec_def multVec_def)
  show ?thesis
    using e
    unfolding refine_step_def Let_def f fst_conv snd_conv mid
    by (simp add: SHOULD_USE_MY_FORCE_VECTORS_def subVec_def addVec_def negateVec_def multVec_def
        dotProduct_def js_sub_def NUM_SAMPLE_POINTS_def unit_segment_def fitted_segment_def)
qed

lemma refine_pulled:
  "refine unit_field (unit_segment\<lparr>constrain_to := Some (Vec (Num (- 1)) (Num 0))\<rparr>) 0 =
     (fitted_segment\<lparr>constrain_to := Some (Vec (Num (- 1)) (Num 0))\<rparr>, 1)"
  by (subst refine.simps) (simp add: refine_step_pulled MAX_ERROR_def)

lemma spent_curve_last: "getLastSegment spent_curve = Some spent_segment"
  by (simp add: getLastSegment_def spent_curve_def)

lemma spent_tangent:
  "getUnitVector (getCurveEndTangent spent_segment) = Vec (Num (- 1)) (Num 0)"
  by (simp add: getCurveEndTangent_def spent_segment_def js_sub_def getUnitVector_axis Let_def)

lemma spent_far:
  "\<not> js_lt (getMagnitude (roundVec unit_point) (c3 spent_segment)) RADIAL_SIMPLIFICATION"
  by (simp add: getMagnitude_def roundVec_def unit_point_def spent_segment_def js_sub_def
      numeral_2_eq_2 RADIAL_SIMPLIFICATION_def)

lemma addToCurveImpl_spent_curve:
  "addToCurveImpl spent_curve (roundVec unit_point) = Inr (pulled_curve, pulled_segment)"
proof -
  let ?ct = "Some (Vec (Num (- 1)) (Num 0))"
  let ?ns = "newSegment spent_segment"
  let ?cvA = "spent_curve\<lparr>vdmap := (\<lambda>_. None), segments := segments spent_curve @ [?ns]\<rparr>"
  have rp: "roundVec unit_point = unit_point" by (simp add: roundVec_def unit_point_def)
  have prep: "prepared spent_curve spent_segment = ?cvA"
    by (rule prepared_failed) (simp add: spent_segment_def)
  have lastA: "getLastSegment ?cvA = Some ?ns" by simp
  have nc: "\<not> checkCorner ?ns unit_point" by (rule checkCorner_fresh) simp
  have st: "update_status spent_segment = Some FAIL_MAXED" "c3 spent_segment = Vec (Num 0) (Num 0)"
    by (simp_all add: spent_segment_def)
  have ns: "?ns = (initCurveSegment (Num 0) (Num 0))\<lparr>constrain_to := ?ct\<rparr>"
    by (simp add: newSegment_def spent_tangent st)
  have ext: "extendSegment ?ns unit_point = unit_segment\<lparr>constrain_to := ?ct\<rparr>"
    by (simp add: ns extendSegment_def initCurveSegment_def unit_point_def unit_segment_def
        getLastPoint_def js_sub_def Let_def)
  have pf: "paintField (vdmap ?cvA) (c3 ?ns) unit_point = Inr unit_field"
    using paintField_unit by (simp add: spent_segment_def)
  have le: "snd (refine unit_field (extendSegment ?ns unit_point) 0) \<le> MAX_ITERATIONS"
    by (simp add: ext refine_pulled MAX_ITERATIONS_def)
  have "updateDistanceField ?cvA unit_point = Inr (pulled_curve, pulled_segment)"
    using updateDistanceField_success[OF lastA nc pf le]
    by (simp add: ext refine_pulled Let_def pulled_curve_def pulled_segment_def
        putLastSegment_def spent_curve_def)
  then show ?thesis
    using addToCurveImpl_fit[OF spent_curve_last spent_far] prep rp by simp
qed

lemma addToCurve_spent_curve:
  "addToCurve spent_curve unit_point = Inr (pulled_curve, pulled_segment)"
  using addToCurveImpl_spent_curve by (simp add: addToCurve_def pulled_segment_def)

lemma fitRounds_spent_curve:
  "fitRounds spent_curve (roundVec unit_point) k =
     Some (rounds unit_field (unit_segment\<lparr>constrain_to := Some (Vec (Num (- 1)) (Num 0))\<rparr>) 0 k)"
proof -
  let ?ct = "Some (Vec (Num (- 1)) (Num 0))"
  let ?ns = "newSegment spent_segment"
  let ?cvA = "spent_curve\<lparr>vdmap := (\<lambda>_. None), segments := segments spent_curve @ [?ns]\<rparr>"
  have rp: "roundVec unit_point = unit_point" by (simp add: roundVec_def unit_point_def)
  have prep: "prepared spent_curve spent_segment = ?cvA"
    by (rule prepared_failed) (simp add: spent_segment_def)
  have nc: "\<not> checkCorner ?ns unit_point" by (rule checkCorner_fresh) simp
  have st: "update_status spent_segment = Some FAIL_MAXED" "c3 spent_segment = Vec (Num 0) (Num 0)"
    by (simp_all add: spent_segment_def)
  have ns: "?ns = (initCurveSegment (Num 0) (Num 0))\<lparr>constrain_to := ?ct\<rparr>"
    by (simp add: newSegment_def spent_tangent st)
  have ext: "extendSegment ?ns unit_point = unit_segment\<lparr>constrain_to := ?ct\<rparr>"
    by (simp add: ns extendSegment_def initCurveSegment_def unit_point_def unit_segment_def
        getLastPoint_def js_sub_def Let_def)
  have pf: "paintField (\<lambda>_. None) (c3 ?ns) unit_point = Inr unit_field"
    using paintField_unit by (simp add: spent_segment_def)
  show ?thesis
    using spent_far nc pf
    by (simp add: fitRounds_def spent_curve_last prep rp getLastPoint_def ext
        del: rounds.simps)
qed

section \<open>Claims\<close>

text \<open>
  C1. At most \<open>MAX_ITERATIONS = 50\<close> rounds of the refinement loop per call, and every call
  returns. The loop tests \<open>steps > MAX_ITERATIONS\<close> after counting the round, so a fit that
  does not converge runs 51 rounds: on \<open>long_curve\<close> the first refinement attempt for
  \<open>next_point\<close> ends \<open>FAIL_MAXED\<close> with \<open>steps = 51\<close>. (Every refinement step that ends
  \<open>FAIL_MAXED\<close> has run 51 rounds: \<open>updateDistanceField_failmaxed_steps\<close>. No call runs
  more than 51 rounds: \<open>refine_count_le\<close>. Calls on finite points return:
  \<open>addToCurve_returns\<close>.)
\<close>

theorem first_attempt_runs_51_rounds:
  "\<exists>cv' sg'. addToCurveImpl long_curve (roundVec next_point) = Inr (cv', sg') \<and>
     update_status sg' = Some FAIL_MAXED \<and> steps sg' = Some 51"
proof -
  obtain vd where vd: "paintField (vdmap long_curve) (c3 long_segment) next_point = Inr vd"
      "vd (Num 0) = None" "vd NaN = None"
    using paintField_long_curve by blast
  have "snd (refine vd (extendSegment long_segment next_point) 0) = Suc MAX_ITERATIONS"
    by (rule refine_no_data[where a = 0]) (simp_all add: long_segment_def vd)
  then have n: "snd (refine vd (extendSegment long_segment next_point) 0) = 51"
    by (simp add: MAX_ITERATIONS_def)
  then have gt: "MAX_ITERATIONS < snd (refine vd (extendSegment long_segment next_point) 0)"
    by (simp add: MAX_ITERATIONS_def)
  have "prepared long_curve long_segment = long_curve"
    by (rule prepared_kept) (simp add: long_segment_def)
  then have "addToCurveImpl long_curve (roundVec next_point) = updateDistanceField long_curve next_point"
    using addToCurveImpl_fit[OF long_curve_last long_curve_far] by (simp add: round_next_point)
  then show ?thesis
    using updateDistanceField_maxed[OF long_curve_last checkCorner_long_segment vd(1) gt] n
    by (simp add: Let_def refine_steps_field)
qed

text \<open>
  C2. After any run of points from \<open>startCurve\<close>, a segment that \<open>addToCurve\<close> returns with
  status \<open>SUCCESS\<close> has an \<open>error\<close> below \<open>MAX_ERROR = 2\<close>.
\<close>

theorem success_has_error_below_bound:
  assumes "addAll (startCurve p0) ps = Inr cv"
    and "addToCurve cv p = Inr (cv', sg')"
    and "update_status sg' = Some SUCCESS"
  shows "\<exists>e. error sg' = Some e \<and> js_lt e MAX_ERROR"
proof -
  have "error_in_bound cv"
    using error_in_bound_startCurve assms(1) by (rule error_in_bound_addAll)
  then obtain sg where "getLastSegment cv = Some sg"
      "update_status sg = Some SUCCESS \<longrightarrow> (\<exists>e. error sg = Some e \<and> js_lt e MAX_ERROR)"
    using error_in_bound_iff by blast
  then show ?thesis using addToCurve_result[OF _ _ assms(2)] assms(3) by blast
qed

theorem success_has_error_below_bound_witness:
  "addAll (startCurve (Vec (Num 0) (Num 0))) [unit_point] = Inr fitted_curve \<and>
   addToCurve fitted_curve (Vec (Num (12 / 10)) (Num (3 / 10))) =
     Inr (fitted_curve, fitted_segment\<lparr>update_status := Some SUCCESS\<rparr>) \<and>
   update_status (fitted_segment\<lparr>update_status := Some SUCCESS\<rparr>) = Some SUCCESS \<and>
   error (fitted_segment\<lparr>update_status := Some SUCCESS\<rparr>) = Some (Num 0) \<and>
   js_lt (Num 0) MAX_ERROR"
proof -
  have run: "addAll (startCurve (Vec (Num 0) (Num 0))) [unit_point] = Inr fitted_curve"
    using addToCurve_first_curve by (simp add: first_curve_def fitted_curve_def)
  have last: "getLastSegment fitted_curve = Some (fitted_segment\<lparr>update_status := Some SUCCESS\<rparr>)"
    by (simp add: getLastSegment_def fitted_curve_def)
  have dup: "js_lt (getMagnitude (roundVec (Vec (Num (12 / 10)) (Num (3 / 10))))
               (c3 (fitted_segment\<lparr>update_status := Some SUCCESS\<rparr>))) RADIAL_SIMPLIFICATION"
    by (simp add: getMagnitude_def roundVec_def fitted_segment_def js_sub_def numeral_2_eq_2
        RADIAL_SIMPLIFICATION_def)
  have call: "addToCurve fitted_curve (Vec (Num (12 / 10)) (Num (3 / 10))) =
     Inr (fitted_curve, fitted_segment\<lparr>update_status := Some SUCCESS\<rparr>)"
    using addToCurveImpl_duplicate[OF last dup] by (simp add: addToCurve_def Let_def)
  have st: "update_status (fitted_segment\<lparr>update_status := Some SUCCESS\<rparr>) = Some SUCCESS"
    by simp
  show ?thesis
    using success_has_error_below_bound[OF run call st] run call
    by (simp add: fitted_segment_def MAX_ERROR_def)
qed

text \<open>
  C3. When the loop ends with the step count above \<open>MAX_ITERATIONS\<close>, the refinement step
  returns the segment with \<open>update_status = FAIL_MAXED\<close> and with its control points,
  \<open>error\<close> and \<open>constrain_to\<close> equal to those of the copy taken by \<open>copySegment\<close>
  before the corner test; the control points and \<open>constrain_to\<close> are those the segment had
  before the call.
\<close>

theorem exhausted_budget_restores_snapshot:
  assumes "getLastSegment cv = Some sg" and "\<not> checkCorner sg p"
    and "paintField (vdmap cv) (c3 sg) p = Inr vd"
    and "MAX_ITERATIONS < snd (refine vd (extendSegment sg p) 0)"
  shows "\<exists>sg'. updateDistanceField cv p = Inr (putLastSegment (cv\<lparr>vdmap := vd\<rparr>) sg', sg') \<and>
     update_status sg' = Some FAIL_MAXED \<and>
     c0 sg' = c0 (copySegment sg) \<and> c1 sg' = c1 (copySegment sg) \<and>
     c2 sg' = c2 (copySegment sg) \<and> c3 sg' = c3 (copySegment sg) \<and>
     error sg' = error (copySegment sg) \<and>
     constrain_to sg' = constrain_to (copySegment sg) \<and>
     c0 sg' = c0 sg \<and> c1 sg' = c1 sg \<and> c2 sg' = c2 sg \<and> c3 sg' = c3 sg \<and>
     constrain_to sg' = constrain_to sg"
  using updateDistanceField_maxed[OF assms] by (simp add: Let_def)

theorem exhausted_budget_restores_snapshot_witness:
  "\<exists>vd sg'. getLastSegment long_curve = Some long_segment \<and>
     \<not> checkCorner long_segment next_point \<and>
     paintField (vdmap long_curve) (c3 long_segment) next_point = Inr vd \<and>
     MAX_ITERATIONS < snd (refine vd (extendSegment long_segment next_point) 0) \<and>
     updateDistanceField long_curve next_point =
       Inr (putLastSegment (long_curve\<lparr>vdmap := vd\<rparr>) sg', sg') \<and>
     update_status sg' = Some FAIL_MAXED \<and>
     c1 sg' = Vec (Num 0) (Num 0) \<and> c2 sg' = Vec (Num 100) (Num 0) \<and>
     c3 sg' = Vec (Num 100) (Num 0) \<and> error sg' = Some (Num 0)"
proof -
  obtain vd where vd: "paintField (vdmap long_curve) (c3 long_segment) next_point = Inr vd"
      "vd (Num 0) = None" "vd NaN = None"
    using paintField_long_curve by blast
  have "snd (refine vd (extendSegment long_segment next_point) 0) = Suc MAX_ITERATIONS"
    by (rule refine_no_data[where a = 0]) (simp_all add: long_segment_def vd)
  then have gt: "MAX_ITERATIONS < snd (refine vd (extendSegment long_segment next_point) 0)"
    by simp
  from exhausted_budget_restores_snapshot[OF long_curve_last checkCorner_long_segment vd(1) gt]
  obtain sg' where "updateDistanceField long_curve next_point =
       Inr (putLastSegment (long_curve\<lparr>vdmap := vd\<rparr>) sg', sg')"
     "update_status sg' = Some FAIL_MAXED" "c1 sg' = c1 long_segment" "c2 sg' = c2 long_segment"
     "c3 sg' = c3 long_segment" "error sg' = error (copySegment long_segment)"
    by blast
  moreover have "error (copySegment long_segment) = Some (Num 0)"
    by (simp add: copySegment_def long_segment_def js_truthy_def)
  ultimately show ?thesis
    using long_curve_last checkCorner_long_segment vd(1) gt
    by (intro exI[of _ vd] exI[of _ sg']) (simp add: long_segment_def)
qed




text \<open>
  C5. \<open>getUnitVector\<close> has no guard: for the zero vector it returns NaN components. All the
  same, in every run of finite points every segment that \<open>addToCurve\<close> returns has finite
  control points: a NaN tangent makes the corner test answer no, and a NaN constraint makes the
  loop run out, so that the control points are rolled back.
\<close>

theorem no_NaN_in_returned_control_points:
  assumes "finVec p0" and "\<forall>q\<in>set ps. finVec q" and "finVec p"
  shows "getUnitVector (Vec (Num 0) (Num 0)) = Vec NaN NaN \<and>
         (\<exists>cv cv' sg'. addAll (startCurve p0) ps = Inr cv \<and>
            addToCurve cv p = Inr (cv', sg') \<and> finSeg sg')"
proof -
  obtain cv where run: "addAll (startCurve p0) ps = Inr cv"
    using addAll_returns[OF finState_startCurve[OF assms(1)] assms(2)] by blast
  have fs: "finState cv"
    using finState_startCurve[OF assms(1)] assms(2) run by (rule finState_addAll)
  then obtain sg where last: "getLastSegment cv = Some sg" and sg: "finSeg sg"
    by (auto simp: finState_def split: option.splits)
  obtain cv' sg' where r: "addToCurve cv p = Inr (cv', sg')"
    using addToCurve_returns[OF last _ assms(3)] sg by (auto simp: finSeg_def)
  have "finSeg sg'" using addToCurve_finState[OF fs assms(3) r] by simp
  then show ?thesis using run r by (auto simp: getUnitVector_Num)
qed

theorem no_NaN_in_returned_control_points_witness:
  "finVec (Vec (Num 0) (Num 0)) \<and> finVec unit_point \<and>
   finVec (Vec (Num (12 / 10)) (Num (3 / 10))) \<and>
   (\<exists>cv cv' sg'. addAll (startCurve (Vec (Num 0) (Num 0))) [unit_point] = Inr cv \<and>
      addToCurve cv (Vec (Num (12 / 10)) (Num (3 / 10))) = Inr (cv', sg') \<and> finSeg sg')"
proof -
  have ps: "\<forall>q\<in>set [unit_point]. finVec q" by (simp add: unit_point_def)
  show ?thesis
    using no_NaN_in_returned_control_points[OF _ ps,
        of "Vec (Num 0) (Num 0)" "Vec (Num (12 / 10)) (Num (3 / 10))"] ps
    by simp
qed

theorem zero_tangent_gives_NaN_constraint:
  "getUnitVector (Vec (Num 0) (Num 0)) = Vec NaN NaN \<and>
   \<not> isl (addToCurve stalled_curve unit_point) \<and>
   constrain_to (snd (projr (addToCurve stalled_curve unit_point))) = Some (Vec NaN NaN)"
proof -
  have last: "getLastSegment stalled_curve = Some stalled_segment"
    by (simp add: getLastSegment_def stalled_curve_def)
  have far: "\<not> js_lt (getMagnitude (roundVec unit_point) (c3 stalled_segment)) RADIAL_SIMPLIFICATION"
    by (simp add: getMagnitude_def roundVec_def unit_point_def stalled_segment_def
        initCurveSegment_def js_sub_def numeral_2_eq_2 RADIAL_SIMPLIFICATION_def)
  have fin: "finVec (c3 stalled_segment)" "finVec unit_point"
    by (simp_all add: stalled_segment_def initCurveSegment_def unit_point_def)
  have nan: "constrain_to (newSegment sg) = Some (Vec NaN NaN)"
    if "update_status sg = Some FAIL_MAXED" "c2 sg = Vec (Num 0) (Num 0)" "c3 sg = Vec (Num 0) (Num 0)"
    for sg
    using that by (simp add: newSegment_def getCurveEndTangent_def Let_def js_sub_def getUnitVector_Num)
  have st: "update_status stalled_segment = Some FAIL_MAXED"
    by (simp add: stalled_segment_def)
  have cs: "c2 stalled_segment = Vec (Num 0) (Num 0)" "c3 stalled_segment = Vec (Num 0) (Num 0)"
    by (simp_all add: stalled_segment_def initCurveSegment_def)
  let ?cvA = "stalled_curve\<lparr>vdmap := (\<lambda>_. None),
                segments := segments stalled_curve @ [newSegment stalled_segment]\<rparr>"
  have prep: "prepared stalled_curve stalled_segment = ?cvA"
    by (rule prepared_failed) (simp add: st)
  have lastA: "getLastSegment ?cvA = Some (newSegment stalled_segment)" by simp
  obtain cv' sg' where r: "addToCurve stalled_curve unit_point = Inr (cv', sg')"
    using addToCurve_returns[OF last fin] by blast
  obtain cv1 sg1 where first: "updateDistanceField ?cvA (roundVec unit_point) = Inr (cv1, sg1)"
    using updateDistanceField_returns[OF lastA _ finVec_roundVec[OF fin(2)]] fin(1) by auto
  note res = updateDistanceField_result[OF lastA first]
  have ct1: "constrain_to sg1 = Some (Vec NaN NaN)"
    using updateDistanceField_constrain_to[OF lastA first] nan[OF st cs] by simp
  have first': "updateDistanceField (prepared stalled_curve stalled_segment) (roundVec unit_point) =
      Inr (cv1, sg1)"
    using first prep by simp
  have "constrain_to sg' = Some (Vec NaN NaN)"
  proof (cases "update_status sg1 = Some SUCCESS")
    case True
    then have "sg' = sg1" using addToCurve_second_attempt[OF last far first'] r by simp
    then show ?thesis using ct1 by simp
  next
    case False
    let ?cvB = "cv1\<lparr>vdmap := (\<lambda>_. None), segments := segments cv1 @ [newSegment sg1]\<rparr>"
    have second: "updateDistanceField ?cvB (roundVec unit_point) = Inr (cv', sg')"
      using addToCurve_second_attempt[OF last far first'] r False by simp
    have lastB: "getLastSegment ?cvB = Some (newSegment sg1)" by simp
    have "\<not> checkCorner (newSegment stalled_segment) (roundVec unit_point)"
      by (rule checkCorner_fresh) simp
    then have "update_status sg1 \<noteq> Some FAIL_CORNER" using res(6) by simp
    then have st1: "update_status sg1 = Some FAIL_MAXED"
      using False res(4) status_cases[of sg1] by auto
    have "c2 sg1 = Vec (Num 0) (Num 0)" "c3 sg1 = Vec (Num 0) (Num 0)"
      using res(5) False cs by simp_all
    then have "constrain_to (newSegment sg1) = Some (Vec NaN NaN)" using st1 by (intro nan)
    then show ?thesis using updateDistanceField_constrain_to[OF lastB second] by simp
  qed
  then show ?thesis using r by (simp add: getUnitVector_Num)
qed

text \<open>
  C6. In the strip loop and in the end-cap loop every write to a cell is \<open>storeCell\<close>. It
  keeps the stored value only if that value's sum of squares is strictly smaller than the
  candidate's; otherwise, a tie included, the candidate is stored. No other cell changes.
  (The claim has it the other way round on ties: \<open>tie_replaces_stored_value\<close> stamps the end
  cap over a cell holding \<open>(5, 0)\<close> with the candidate \<open>(3, 4)\<close>, and the cell then holds
  \<open>(3, 4)\<close>.)
\<close>

theorem stored_value_kept_iff_strictly_closer:
  "lookupCell (storeCell vd x y cand) x y =
     (case lookupCell vd x y of
        None \<Rightarrow> Some cand
      | Some old \<Rightarrow> if js_lt (sumOfSquaresVec old) (sumOfSquaresVec cand)
                   then Some old else Some cand) \<and>
   (\<forall>x' y'. x' \<noteq> x \<or> y' \<noteq> y \<longrightarrow>
      lookupCell (storeCell vd x y cand) x' y' = lookupCell vd x' y')"
  using lookupCell_storeCell_same lookupCell_storeCell_other by blast

theorem stored_value_kept_iff_strictly_closer_witness:
  "lookupCell (storeCell tie_map (Num 3) (Num 4) (Vec (Num 4) (Num 4))) (Num 3) (Num 4) =
     Some (Vec (Num 5) (Num 0)) \<and>
   lookupCell (storeCell tie_map (Num 3) (Num 4) (Vec (Num 4) (Num 4))) (Num 3) (Num 5) = None"
  using stored_value_kept_iff_strictly_closer[of tie_map "Num 3" "Num 4" "Vec (Num 4) (Num 4)"]
  by (simp add: lookupCell_def tie_map_def sumOfSquaresVec_def numeral_2_eq_2)

theorem tie_replaces_stored_value:
  "lookupCell tie_map (Num 3) (Num 4) = Some (Vec (Num 5) (Num 0)) \<and>
   sumOfSquaresVec (Vec (Num 3) (Num 4)) = sumOfSquaresVec (Vec (Num 5) (Num 0)) \<and>
   paintEndCap tie_map (Vec (Num 0) (Num 0)) =
     Inr (cap_rows (Vec (Num 0) (Num 0)) (Num (- 9)) 18 18 tie_map (Num (- 9))) \<and>
   lookupCell (cap_rows (Vec (Num 0) (Num 0)) (Num (- 9)) 18 18 tie_map (Num (- 9)))
     (Num 3) (Num 4) = Some (Vec (Num 3) (Num 4))"
proof -
  let ?p = "Vec (Num 0) (Num 0)"
  let ?vd = "cap_rows ?p (Num (- 9)) 18 18 tie_map (Num (- 9))"
  have cap: "paintEndCap tie_map ?p = Inr ?vd"
    by (simp add: paintEndCap_def FIELD_RADIUS_def addVec_def negateVec_def subVec_def
        Let_def range_count_def loop_nest_Some del: cap_rows.simps)
  have "?vd (Num (- 9 + real 12)) =
        cap_column ?p (Num (- 9 + real 12)) 18 tie_map (Num (- 9)) (Num (- 9 + real 12))"
    by (rule cap_rows_hit) simp
  then have col: "?vd (Num 3) = cap_column ?p (Num 3) 18 tie_map (Num (- 9)) (Num 3)"
    by (simp del: cap_rows.simps cap_column.simps)
  have "lookupCell ?vd (Num 3) (Num 4) = Some (Vec (Num 3) (Num 4))"
    unfolding lookupCell_def col
    by (simp add: eval_nat_numeral tie_map_def storeCell_def subVec_def addVec_def
        negateVec_def Let_def sumOfSquaresVec_def)
  moreover have "lookupCell tie_map (Num 3) (Num 4) = Some (Vec (Num 5) (Num 0))"
    by (simp add: lookupCell_def tie_map_def)
  moreover have "sumOfSquaresVec (Vec (Num 3) (Num 4)) = sumOfSquaresVec (Vec (Num 5) (Num 0))"
    by (simp add: sumOfSquaresVec_def numeral_2_eq_2)
  ultimately show ?thesis using cap by (simp del: cap_rows.simps)
qed

text \<open>
  C7. When the first refinement attempt of \<open>addToCurve\<close> returns a segment whose status is
  \<open>SUCCESS\<close>, that is the result. Otherwise the result is that of one more refinement step,
  on the same rounded point, against the curve with a new segment pushed and the distance map
  reset, whatever that step returns.
\<close>

theorem retry_exactly_once:
  assumes last: "getLastSegment cv = Some sg"
    and far: "\<not> js_lt (getMagnitude (roundVec p) (c3 sg)) RADIAL_SIMPLIFICATION"
    and first: "addToCurveImpl cv (roundVec p) = Inr (cv1, sg1)"
  shows "addToCurve cv p =
           (if update_status sg1 = Some SUCCESS then Inr (cv1, sg1)
            else updateDistanceField
                   (cv1\<lparr>vdmap := (\<lambda>_. None), segments := segments cv1 @ [newSegment sg1]\<rparr>)
                   (roundVec p))"
proof -
  have "updateDistanceField (prepared cv sg) (roundVec p) = Inr (cv1, sg1)"
    using addToCurveImpl_fit[OF last far] first by simp
  with last far show ?thesis by (rule addToCurve_second_attempt)
qed

theorem retry_exactly_once_witness:
  "getLastSegment long_curve = Some long_segment \<and>
   \<not> js_lt (getMagnitude (roundVec back_point) (c3 long_segment)) RADIAL_SIMPLIFICATION \<and>
   addToCurveImpl long_curve (roundVec back_point) =
     Inr (putLastSegment long_curve turned_segment, turned_segment) \<and>
   update_status turned_segment \<noteq> Some SUCCESS \<and>
   addToCurve long_curve back_point =
     updateDistanceField
       ((putLastSegment long_curve turned_segment)
          \<lparr>vdmap := (\<lambda>_. None),
           segments := segments (putLastSegment long_curve turned_segment) @
                         [newSegment turned_segment]\<rparr>)
       (roundVec back_point)"
proof -
  have impl: "addToCurveImpl long_curve (roundVec back_point) =
     Inr (putLastSegment long_curve turned_segment, turned_segment)"
    using addToCurveImpl_fit[OF long_curve_last back_point_far] first_attempt_back_point by simp
  show ?thesis
    using retry_exactly_once[OF long_curve_last back_point_far impl]
      long_curve_last back_point_far impl
    by (simp add: turned_segment_def)
qed

text \<open>
  C8. When the first attempt of an \<open>addToCurve\<close> call reports \<open>FAIL_CORNER\<close> (the corner
  detector answered true for the point), the segment it was tried on keeps its control points
  and only changes status, and the call ends with exactly one more segment in the curve, whose
  start anchor \<open>c0\<close> is the end point \<open>c3\<close> of the prior segment.
\<close>

theorem corner_starts_one_segment:
  assumes last: "getLastSegment cv = Some sg"
    and far: "\<not> js_lt (getMagnitude (roundVec p) (c3 sg)) RADIAL_SIMPLIFICATION"
    and fin: "finVec (c3 sg)" "finVec p"
    and first: "addToCurveImpl cv (roundVec p) = Inr (cv1, sg1)"
    and corner: "update_status sg1 = Some FAIL_CORNER"
  shows "\<exists>cv2 sg2. addToCurve cv p = Inr (cv2, sg2) \<and>
           sg1 = sg\<lparr>update_status := Some FAIL_CORNER\<rparr> \<and>
           segments cv1 = butlast (segments cv) @ [sg1] \<and>
           segments cv2 = butlast (segments cv) @ [sg1, sg2] \<and>
           c0 sg2 = c3 sg"
proof -
  have fp: "finVec (roundVec p)" using fin(2) by (rule finVec_roundVec)
  obtain sgA where sgA: "getLastSegment (prepared cv sg) = Some sgA" "c3 sgA = c3 sg"
      "prepared cv sg = cv \<and> sgA = sg \<or> c0 sgA = c3 sgA"
    using prepared_last_fields[OF last] by blast
  have first': "updateDistanceField (prepared cv sg) (roundVec p) = Inr (cv1, sg1)"
    using addToCurveImpl_fit[OF last far] first by simp
  note res = updateDistanceField_result[OF sgA(1) first']
  have "checkCorner sgA (roundVec p)" using res(6) corner by simp
  then have same: "prepared cv sg = cv" "sgA = sg"
    using sgA(3) checkCorner_fresh by blast+
  have sg1: "sg1 = sg\<lparr>update_status := Some FAIL_CORNER\<rparr>"
    using res(7) corner same by simp
  have segs1: "segments cv1 = butlast (segments cv) @ [sg1]"
    using res(2) same by simp
  let ?cvB = "cv1\<lparr>vdmap := (\<lambda>_. None), segments := segments cv1 @ [newSegment sg1]\<rparr>"
  have second: "addToCurve cv p = updateDistanceField ?cvB (roundVec p)"
    using addToCurve_second_attempt[OF last far first'] corner by simp
  have lastB: "getLastSegment ?cvB = Some (newSegment sg1)" by simp
  have "finVec (c3 (newSegment sg1))" using fin(1) sg1 by simp
  then obtain cv2 sg2 where r: "updateDistanceField ?cvB (roundVec p) = Inr (cv2, sg2)"
    using updateDistanceField_returns[OF lastB _ fp] by blast
  note res2 = updateDistanceField_result[OF lastB r]
  have "segments cv2 = butlast (segments cv) @ [sg1, sg2]"
    using res2(2) segs1 by (simp add: butlast_append)
  moreover have "c0 sg2 = c3 sg" using res2(3) sg1 by simp
  ultimately show ?thesis using second r sg1 segs1 by simp
qed

theorem corner_starts_one_segment_witness:
  "getLastSegment long_curve = Some long_segment \<and>
   \<not> js_lt (getMagnitude (roundVec back_point) (c3 long_segment)) RADIAL_SIMPLIFICATION \<and>
   finVec (c3 long_segment) \<and> finVec back_point \<and>
   addToCurveImpl long_curve (roundVec back_point) =
     Inr (putLastSegment long_curve turned_segment, turned_segment) \<and>
   update_status turned_segment = Some FAIL_CORNER \<and>
   (\<exists>cv2 sg2. addToCurve long_curve back_point = Inr (cv2, sg2) \<and>
      segments cv2 = [turned_segment, sg2] \<and> c0 sg2 = Vec (Num 100) (Num 0))"
proof -
  have impl: "addToCurveImpl long_curve (roundVec back_point) =
     Inr (putLastSegment long_curve turned_segment, turned_segment)"
    using addToCurveImpl_fit[OF long_curve_last back_point_far] first_attempt_back_point by simp
  have st: "update_status turned_segment = Some FAIL_CORNER"
    by (simp add: turned_segment_def)
  have f1: "finVec (c3 long_segment)" by (simp add: finVec_def long_segment_def)
  have f2: "finVec back_point" by (simp add: finVec_def back_point_def)
  from corner_starts_one_segment[OF long_curve_last back_point_far f1 f2 impl st]
  obtain cv2 sg2 where "addToCurve long_curve back_point = Inr (cv2, sg2)"
    "segments cv2 = butlast (segments long_curve) @ [turned_segment, sg2]"
    "c0 sg2 = c3 long_segment"
    by blast
  then have "addToCurve long_curve back_point = Inr (cv2, sg2) \<and>
      segments cv2 = [turned_segment, sg2] \<and> c0 sg2 = Vec (Num 100) (Num 0)"
    by (simp add: long_curve_def long_segment_def)
  then show ?thesis
    using long_curve_last back_point_far f1 f2 impl st by blast
qed

text \<open>
  C9. In every run, each segment that follows a \<open>FAIL_MAXED\<close> segment carries as
  \<open>constrain_to\<close> the vector \<open>getUnitVector\<close> of that segment's end tangent \<open>3 (c2 - c3)\<close>
  (\<open>linked\<close>). In a run of finite points from a settled curve (\<open>startCurve\<close> makes one) in
  which no segment that gave up has \<open>c2 = c3\<close>, every segment of the curve has \<open>c1 - c0\<close> a
  scalar multiple of its constraint after each call (\<open>settled\<close>), and the segment being
  fitted has it after every round of the loop: in the call that pushes the segment and in every
  later call, in the first attempt and in the second (\<open>fitRounds\<close> on each curve of
  \<open>attempts\<close>). (With \<open>c2 = c3\<close> the constraint is the NaN vector and \<open>c1\<close> is NaN after the
  first round: \<open>zero_tangent_breaks_colinearity\<close>.)
\<close>

theorem constrained_c1_stays_on_tangent:
  assumes "linked (segments cv0)"
    and "addAll cv0 ps = Inr cv" and "addToCurve cv p = Inr (cv', sg')"
  shows "linked (segments (startCurve p0)) \<and> (finVec p0 \<longrightarrow> settled (startCurve p0)) \<and>
         linked (segments cv') \<and>
         (settled cv0 \<and> (\<forall>q\<in>set ps. finVec q) \<and> finVec p \<and> tangents_nonzero cv' \<longrightarrow>
            settled cv' \<and>
            (\<forall>cvx\<in>set (attempts cv p). \<forall>k s.
               fitRounds cvx (roundVec p) k = Some s \<longrightarrow> colinear s))"
proof (intro conjI impI)
  show "linked (segments (startCurve p0))"
    by (simp add: linked_def startCurve_def createCurve_def initCurve_def)
  show "settled (startCurve p0)" if "finVec p0" using that by (rule settled_startCurve)
  have "linked (segments cv)" using assms(2,1) by (rule linked_addAll)
  with assms(3) show "linked (segments cv')" by (rule linked_addToCurve)
next
  assume a: "settled cv0 \<and> (\<forall>q\<in>set ps. finVec q) \<and> finVec p \<and> tangents_nonzero cv'"
  then have fp: "finVec (roundVec p)" using finVec_roundVec by blast
  have t: "tangents_nonzero cv" using assms(3) a by (blast intro: tangents_back_addToCurve)
  have st: "settled cv" using a assms(2) t by (blast intro: settled_addAll)
  show "settled cv'" using st a assms(3) by (blast intro: settled_addToCurve)
  show "\<forall>cvx\<in>set (attempts cv p). \<forall>k s. fitRounds cvx (roundVec p) k = Some s \<longrightarrow> colinear s"
    using assms(3)
  proof (cases rule: addToCurve_cases)
    case once
    then show ?thesis using st t fp fitRounds_colinear by auto
  next
    case (twice cv1 sg1)
    have t1: "tangents_nonzero cv1" using twice(3) a by (blast intro: tangents_back_addToCurveImpl)
    have "settled cv1" using st fp twice(1) t by (rule settled_addToCurveImpl)
    then show ?thesis using st t t1 fp fitRounds_colinear twice(4) by auto
  qed
qed

theorem constrained_c1_stays_on_tangent_witness:
  "linked (segments spent_curve) \<and>
   addAll spent_curve [Vec (Num (3 / 10)) (Num (3 / 10))] = Inr spent_curve \<and>
   addToCurve spent_curve unit_point = Inr (pulled_curve, pulled_segment) \<and>
   finVec (Vec (Num 0) (Num 0)) \<and> settled (startCurve (Vec (Num 0) (Num 0))) \<and>
   settled spent_curve \<and> finVec (Vec (Num (3 / 10)) (Num (3 / 10))) \<and> finVec unit_point \<and>
   tangents_nonzero pulled_curve \<and>
   linked (segments pulled_curve) \<and> settled pulled_curve \<and>
   update_status spent_segment = Some FAIL_MAXED \<and>
   constrain_to pulled_segment = Some (getUnitVector (getCurveEndTangent spent_segment)) \<and>
   attempts spent_curve unit_point = [spent_curve] \<and>
   (\<forall>k. \<exists>s. fitRounds spent_curve (roundVec unit_point) k = Some s \<and> colinear s)"
proof -
  let ?dup = "Vec (Num (3 / 10)) (Num (3 / 10))"
  have near: "js_lt (getMagnitude (roundVec ?dup) (c3 spent_segment)) RADIAL_SIMPLIFICATION"
    by (simp add: getMagnitude_def roundVec_def spent_segment_def js_sub_def numeral_2_eq_2
        RADIAL_SIMPLIFICATION_def)
  have dup: "addToCurve spent_curve ?dup = Inr (spent_curve, spent_segment)"
    using addToCurveImpl_duplicate[OF spent_curve_last near]
    by (simp add: addToCurve_def Let_def)
  have 1: "linked (segments spent_curve)" by (simp add: linked_def spent_curve_def)
  have 2: "addAll spent_curve [?dup] = Inr spent_curve" by (simp add: dup)
  note 3 = addToCurve_spent_curve
  have 4: "settled spent_curve"
    using 1
    by (simp add: settled_def finState_def spent_curve_last finSeg_def constraintOk_def
        finField_def colinear_def) (simp add: spent_curve_def spent_segment_def)
  have 5: "\<forall>q\<in>set [?dup]. finVec q" by simp
  have 6: "finVec unit_point" by (simp add: unit_point_def)
  have 7: "tangents_nonzero pulled_curve"
    by (simp add: tangents_nonzero_def pulled_curve_def pulled_segment_def spent_segment_def)
  have 8: "attempts spent_curve unit_point = [spent_curve]"
    by (simp add: attempts_def addToCurveImpl_spent_curve pulled_segment_def)
  have 9: "constrain_to pulled_segment = Some (getUnitVector (getCurveEndTangent spent_segment))"
    by (simp add: pulled_segment_def spent_tangent)
  have 10: "update_status spent_segment = Some FAIL_MAXED" by (simp add: spent_segment_def)
  have 11: "finVec (Vec (Num 0) (Num 0))" by simp
  show ?thesis
    using constrained_c1_stays_on_tangent[OF 1 2 3, of "Vec (Num 0) (Num 0)"]
      1 2 3 4 5 6 7 8 9 10 11
    by (simp add: fitRounds_spent_curve del: rounds.simps)
qed

theorem zero_tangent_breaks_colinearity:
  "update_status stalled_segment = Some FAIL_MAXED \<and>
   constrain_to (newSegment stalled_segment) =
     Some (getUnitVector (getCurveEndTangent stalled_segment)) \<and>
   getUnitVector (getCurveEndTangent stalled_segment) = Vec NaN NaN \<and>
   \<not> colinear (newSegment stalled_segment) \<and>
   paintField (\<lambda>_. None) (c3 stalled_segment) unit_point = Inr unit_field \<and>
   c1 (rounds unit_field (extendSegment (newSegment stalled_segment) unit_point) 0 1) =
     Vec NaN NaN \<and>
   \<not> colinear (rounds unit_field (extendSegment (newSegment stalled_segment) unit_point) 0 1)"
proof -
  have st: "update_status stalled_segment = Some FAIL_MAXED" by (simp add: stalled_segment_def)
  have t: "getUnitVector (getCurveEndTangent stalled_segment) = Vec NaN NaN"
    by (simp add: getCurveEndTangent_def stalled_segment_def initCurveSegment_def js_sub_def
        getUnitVector_Num Let_def)
  have ct: "constrain_to (newSegment stalled_segment) = Some (Vec NaN NaN)"
    by (simp add: newSegment_def st t)
  have pf: "paintField (\<lambda>_. None) (c3 stalled_segment) unit_point = Inr unit_field"
    using paintField_unit by (simp add: stalled_segment_def initCurveSegment_def)
  have c1: "c1 (rounds unit_field (extendSegment (newSegment stalled_segment) unit_point) 0 1) =
     Vec NaN NaN"
    using refine_step_c1_NaN[of "extendSegment (newSegment stalled_segment) unit_point"] ct
    by simp
  have "constrain_to (rounds unit_field (extendSegment (newSegment stalled_segment) unit_point) 0 1) =
      Some (Vec NaN NaN)"
    using ct by (simp add: refine_step_frame)
  then have "\<not> colinear (rounds unit_field (extendSegment (newSegment stalled_segment) unit_point) 0 1)"
    by (simp add: colinear_def)
  moreover have "\<not> colinear (newSegment stalled_segment)" using ct by (simp add: colinear_def)
  ultimately show ?thesis using st t ct pf c1 by simp
qed

text \<open>
  C10. If the last segment carries \<open>FAIL_CORNER\<close> or \<open>FAIL_MAXED\<close> from the previous call and
  the rounded point is within \<open>RADIAL_SIMPLIFICATION\<close> of its end, \<open>addToCurve\<close> returns that
  segment with its stale status and leaves the curve as it was: no segment pushed, the distance
  map not reset, the segment not modified.
\<close>

theorem stale_failure_duplicate:
  assumes "getLastSegment cv = Some sg"
    and "update_status sg = Some FAIL_CORNER \<or> update_status sg = Some FAIL_MAXED"
    and "js_lt (getMagnitude (roundVec p) (c3 sg)) RADIAL_SIMPLIFICATION"
  shows "addToCurve cv p = Inr (cv, sg)"
  using assms by (auto simp: addToCurve_def Let_def addToCurveImpl_duplicate)

theorem stale_failure_duplicate_witness:
  "getLastSegment turned_curve = Some turned_segment \<and>
   update_status turned_segment = Some FAIL_CORNER \<and>
   js_lt (getMagnitude (roundVec (Vec (Num (1004 / 10)) (Num (3 / 10)))) (c3 turned_segment))
     RADIAL_SIMPLIFICATION \<and>
   addToCurve turned_curve (Vec (Num (1004 / 10)) (Num (3 / 10))) = Inr (turned_curve, turned_segment)"
proof -
  have 1: "getLastSegment turned_curve = Some turned_segment"
    by (simp add: getLastSegment_def turned_curve_def)
  have 2: "update_status turned_segment = Some FAIL_CORNER"
    by (simp add: turned_segment_def)
  have 3: "js_lt (getMagnitude (roundVec (Vec (Num (1004 / 10)) (Num (3 / 10)))) (c3 turned_segment))
     RADIAL_SIMPLIFICATION"
    by (simp add: getMagnitude_def roundVec_def turned_segment_def long_segment_def js_sub_def
        numeral_2_eq_2 RADIAL_SIMPLIFICATION_def)
  show ?thesis
    using stale_failure_duplicate[OF 1 _ 3] 1 2 3 by simp
qed

end
